(* ===== verification/Prelude.thy ===== *)
theory Prelude
  imports Main "HOL-Library.Word"
begin

text \<open>
  What every component shares: the errors of the program, the outcome of a Go call
  (a value, a returned error, or an abort of the goroutine or process), effectful
  calls as functions on the state of the world, and a small logic for them.

  A Go function that returns \<open>(T, error)\<close> is modelled by a function whose outcome is
  \<open>Ok\<close> (the error is nil) or \<open>Err\<close>. A nil dereference, an index out of range, a
  failed type assertion, \<open>log.Fatal\<close> and \<open>os.Exit\<close> are the outcome \<open>Abort\<close>, so that no
  definition of the development hides a crash behind an unspecified HOL value.
\<close>

section \<open>Errors and outcomes\<close>

text \<open>The gRPC status codes; the code looks only for \<open>codes.NotFound\<close>.\<close>

datatype code = codes_OK | codes_NotFound | codes_Unknown | codes_Other nat

text \<open>
  One constructor per place of the source that makes an error, with the values its
  message is built from; \<open>RpcError\<close> is an error that a client of the cloud or of
  Kubernetes returned.
\<close>

datatype error =
    RpcError code string
  | ErrManyLoadBalancers string
  | ErrManyTargetGroups string
  | ErrManyInstances string
  | ErrNoInstances string
  | ErrTooManyPorts
  | ErrNoNodes
  | ErrParameters error
  | ErrAnnotationInt string string error
  | ErrNumSyntax string
  | ErrNumRange string
  | ErrTGMissing string
  | ErrListServices error
  | ErrProviderIDEmpty string
  | ErrFindInstance "error option"
  | ErrConstructMap error
  | ErrNoMappings
  | ErrWithStack error
  | ErrRouteAPILocked
  | ErrNoInternalIP string
  | ErrNoInterfaces string string
  | ErrNoPrimaryIPv4 string string
  | ErrUnexpectedInput string
  | ErrParseProviderID string
  | InstanceNotFound
  | NotImplemented
  | ErrEnvRequired string
  | ErrMalformedServiceAccount error
  | ErrInvalidCredentials error
  | ErrFolderIDMetadata error
  | ErrRegionFromZone string error
  | ErrHttpStatus string int
  | ErrBuildSDK error

datatype abort = NilDereference | IndexOutOfRange | TypeAssertion | LogFatal string | OsExit int

datatype (okval: 'a) outcome = Ok 'a | Err error | Abort abort

fun bind_outcome :: "'a outcome \<Rightarrow> ('a \<Rightarrow> 'b outcome) \<Rightarrow> 'b outcome" where
  "bind_outcome (Ok x) f = f x"
| "bind_outcome (Err e) f = Err e"
| "bind_outcome (Abort p) f = Abort p"

text \<open>Reading through a pointer that may be nil, and \<open>xs[0]\<close>.\<close>

fun deref :: "'a option \<Rightarrow> 'a outcome" where
  "deref None = Abort NilDereference"
| "deref (Some x) = Ok x"

fun index0 :: "'a list \<Rightarrow> 'a outcome" where
  "index0 [] = Abort IndexOutOfRange"
| "index0 (x # xs) = Ok x"

lemma bind_outcome_Ok_iff:
  "bind_outcome m f = Ok y \<longleftrightarrow> (\<exists>x. m = Ok x \<and> f x = Ok y)"
  by (cases m) auto

lemma bind_outcome_Abort_iff:
  "bind_outcome m f = Abort p \<longleftrightarrow> m = Abort p \<or> (\<exists>x. m = Ok x \<and> f x = Abort p)"
  by (cases m) auto

lemma bind_outcome_Err_iff:
  "bind_outcome m f = Err e \<longleftrightarrow> m = Err e \<or> (\<exists>x. m = Ok x \<and> f x = Err e)"
  by (cases m) auto

lemma bind_outcome_assoc: "bind_outcome (bind_outcome m f) g = bind_outcome m (\<lambda>x. bind_outcome (f x) g)"
  by (cases m) auto

lemma deref_Ok_iff [simp]: "deref p = Ok x \<longleftrightarrow> p = Some x"
  by (cases p) auto

lemma index0_Ok_iff [simp]: "index0 xs = Ok x \<longleftrightarrow> (\<exists>ys. xs = x # ys)"
  by (cases xs) auto

lemma deref_not_Err [simp]: "deref p \<noteq> Err e"
  by (cases p) auto

lemma index0_not_Err [simp]: "index0 xs \<noteq> Err e"
  by (cases xs) auto

section \<open>Effectful calls\<close>

text \<open>
  A call that talks to the cloud, to Kubernetes or to shared variables of the program
  takes the state and returns its outcome with the new state.
\<close>

type_synonym ('w, 'a) io = "'w \<Rightarrow> 'a outcome \<times> 'w"

definition return_io :: "'a \<Rightarrow> ('w, 'a) io" where
  "return_io x = (\<lambda>w. (Ok x, w))"

definition fail_io :: "error \<Rightarrow> ('w, 'a) io" where
  "fail_io e = (\<lambda>w. (Err e, w))"

definition lift_outcome :: "'a outcome \<Rightarrow> ('w, 'a) io" where
  "lift_outcome r = (\<lambda>w. (r, w))"

text \<open>The idiom \<open>x, err := m; if err != nil { return err }; f x\<close>.\<close>

definition bind_io :: "('w, 'a) io \<Rightarrow> ('a \<Rightarrow> ('w, 'b) io) \<Rightarrow> ('w, 'b) io" where
  "bind_io m f = (\<lambda>w. case m w of
       (Ok x, w') \<Rightarrow> f x w'
     | (Err e, w') \<Rightarrow> (Err e, w')
     | (Abort p, w') \<Rightarrow> (Abort p, w'))"

text \<open>The idiom \<open>x, err := m\<close> where the code looks at \<open>err\<close> itself.\<close>

definition attempt_io :: "('w, 'a) io \<Rightarrow> ('w, error + 'a) io" where
  "attempt_io m = (\<lambda>w. case m w of
       (Ok x, w') \<Rightarrow> (Ok (Inr x), w')
     | (Err e, w') \<Rightarrow> (Ok (Inl e), w')
     | (Abort p, w') \<Rightarrow> (Abort p, w'))"

text \<open>\<open>for _, x := range xs\<close> with a body that may return early with an error.\<close>

fun foreach_io :: "('a \<Rightarrow> ('w, unit) io) \<Rightarrow> 'a list \<Rightarrow> ('w, unit) io" where
  "foreach_io f [] = return_io ()"
| "foreach_io f (x # xs) = bind_io (f x) (\<lambda>_. foreach_io f xs)"

section \<open>Running a call\<close>

named_theorems io_run \<open>evaluate a call in a given state\<close>
named_theorems io_inv \<open>what a successful call went through\<close>

lemma return_io_run [simp, io_run]: "return_io x w = (Ok x, w)"
  by (simp add: return_io_def)

lemma fail_io_run [simp, io_run]: "fail_io e w = (Err e, w)"
  by (simp add: fail_io_def)

lemma lift_outcome_run [simp, io_run]: "lift_outcome r w = (r, w)"
  by (simp add: lift_outcome_def)

lemma bind_io_run [io_run]:
  "bind_io m f w = (case m w of
       (Ok x, w') \<Rightarrow> f x w'
     | (Err e, w') \<Rightarrow> (Err e, w')
     | (Abort p, w') \<Rightarrow> (Abort p, w'))"
  by (simp add: bind_io_def)

lemma attempt_io_run [io_run]:
  "attempt_io m w = (case m w of
       (Ok x, w') \<Rightarrow> (Ok (Inr x), w')
     | (Err e, w') \<Rightarrow> (Ok (Inl e), w')
     | (Abort p, w') \<Rightarrow> (Abort p, w'))"
  by (simp add: attempt_io_def)

lemma bind_io_OkI: "m w = (Ok x, w') \<Longrightarrow> bind_io m f w = f x w'"
  by (simp add: bind_io_def)

lemma bind_io_ErrI: "m w = (Err e, w') \<Longrightarrow> bind_io m f w = (Err e, w')"
  by (simp add: bind_io_def)

lemma bind_io_AbortI: "m w = (Abort p, w') \<Longrightarrow> bind_io m f w = (Abort p, w')"
  by (simp add: bind_io_def)

lemma attempt_io_OkI: "m w = (Ok x, w') \<Longrightarrow> attempt_io m w = (Ok (Inr x), w')"
  by (simp add: attempt_io_def)

lemma attempt_io_ErrI: "m w = (Err e, w') \<Longrightarrow> attempt_io m w = (Ok (Inl e), w')"
  by (simp add: attempt_io_def)

lemma attempt_io_AbortI: "m w = (Abort p, w') \<Longrightarrow> attempt_io m w = (Abort p, w')"
  by (simp add: attempt_io_def)

lemma bind_io_return [simp]: "bind_io (return_io x) f = f x"
  by (simp add: bind_io_def fun_eq_iff)

lemma bind_io_fail [simp]: "bind_io (fail_io e) f = fail_io e"
  by (simp add: bind_io_def fun_eq_iff)

lemma bind_io_lift_Ok [simp]: "bind_io (lift_outcome (Ok x)) f = f x"
  by (simp add: bind_io_def lift_outcome_def fun_eq_iff)

lemma bind_io_right_unit [simp]: "bind_io m return_io = m"
  by (auto simp: bind_io_def fun_eq_iff split: prod.split outcome.split)

lemma bind_io_assoc: "bind_io (bind_io m f) g = bind_io m (\<lambda>x. bind_io (f x) g)"
  by (auto simp: bind_io_def fun_eq_iff split: prod.split outcome.split)

lemma bind_io_Ok_iff [io_inv]:
  "bind_io m f w = (Ok y, w2) \<longleftrightarrow> (\<exists>x w1. m w = (Ok x, w1) \<and> f x w1 = (Ok y, w2))"
  by (auto simp: bind_io_def split: prod.split outcome.split)

lemma bind_io_Err_iff:
  "bind_io m f w = (Err e, w2) \<longleftrightarrow>
     m w = (Err e, w2) \<or> (\<exists>x w1. m w = (Ok x, w1) \<and> f x w1 = (Err e, w2))"
  by (auto simp: bind_io_def split: prod.split outcome.split)

lemma bind_io_Abort_iff:
  "bind_io m f w = (Abort p, w2) \<longleftrightarrow>
     m w = (Abort p, w2) \<or> (\<exists>x w1. m w = (Ok x, w1) \<and> f x w1 = (Abort p, w2))"
  by (auto simp: bind_io_def split: prod.split outcome.split)

lemma attempt_io_Ok_iff [io_inv]:
  "attempt_io m w = (Ok r, w2) \<longleftrightarrow>
     (\<exists>x. r = Inr x \<and> m w = (Ok x, w2)) \<or> (\<exists>e. r = Inl e \<and> m w = (Err e, w2))"
  by (auto simp: attempt_io_def split: prod.split outcome.split)

lemma attempt_io_not_Err [simp]: "attempt_io m w \<noteq> (Err e, w2)"
  by (auto simp: attempt_io_def split: prod.split outcome.split)

lemma attempt_io_Abort_iff:
  "attempt_io m w = (Abort p, w2) \<longleftrightarrow> m w = (Abort p, w2)"
  by (auto simp: attempt_io_def split: prod.split outcome.split)

section \<open>A small logic for calls\<close>

text \<open>
  \<open>triple P m Q\<close>: from a state with \<open>P\<close>, if the call returns without error its value and
  the new state are in \<open>Q\<close>. \<open>keeps I m\<close>: the call keeps \<open>I\<close> whatever its outcome.
  \<open>safe P m\<close>: from a state with \<open>P\<close> the call does not abort.
\<close>

definition triple :: "('w \<Rightarrow> bool) \<Rightarrow> ('w, 'a) io \<Rightarrow> ('a \<Rightarrow> 'w \<Rightarrow> bool) \<Rightarrow> bool" where
  "triple P m Q \<longleftrightarrow> (\<forall>w x w'. P w \<longrightarrow> m w = (Ok x, w') \<longrightarrow> Q x w')"

definition keeps :: "('w \<Rightarrow> bool) \<Rightarrow> ('w, 'a) io \<Rightarrow> bool" where
  "keeps I m \<longleftrightarrow> (\<forall>w. I w \<longrightarrow> I (snd (m w)))"

definition safe :: "('w \<Rightarrow> bool) \<Rightarrow> ('w, 'a) io \<Rightarrow> bool" where
  "safe P m \<longleftrightarrow> (\<forall>w p w'. P w \<longrightarrow> m w \<noteq> (Abort p, w'))"

lemma tripleI: "(\<And>w x w'. P w \<Longrightarrow> m w = (Ok x, w') \<Longrightarrow> Q x w') \<Longrightarrow> triple P m Q"
  by (auto simp: triple_def)

lemma tripleD: "triple P m Q \<Longrightarrow> P w \<Longrightarrow> m w = (Ok x, w') \<Longrightarrow> Q x w'"
  by (auto simp: triple_def)

lemma triple_return [intro]: "(\<And>w. P w \<Longrightarrow> Q x w) \<Longrightarrow> triple P (return_io x) Q"
  by (auto simp: triple_def)

lemma triple_fail [intro]: "triple P (fail_io e) Q"
  by (auto simp: triple_def)

lemma triple_bind:
  assumes "triple P m R" and "\<And>x. triple (R x) (f x) Q"
  shows "triple P (bind_io m f) Q"
  using assms by (auto simp: triple_def bind_io_Ok_iff)

lemma triple_conseq:
  assumes "triple P' m Q'" and "\<And>w. P w \<Longrightarrow> P' w" and "\<And>x w. Q' x w \<Longrightarrow> Q x w"
  shows "triple P m Q"
  using assms unfolding triple_def by blast

text \<open>
  A loop: an invariant that speaks of the elements handled so far and of those to come.
\<close>

lemma triple_foreach_from:
  assumes step: "\<And>ys x zs. ys0 @ xs0 = ys @ x # zs \<Longrightarrow> triple (I ys) (f x) (\<lambda>_. I (ys @ [x]))"
  shows "triple (I ys0) (foreach_io f xs0) (\<lambda>_. I (ys0 @ xs0))"
  using step
proof (induction xs0 arbitrary: ys0)
  case Nil
  then show ?case by (auto simp: triple_def)
next
  case (Cons x xs)
  have "triple (I ys0) (f x) (\<lambda>_. I (ys0 @ [x]))"
    by (rule Cons.prems) simp
  moreover have "triple (I (ys0 @ [x])) (foreach_io f xs) (\<lambda>_. I ((ys0 @ [x]) @ xs))"
    by (rule Cons.IH) (rule Cons.prems, simp)
  ultimately show ?case by (auto intro: triple_bind)
qed

lemma triple_foreach:
  assumes "\<And>ys x zs. xs = ys @ x # zs \<Longrightarrow> triple (I ys) (f x) (\<lambda>_. I (ys @ [x]))"
  shows "triple (I []) (foreach_io f xs) (\<lambda>_. I xs)"
  using triple_foreach_from [of "[]" xs I f] assms by auto

lemma keepsI: "(\<And>w r w'. I w \<Longrightarrow> m w = (r, w') \<Longrightarrow> I w') \<Longrightarrow> keeps I m"
  unfolding keeps_def by (metis prod.collapse)

lemma keepsD: "keeps I m \<Longrightarrow> I w \<Longrightarrow> m w = (r, w') \<Longrightarrow> I w'"
  unfolding keeps_def by (metis snd_conv)

lemma keeps_return [simp, intro]: "keeps I (return_io x)"
  by (simp add: keeps_def)

lemma keeps_fail [simp, intro]: "keeps I (fail_io e)"
  by (simp add: keeps_def)

lemma keeps_lift [simp, intro]: "keeps I (lift_outcome r)"
  by (simp add: keeps_def)

lemma keeps_if: "keeps I a \<Longrightarrow> keeps I b \<Longrightarrow> keeps I (if c then a else b)"
  by simp

lemma keeps_bind [intro]:
  assumes "keeps I m" and "\<And>x. keeps I (f x)"
  shows "keeps I (bind_io m f)"
proof (rule keepsI)
  fix w r w'
  assume "I w" and run: "bind_io m f w = (r, w')"
  obtain q v where m: "m w = (q, v)" by (cases "m w")
  with \<open>I w\<close> assms(1) have v: "I v" by (auto dest: keepsD)
  show "I w'"
  proof (cases q)
    case (Ok x)
    with m run have "f x v = (r, w')" by (simp add: bind_io_OkI)
    with assms(2) v show ?thesis by (auto dest: keepsD)
  qed (use m run v in \<open>simp_all add: bind_io_def\<close>)
qed

lemma keeps_attempt [intro]: "keeps I m \<Longrightarrow> keeps I (attempt_io m)"
  by (auto simp: keeps_def attempt_io_def split: prod.split outcome.split)

lemma keeps_foreach [intro]: "(\<And>x. x \<in> set xs \<Longrightarrow> keeps I (f x)) \<Longrightarrow> keeps I (foreach_io f xs)"
  by (induction xs) auto

text \<open>
  A call made with what an earlier call has found: \<open>Q\<close> is what \<open>m\<close>'s value is known to be.
\<close>

lemma keeps_bind_known:
  assumes "keeps I m" and "\<And>w x w'. I w \<Longrightarrow> m w = (Ok x, w') \<Longrightarrow> Q x"
    and "\<And>x. Q x \<Longrightarrow> keeps I (f x)"
  shows "keeps I (bind_io m f)"
proof (rule keepsI)
  fix w r w' assume "I w" and run: "bind_io m f w = (r, w')"
  obtain q v where m: "m w = (q, v)" by (cases "m w")
  with \<open>I w\<close> assms(1) have v: "I v" by (auto dest: keepsD)
  show "I w'"
  proof (cases q)
    case (Ok x)
    with m run have "f x v = (r, w')" by (simp add: bind_io_OkI)
    with assms(3) [OF assms(2) [OF \<open>I w\<close>]] m Ok v show ?thesis by (auto dest: keepsD)
  qed (use m run v in \<open>simp_all add: bind_io_def\<close>)
qed

lemma keeps_under: "(L \<Longrightarrow> keeps I m) \<Longrightarrow> keeps (\<lambda>w. L \<and> I w) m"
  by (auto simp: keeps_def)

lemma keeps_of_view: "(\<And>v. keeps (\<lambda>w. view w = v) m) \<Longrightarrow> keeps (\<lambda>w. I (view w)) m"
  by (simp add: keeps_def)

text \<open>\<open>keeps_failing I m\<close>: the call keeps \<open>I\<close> when it does not return a value.\<close>

definition keeps_failing :: "('w \<Rightarrow> bool) \<Rightarrow> ('w, 'a) io \<Rightarrow> bool" where
  "keeps_failing I m \<longleftrightarrow> (\<forall>w r w'. I w \<longrightarrow> m w = (r, w') \<longrightarrow> (\<forall>x. r \<noteq> Ok x) \<longrightarrow> I w')"

lemma keeps_failingD: "keeps_failing I m \<Longrightarrow> I w \<Longrightarrow> m w = (r, w') \<Longrightarrow> (\<And>x. r \<noteq> Ok x) \<Longrightarrow> I w'"
  unfolding keeps_failing_def by blast

lemma keeps_keeps_failing: "keeps I m \<Longrightarrow> keeps_failing I m"
  by (auto simp: keeps_failing_def dest: keepsD)

lemma keeps_failing_total: "(\<And>w. \<exists>x w'. m w = (Ok x, w')) \<Longrightarrow> keeps_failing I m"
  unfolding keeps_failing_def by (metis prod.inject)

lemma keeps_failing_if: "keeps_failing I a \<Longrightarrow> keeps_failing I b \<Longrightarrow> keeps_failing I (if c then a else b)"
  by simp

lemma keeps_failing_bind:
  assumes "keeps I m" and "\<And>x. keeps_failing I (f x)"
  shows "keeps_failing I (bind_io m f)"
  unfolding keeps_failing_def
proof (intro allI impI)
  fix w r w' assume "I w" and run: "bind_io m f w = (r, w')" and no: "\<forall>x. r \<noteq> Ok x"
  obtain q v where m: "m w = (q, v)" by (cases "m w")
  with \<open>I w\<close> assms(1) have v: "I v" by (auto dest: keepsD)
  show "I w'"
  proof (cases q)
    case (Ok x)
    with m run have "f x v = (r, w')" by (simp add: bind_io_OkI)
    from keeps_failingD [OF assms(2) v this] no show ?thesis by simp
  qed (use m run v in \<open>simp_all add: bind_io_def\<close>)
qed

lemma safeI: "(\<And>w p w'. P w \<Longrightarrow> m w = (Abort p, w') \<Longrightarrow> False) \<Longrightarrow> safe P m"
  by (auto simp: safe_def)

section \<open>Lists and maps\<close>

text \<open>
  A Go \<open>map\<close> filled by a loop keeps the last value stored under a key.
\<close>

definition map_by :: "('a \<Rightarrow> 'k) \<Rightarrow> 'a list \<Rightarrow> ('k \<rightharpoonup> 'a)" where
  "map_by key xs = foldl (\<lambda>m x. m(key x \<mapsto> x)) Map.empty xs"

lemma foldl_upd_Some:
  "foldl (\<lambda>m x. m(key x \<mapsto> x)) m xs k = Some x \<Longrightarrow> (x \<in> set xs \<and> key x = k) \<or> m k = Some x"
proof (induction xs arbitrary: m)
  case (Cons a xs)
  have "(x \<in> set xs \<and> key x = k) \<or> (m(key a \<mapsto> a)) k = Some x"
    by (rule Cons.IH) (use Cons.prems in \<open>simp only: foldl_Cons\<close>)
  then show ?case by (auto split: if_splits)
qed simp

lemma foldl_upd_dom:
  "dom (foldl (\<lambda>m x. m(key x \<mapsto> x)) m xs) = dom m \<union> key ` set xs"
  by (induction xs arbitrary: m) auto

lemma dom_map_by [simp]: "dom (map_by key xs) = key ` set xs"
  by (simp add: map_by_def foldl_upd_dom)

lemma map_by_SomeD: "map_by key xs k = Some x \<Longrightarrow> x \<in> set xs \<and> key x = k"
  unfolding map_by_def by (drule foldl_upd_Some) simp

lemma map_by_inj:
  assumes "x \<in> set xs" and "inj_on key (set xs)"
  shows "map_by key xs (key x) = Some x"
proof -
  have "key x \<in> dom (map_by key xs)" using assms(1) by simp
  then obtain y where y: "map_by key xs (key x) = Some y" by blast
  then have "y \<in> set xs" "key y = key x" by (auto dest: map_by_SomeD)
  with assms have "y = x" by (auto dest: inj_onD)
  with y show ?thesis by simp
qed

lemma split_at_first:
  assumes "a @ c # b = a' @ c # b'" and "c \<notin> set a" and "c \<notin> set a'"
  shows "a = a' \<and> b = b'"
  using assms
proof (induction a arbitrary: a')
  case Nil
  then show ?case by (cases a') auto
next
  case (Cons x xs)
  then show ?case by (cases a') auto
qed

lemma list_all2_elems:
  assumes "list_all2 R xs ys"
  shows "y \<in> set ys \<Longrightarrow> \<exists>x\<in>set xs. R x y" and "x \<in> set xs \<Longrightarrow> \<exists>y\<in>set ys. R x y"
  using assms by (induction rule: list_all2_induct) auto

lemma distinct_map_eq:
  "distinct (map f xs) \<Longrightarrow> x \<in> set xs \<Longrightarrow> y \<in> set xs \<Longrightarrow> f x = f y \<Longrightarrow> x = y"
  by (auto simp: distinct_map dest: inj_onD)

lemma filter_singleton_unique:
  "distinct (map f xs) \<Longrightarrow> x \<in> set xs \<Longrightarrow> filter (\<lambda>y. f y = f x) xs = [x]"
proof (induction xs)
  case (Cons a xs)
  show ?case
  proof (cases "a = x")
    case True
    with Cons.prems have "\<forall>y\<in>set xs. f y \<noteq> f x" by (auto simp: image_iff)
    with True show ?thesis by (simp add: filter_False)
  next
    case False
    with Cons.prems have "x \<in> set xs" and "f a \<noteq> f x" by (auto simp: image_iff)
    with Cons show ?thesis by simp
  qed
qed simp

end
