(* ===== verification/GoStd.thy ===== *)
theory GoStd
  imports Prelude
begin

text \<open>
  The functions of Go's standard library that the program computes with: substring and
  last-index search, splitting, the decimal conversions of \<open>strconv\<close>. A Go string is a
  sequence of bytes, as \<open>string\<close> is, so \<open>len\<close> is \<open>length\<close> and a slice \<open>s[:i]\<close> is \<open>take i s\<close>.
  The program calls them with one-character separators only, which the model's types say.
\<close>

section \<open>Package strings\<close>

definition strings_HasPrefix :: "string \<Rightarrow> string \<Rightarrow> bool" where
  "strings_HasPrefix s p = (take (length p) s = p)"

fun strings_Contains :: "string \<Rightarrow> string \<Rightarrow> bool" where
  "strings_Contains [] sub = (sub = [])"
| "strings_Contains (c # s) sub = (strings_HasPrefix (c # s) sub \<or> strings_Contains s sub)"

fun last_index_from :: "int \<Rightarrow> string \<Rightarrow> char \<Rightarrow> int \<Rightarrow> int" where
  "last_index_from i [] c found = found"
| "last_index_from i (x # xs) c found = last_index_from (i + 1) xs c (if x = c then i else found)"

definition strings_LastIndex :: "string \<Rightarrow> char \<Rightarrow> int" where
  "strings_LastIndex s c = last_index_from 0 s c (-1)"

fun strings_Split :: "string \<Rightarrow> char \<Rightarrow> string list" where
  "strings_Split [] c = [[]]"
| "strings_Split (x # xs) c =
     (if x = c then [] # strings_Split xs c
      else (case strings_Split xs c of [] \<Rightarrow> [[x]] | p # ps \<Rightarrow> (x # p) # ps))"

text \<open>\<open>strings.ReplaceAll(s, "c", "")\<close>.\<close>

definition strings_RemoveAll :: "string \<Rightarrow> char \<Rightarrow> string" where
  "strings_RemoveAll s c = filter (\<lambda>x. x \<noteq> c) s"

text \<open>\<open>strings.ToLower\<close> on ASCII input, which the enum names it is applied to are.\<close>

definition ascii_lower :: "char \<Rightarrow> char" where
  "ascii_lower c = (let n = (of_char c :: nat) in if 65 \<le> n \<and> n \<le> 90 then char_of (n + 32) else c)"

definition strings_ToLower :: "string \<Rightarrow> string" where
  "strings_ToLower s = map ascii_lower s"

lemma HasPrefix_iff: "strings_HasPrefix s p \<longleftrightarrow> (\<exists>t. s = p @ t)"
  unfolding strings_HasPrefix_def by (metis append_eq_conv_conj append_take_drop_id)

lemma Contains_iff: "strings_Contains s sub \<longleftrightarrow> (\<exists>a b. s = a @ sub @ b)"
proof (induction s)
  case Nil
  then show ?case by simp
next
  case (Cons c s)
  show ?case
  proof
    assume "strings_Contains (c # s) sub"
    then consider t where "c # s = sub @ t" | a b where "s = a @ sub @ b"
      using Cons.IH by (auto simp: HasPrefix_iff)
    then show "\<exists>a b. c # s = a @ sub @ b"
    proof cases
      case 1
      then show ?thesis by (intro exI [of _ "[]"] exI) simp
    next
      case 2
      then show ?thesis by (intro exI [of _ "c # a" for a] exI) simp
    qed
  next
    assume "\<exists>a b. c # s = a @ sub @ b"
    then obtain a b where ab: "c # s = a @ sub @ b" by blast
    show "strings_Contains (c # s) sub"
    proof (cases a)
      case Nil
      with ab have "strings_HasPrefix (c # s) sub"
        unfolding HasPrefix_iff by (metis append_Nil)
      then show ?thesis by simp
    next
      case (Cons x xs)
      with ab have "s = xs @ sub @ b" by simp
      then show ?thesis using Cons.IH by auto
    qed
  qed
qed

lemma Contains_append [simp]: "strings_Contains (a @ sub @ b) sub"
  unfolding Contains_iff by blast

lemma last_index_from_absent: "c \<notin> set s \<Longrightarrow> last_index_from i s c found = found"
  by (induction s arbitrary: i) auto

lemma last_index_from_append:
  "last_index_from i (a @ s) c found
     = last_index_from (i + int (length a)) s c (last_index_from i a c found)"
  by (induction a arbitrary: i found) (auto simp: algebra_simps)

lemma LastIndex_absent: "c \<notin> set s \<Longrightarrow> strings_LastIndex s c = -1"
  by (simp add: strings_LastIndex_def last_index_from_absent)

lemma LastIndex_last: "c \<notin> set b \<Longrightarrow> strings_LastIndex (a @ c # b) c = int (length a)"
  by (simp add: strings_LastIndex_def last_index_from_append last_index_from_absent)

lemma LastIndex_minus1_iff: "strings_LastIndex s c = -1 \<longleftrightarrow> c \<notin> set s"
proof
  assume *: "strings_LastIndex s c = -1"
  show "c \<notin> set s"
  proof
    assume "c \<in> set s"
    then obtain a b where "s = a @ c # b" "c \<notin> set b" by (metis split_list_last)
    with * show False by (simp add: LastIndex_last)
  qed
qed (rule LastIndex_absent)

lemma Split_nonempty [simp]: "strings_Split s c \<noteq> []"
  by (induction s) (auto split: list.split)

lemma Split_absent: "c \<notin> set s \<Longrightarrow> strings_Split s c = [s]"
  by (induction s) auto

lemma Split_cons: "c \<notin> set a \<Longrightarrow> strings_Split (a @ c # s) c = a # strings_Split s c"
  by (induction a) auto

lemma Split_pieces: "p \<in> set (strings_Split s c) \<Longrightarrow> c \<notin> set p"
  by (induction s arbitrary: p) (auto split: if_splits list.splits)

fun join_with :: "char \<Rightarrow> string list \<Rightarrow> string" where
  "join_with c [] = []"
| "join_with c [p] = p"
| "join_with c (p # ps) = p @ c # join_with c ps"

lemma join_with_Cons: "ps \<noteq> [] \<Longrightarrow> join_with c (p # ps) = p @ c # join_with c ps"
  by (cases ps) auto

lemma join_Split: "join_with c (strings_Split s c) = s"
proof (induction s)
  case (Cons x xs)
  show ?case
  proof (cases "strings_Split xs c")
    case (Cons p ps)
    with Cons.IH show ?thesis by (cases ps) (auto simp: join_with_Cons)
  qed simp
qed simp

lemma Split_join: "ps \<noteq> [] \<Longrightarrow> \<forall>p\<in>set ps. c \<notin> set p \<Longrightarrow> strings_Split (join_with c ps) c = ps"
proof (induction ps)
  case (Cons p ps)
  then show ?case by (cases ps) (simp_all add: Split_absent Split_cons)
qed simp

lemma RemoveAll_absent [simp]: "c \<notin> set (strings_RemoveAll s c)"
  by (simp add: strings_RemoveAll_def)

section \<open>Package strconv\<close>

definition is_digit :: "char \<Rightarrow> bool" where
  "is_digit c = (48 \<le> (of_char c :: nat) \<and> (of_char c :: nat) \<le> 57)"

definition digit_val :: "char \<Rightarrow> nat" where
  "digit_val c = of_char c - 48"

definition digit_char :: "nat \<Rightarrow> char" where
  "digit_char d = char_of (48 + d)"

fun decimal :: "nat \<Rightarrow> string" where
  "decimal n = (if n < 10 then [digit_char n] else decimal (n div 10) @ [digit_char (n mod 10)])"

declare decimal.simps [simp del]

definition strconv_Itoa :: "int \<Rightarrow> string" where
  "strconv_Itoa i = (if i < 0 then CHR ''-'' # decimal (nat (- i)) else decimal (nat i))"

text \<open>
  The digit loop of \<open>strconv.ParseUint\<close> with 64 bits: it stops at the first character
  that is no digit (a syntax error) and at the first value beyond 64 bits (a range error).
\<close>

fun parse_uint64 :: "string \<Rightarrow> nat \<Rightarrow> string \<Rightarrow> nat outcome" where
  "parse_uint64 whole n [] = Ok n"
| "parse_uint64 whole n (c # cs) =
     (if \<not> is_digit c then Err (ErrNumSyntax whole)
      else let n1 = 10 * n + digit_val c in
        if 2 ^ 64 \<le> n1 then Err (ErrNumRange whole) else parse_uint64 whole n1 cs)"

definition strconv_Atoi :: "string \<Rightarrow> (64 word) outcome" where
  "strconv_Atoi s =
     (let neg = (s \<noteq> [] \<and> hd s = CHR ''-'');
          digits = (if s \<noteq> [] \<and> (hd s = CHR ''-'' \<or> hd s = CHR ''+'') then tl s else s)
      in if digits = [] then Err (ErrNumSyntax s)
         else bind_outcome (parse_uint64 s 0 digits) (\<lambda>n.
           let v = (if neg then - int n else int n) in
           if v < - (2 ^ 63) \<or> 2 ^ 63 \<le> v then Err (ErrNumRange s) else Ok (word_of_int v)))"

lemma digit_char_props:
  assumes "d < 10"
  shows "is_digit (digit_char d)" and "digit_val (digit_char d) = d"
  using assms by (auto simp: is_digit_def digit_val_def digit_char_def of_char_of)

lemma decimal_nonempty [simp]: "decimal n \<noteq> []"
  by (subst decimal.simps) simp

lemma decimal_digits: "c \<in> set (decimal n) \<Longrightarrow> is_digit c"
proof (induction n rule: decimal.induct)
  case (1 n)
  show ?case
  proof (cases "n < 10")
    case True
    with "1.prems" show ?thesis by (simp add: decimal.simps [of n] digit_char_props)
  next
    case False
    with 1 show ?thesis by (auto simp: decimal.simps [of n] digit_char_props)
  qed
qed

lemma parse_append:
  "parse_uint64 w n (a @ b) = bind_outcome (parse_uint64 w n a) (\<lambda>m. parse_uint64 w m b)"
  by (induction a arbitrary: n) (auto simp: Let_def)

lemma parse_decimal: "n < 2 ^ 64 \<Longrightarrow> parse_uint64 w 0 (decimal n) = Ok n"
proof (induction n rule: decimal.induct)
  case (1 n)
  show ?case
  proof (cases "n < 10")
    case True
    then show ?thesis by (simp add: decimal.simps [of n] digit_char_props)
  next
    case False
    with "1.prems" have "parse_uint64 w 0 (decimal (n div 10)) = Ok (n div 10)"
      by (intro "1.IH") auto
    with False "1.prems" show ?thesis
      by (simp add: decimal.simps [of n] parse_append digit_char_props)
  qed
qed

lemma not_digit_sign: "\<not> is_digit (CHR ''-'')" "\<not> is_digit (CHR ''+'')"
  by (simp_all add: is_digit_def)

text \<open>Reading back a printed 64-bit integer gives the integer.\<close>

lemma Atoi_Itoa:
  assumes "- (2 ^ 63) \<le> i" and "i < 2 ^ 63"
  shows "strconv_Atoi (strconv_Itoa i) = Ok (word_of_int i)"
proof (cases "i < 0")
  case True
  with assms have "nat (- i) < 2 ^ 64" by simp
  then have "parse_uint64 (strconv_Itoa i) 0 (decimal (nat (- i))) = Ok (nat (- i))"
    by (rule parse_decimal)
  with True assms show ?thesis
    by (simp add: strconv_Atoi_def strconv_Itoa_def)
next
  case False
  define ds where "ds = decimal (nat i)"
  have ne: "ds \<noteq> []" by (simp add: ds_def)
  then have "hd ds \<in> set ds" by simp
  then have "is_digit (hd ds)" unfolding ds_def by (rule decimal_digits)
  then have hd: "hd ds \<noteq> CHR ''-''" "hd ds \<noteq> CHR ''+''" using not_digit_sign by auto
  from False assms have "parse_uint64 ds 0 ds = Ok (nat i)"
    unfolding ds_def by (intro parse_decimal) simp
  with False assms ne hd show ?thesis
    by (simp add: strconv_Atoi_def strconv_Itoa_def ds_def [symmetric])
qed

text \<open>Beyond 64 bits the conversion fails with a range error.\<close>

lemma parse_decimal_range:
  "2 ^ 64 \<le> n \<Longrightarrow> parse_uint64 w 0 (decimal n) = Err (ErrNumRange w)"
proof (induction n rule: decimal.induct)
  case (1 n)
  then have big: "\<not> n < 10" by simp
  show ?case
  proof (cases "n div 10 < 2 ^ 64")
    case True
    then have "parse_uint64 w 0 (decimal (n div 10)) = Ok (n div 10)" by (rule parse_decimal)
    with big "1.prems" show ?thesis
      by (simp add: decimal.simps [of n] parse_append digit_char_props)
  next
    case False
    with "1.IH" big have "parse_uint64 w 0 (decimal (n div 10)) = Err (ErrNumRange w)" by simp
    with big show ?thesis by (simp add: decimal.simps [of n] parse_append)
  qed
qed

lemma Atoi_Itoa_range:
  assumes "\<not> (- (2 ^ 63) \<le> i \<and> i < 2 ^ 63)"
  shows "strconv_Atoi (strconv_Itoa i) = Err (ErrNumRange (strconv_Itoa i))"
proof -
  define s where "s = strconv_Itoa i"
  have parse: "parse_uint64 s 0 (decimal (nat \<bar>i\<bar>)) = (if nat \<bar>i\<bar> < 2 ^ 64 then Ok (nat \<bar>i\<bar>) else Err (ErrNumRange s))"
    by (simp add: parse_decimal parse_decimal_range)
  show ?thesis
  proof (cases "i < 0")
    case True
    with assms parse show ?thesis
      by (auto simp: strconv_Atoi_def strconv_Itoa_def s_def split: if_splits)
  next
    case False
    have "is_digit (hd (decimal (nat i)))" by (rule decimal_digits [of _ "nat i"]) simp
    then have "hd (decimal (nat i)) \<noteq> CHR ''-''" "hd (decimal (nat i)) \<noteq> CHR ''+''"
      using not_digit_sign by auto
    with False assms parse show ?thesis
      by (auto simp: strconv_Atoi_def strconv_Itoa_def s_def split: if_splits)
  qed
qed

lemma Atoi_not_Abort: "strconv_Atoi s \<noteq> Abort p"
proof -
  have "parse_uint64 w n cs \<noteq> Abort p" for w n cs
    by (induction cs arbitrary: n) (auto simp: Let_def)
  then show ?thesis by (auto simp: strconv_Atoi_def Let_def bind_outcome_Abort_iff)
qed

end
