(* ===== verification/CloudTypes.thy ===== *)
theory CloudTypes
  imports GoStd
begin

text \<open>
  The data that the program reads from and writes to its clients (the fields of the
  protobuf and Kubernetes types that the source touches, under the source's names), and
  the clients themselves. The clients, the SDK's operation wrapper and the helpers of
  \<open>k8s.io/cloud-provider\<close> are not part of the repository: they are the functions of one
  record per client, of \<open>ycsdk\<close> and of \<open>packages\<close>, which reach every definition that
  uses them through the structs of the source. Their state \<open>'w\<close> is opaque.
\<close>

section \<open>Load balancers and target groups\<close>

type_synonym int64 = "64 word"
type_synonym int32 = "32 word"

datatype listener_protocol =
  Listener_PROTOCOL_UNSPECIFIED | Listener_TCP | Listener_UDP | Listener_Protocol_other int

datatype nlb_type = NLB_TYPE_UNSPECIFIED | NLB_EXTERNAL | NLB_INTERNAL

datatype ip_version = IP_VERSION_UNSPECIFIED | IPV4 | IPV6

record target =
  t_SubnetId :: string
  t_Address :: string

record target_group =
  tg_Id :: string
  tg_Name :: string
  tg_Targets :: "target list"

record http_options =
  ho_Port :: int64
  ho_Path :: string

text \<open>
  A duration is a pointer; \<open>GetSeconds\<close> of nil is 0. \<open>hc_HttpOptions\<close> is what
  \<open>GetHttpOptions()\<close> returns, nil when the check is not an HTTP one.
\<close>

record health_check =
  hc_Name :: string
  hc_Interval :: "int64 option"
  hc_Timeout :: "int64 option"
  hc_UnhealthyThreshold :: int64
  hc_HealthyThreshold :: int64
  hc_HttpOptions :: "http_options option"

definition GetSeconds :: "int64 option \<Rightarrow> int64" where
  "GetSeconds d = (case d of None \<Rightarrow> 0 | Some s \<Rightarrow> s)"

record attached_target_group =
  at_TargetGroupId :: string
  at_HealthChecks :: "health_check list"

record listener =
  l_Name :: string
  l_Address :: string
  l_Port :: int64
  l_Protocol :: listener_protocol
  l_TargetPort :: int64

record external_address_spec =
  ea_Address :: string
  ea_IpVersion :: ip_version

record internal_address_spec =
  ia_Address :: string
  ia_SubnetId :: string
  ia_IpVersion :: ip_version

datatype address_spec =
    ListenerSpec_ExternalAddressSpec external_address_spec
  | ListenerSpec_InternalAddressSpec internal_address_spec

record listener_spec =
  ls_Name :: string
  ls_Port :: int64
  ls_Protocol :: listener_protocol
  ls_TargetPort :: int64
  ls_Address :: address_spec

record nlb =
  lb_Id :: string
  lb_Name :: string
  lb_Type :: nlb_type
  lb_Listeners :: "listener list"
  lb_AttachedTargetGroups :: "attached_target_group list"

section \<open>Instances, subnets and routes\<close>

datatype instance_status = Instance_STOPPED | Instance_STATUS_other int

record primary_address =
  pa_Address :: string
  pa_OneToOneNat :: "string option"

record network_interface =
  ni_SubnetId :: string
  ni_PrimaryV4Address :: "primary_address option"

record cloud_instance =
  i_Id :: string
  i_FolderId :: string
  i_Name :: string
  i_ZoneId :: string
  i_Status :: instance_status
  i_NetworkInterfaces :: "network_interface list"

record subnet =
  sn_NetworkId :: string

text \<open>
  A static route's destination and next hop are protobuf oneofs; a destination that is
  not a \<open>DestinationPrefix\<close> makes the code's type assertion fail.
\<close>

datatype route_destination = DestinationPrefix string | DestinationOther

datatype route_next_hop = NextHopAddress string | NextHopOther string

record static_route =
  sr_Destination :: route_destination
  sr_NextHop :: route_next_hop
  sr_Labels :: "string \<rightharpoonup> string"

section \<open>Kubernetes objects\<close>

datatype v1_protocol = ProtocolTCP | ProtocolUDP | ProtocolOther string

datatype service_type = ServiceTypeLoadBalancer | ServiceTypeOther string

record service_port =
  sp_Name :: string
  sp_Protocol :: v1_protocol
  sp_Port :: int32
  sp_NodePort :: int32

text \<open>
  \<open>s_Deleted\<close> is \<open>DeletionTimestamp != nil\<close>; the last two fields are there for the
  service helpers of Kubernetes, the program does not read them itself.
\<close>

record service =
  s_UID :: string
  s_Type :: service_type
  s_Deleted :: bool
  s_Annotations :: "string \<rightharpoonup> string"
  s_Ports :: "service_port list"
  s_ExternalTrafficPolicy :: string
  s_HealthCheckNodePort :: int32

record node =
  n_Name :: string
  n_ProviderID :: string
  n_Annotations :: "string \<rightharpoonup> string"

datatype node_address_type = NodeInternalIP | NodeExternalIP

record node_address =
  na_Type :: node_address_type
  na_Address :: string

record kube_route =
  r_Name :: string
  r_TargetNode :: string
  r_DestinationCIDR :: string

record zone =
  z_FailureDomain :: string
  z_Region :: string

record lb_status =
  st_Ingress :: "string list"

section \<open>Requests\<close>

record list_request =
  lr_FolderId :: string
  lr_PageSize :: int
  lr_Filter :: string

record create_lb_request =
  cl_FolderId :: string
  cl_Name :: string
  cl_RegionId :: string
  cl_Type :: nlb_type
  cl_ListenerSpecs :: "listener_spec list"
  cl_AttachedTargetGroups :: "attached_target_group list"

record create_tg_request =
  ct_FolderId :: string
  ct_Name :: string
  ct_RegionId :: string
  ct_Targets :: "target list"

record update_route_table_request =
  ur_RouteTableId :: string
  ur_UpdateMask :: "string list"
  ur_StaticRoutes :: "static_route list"

text \<open>The message of a finished operation: the type a caller asserts it to have.\<close>

datatype proto_message =
    MsgNetworkLoadBalancer nlb
  | MsgTargetGroup target_group
  | MsgOther string

section \<open>Contexts\<close>

text \<open>
  Of a \<open>context.Context\<close> the program uses that a derived context can be cancelled
  (\<open>errgroup.WithContext\<close>). Contexts are ordered: a context only ever moves up.
\<close>

datatype ctx = CtxLive | CtxCancelled

instantiation ctx :: linorder
begin

definition less_eq_ctx :: "ctx \<Rightarrow> ctx \<Rightarrow> bool" where
  "less_eq_ctx a b = (a = CtxLive \<or> b = CtxCancelled)"

definition less_ctx :: "ctx \<Rightarrow> ctx \<Rightarrow> bool" where
  "less_ctx a b = (a = CtxLive \<and> b = CtxCancelled)"

instance
  by standard (auto simp: less_eq_ctx_def less_ctx_def intro: ctx.exhaust)

end

lemma CtxCancelled_top [simp]: "c \<le> CtxCancelled"
  by (simp add: less_eq_ctx_def)

lemma CtxLive_bot [simp]: "CtxLive \<le> c"
  by (simp add: less_eq_ctx_def)

section \<open>The clients\<close>

text \<open>
  \<open>operation\<close> is a handle of a long-running operation. A client is an interface value: a
  record of the requests that the program makes with it. The program holds clients of zones
  and networks but makes no request with them, so these are opaque.
\<close>

datatype operation = Operation string

text \<open>A lister is a handle too: the read side of an informer's cache.\<close>

datatype lister = Lister string

datatype zone_client = ZoneClient string

datatype network_client = NetworkClient string

record 'w nlb_client =
  LbList :: "ctx \<Rightarrow> list_request \<Rightarrow> ('w, nlb list) io"
  LbCreate :: "ctx \<Rightarrow> create_lb_request \<Rightarrow> ('w, operation) io"
  LbDelete :: "ctx \<Rightarrow> string \<Rightarrow> ('w, operation) io"
  LbRemoveListener :: "ctx \<Rightarrow> string \<Rightarrow> string \<Rightarrow> ('w, operation) io"
  LbAddListener :: "ctx \<Rightarrow> string \<Rightarrow> listener_spec \<Rightarrow> ('w, operation) io"
  LbDetachTargetGroup :: "ctx \<Rightarrow> string \<Rightarrow> string \<Rightarrow> ('w, operation) io"
  LbAttachTargetGroup :: "ctx \<Rightarrow> string \<Rightarrow> attached_target_group \<Rightarrow> ('w, operation) io"

record 'w tg_client =
  TgList :: "ctx \<Rightarrow> list_request \<Rightarrow> ('w, target_group list) io"
  TgCreate :: "ctx \<Rightarrow> create_tg_request \<Rightarrow> ('w, operation) io"
  TgAddTargets :: "ctx \<Rightarrow> string \<Rightarrow> target list \<Rightarrow> ('w, operation) io"
  TgRemoveTargets :: "ctx \<Rightarrow> string \<Rightarrow> target list \<Rightarrow> ('w, operation) io"
  TgDelete :: "ctx \<Rightarrow> string \<Rightarrow> ('w, operation) io"

record 'w instance_client =
  InstanceList :: "ctx \<Rightarrow> list_request \<Rightarrow> ('w, cloud_instance list) io"
  InstanceGet :: "ctx \<Rightarrow> string \<Rightarrow> ('w, cloud_instance) io"

record 'w subnet_client =
  SubnetGet :: "ctx \<Rightarrow> string \<Rightarrow> ('w, subnet) io"

record 'w route_table_client =
  RouteTableGet :: "ctx \<Rightarrow> string \<Rightarrow> ('w, static_route list) io"
  RouteTableUpdate :: "ctx \<Rightarrow> update_route_table_request \<Rightarrow> ('w, operation) io"

text \<open>The SDK that \<open>ycsdk.Build\<close> answers: its operation wrapper and its clients.\<close>

record 'w ycsdk =
  WrapOperation :: "error + operation \<Rightarrow> error + operation"
  OpWait :: "ctx \<Rightarrow> operation \<Rightarrow> ('w, unit) io"
  OpResponse :: "operation \<Rightarrow> ('w, proto_message) io"
  sdk_NetworkLoadBalancer :: "'w nlb_client"
  sdk_TargetGroup :: "'w tg_client"
  sdk_Instance :: "'w instance_client"
  sdk_Zone :: zone_client
  sdk_Network :: network_client
  sdk_Subnet :: "'w subnet_client"
  sdk_RouteTable :: "'w route_table_client"

text \<open>
  The functions of imported packages that the program calls: \<open>status.Code\<close>, the service
  helpers and the lister of Kubernetes, the names of a generated enumeration, and
  \<open>List\<close> of \<open>sets.String\<close>. \<open>range_order\<close> is the order in which a \<open>range\<close> over a map visits
  its keys and \<open>go_schedule\<close> the order in which the goroutines of an \<open>errgroup\<close> make their
  calls: neither is determined by the program, so both are parameters that may depend on
  the state in any way.
\<close>

record 'w packages =
  status_Code :: "error \<Rightarrow> code"
  ServiceList :: "lister \<Rightarrow> ('w, service list) io"
  RequestsOnlyLocalTraffic :: "service \<Rightarrow> bool"
  GetServiceHealthCheckPathPort :: "service \<Rightarrow> string \<times> int32"
  Listener_Protocol_name :: "listener_protocol \<Rightarrow> string"
  StringSet_List :: "string set \<Rightarrow> string list"
  range_order :: "string set \<Rightarrow> 'w \<Rightarrow> string list"
  go_schedule :: "target_group list \<Rightarrow> 'w \<Rightarrow> target_group list"

text \<open>
  What the program relies on of \<open>sets.String.List\<close> and of the runtime's orders: each lists
  every element once.
\<close>

definition lists_sets :: "(string set \<Rightarrow> string list) \<Rightarrow> bool" where
  "lists_sets f \<longleftrightarrow> (\<forall>S. finite S \<longrightarrow> set (f S) = S \<and> distinct (f S))"

definition fair_orders :: "'w packages \<Rightarrow> bool" where
  "fair_orders api \<longleftrightarrow>
     (\<forall>S w. finite S \<longrightarrow> set (range_order api S w) = S \<and> distinct (range_order api S w)) \<and>
     (\<forall>tgs w. set (go_schedule api tgs w) = set tgs)"

lemma lists_sets_set: "lists_sets f \<Longrightarrow> finite S \<Longrightarrow> set (f S) = S"
  by (simp add: lists_sets_def)

lemma range_order_set:
  "fair_orders api \<Longrightarrow> finite S \<Longrightarrow> set (range_order api S w) = S"
  by (simp add: fair_orders_def)

lemma go_schedule_set: "fair_orders api \<Longrightarrow> set (go_schedule api tgs w) = set tgs"
  by (simp add: fair_orders_def)

end
