(* ===== verification/LbDiff.thy ===== *)
theory LbDiff
  imports CloudTypes
begin

text \<open>
  The three comparisons of \<open>pkg/yapi/loadbalancer.go\<close> between what the cluster wants and
  what the cloud has: \<open>diffTargetGroupTargets\<close>, \<open>diffListeners\<close> and
  \<open>diffAttachedTargetGroups\<close>. They share a contract, the locale \<open>differ\<close>.
\<close>

section \<open>The comparisons\<close>

text \<open>\<open>fmt.Sprintf("%v:%v", target.SubnetId, target.Address)\<close>\<close>

definition targetUID :: "target \<Rightarrow> string" where
  "targetUID t = t_SubnetId t @ '':'' @ t_Address t"

definition diffTargetGroupTargets ::
  "(string set \<Rightarrow> string list) \<Rightarrow> target list \<Rightarrow> target list \<Rightarrow> target list \<times> target list" where
  "diffTargetGroupTargets set_List expectedTargets actualTargets =
     (let expectedTargetsByUID = map_by targetUID expectedTargets;
          actualTargetsByUID = map_by targetUID actualTargets;
          expectedTargetsUIDs = dom expectedTargetsByUID;
          actualTargetsUIDs = dom actualTargetsByUID
      in (map (\<lambda>uid. the (expectedTargetsByUID uid)) (set_List (expectedTargetsUIDs - actualTargetsUIDs)),
          map (\<lambda>uid. the (actualTargetsByUID uid)) (set_List (actualTargetsUIDs - expectedTargetsUIDs))))"

definition nlbListenersAreEqual :: "listener \<Rightarrow> listener_spec \<Rightarrow> bool" where
  "nlbListenersAreEqual actual expected =
     (if l_Protocol actual \<noteq> ls_Protocol expected then False
      else if l_Port actual \<noteq> ls_Port expected then False
      else if l_TargetPort actual \<noteq> ls_TargetPort expected then False
      else True)"

text \<open>The inner loop: the first expected listener equal to the actual one.\<close>

fun first_equal_listener :: "listener \<Rightarrow> listener_spec list \<Rightarrow> listener_spec option" where
  "first_equal_listener actual [] = None"
| "first_equal_listener actual (expected # es) =
     (if nlbListenersAreEqual actual expected then Some expected
      else first_equal_listener actual es)"

fun scanListeners :: "listener_spec list \<Rightarrow> listener list \<Rightarrow> string set \<Rightarrow> listener list \<Rightarrow>
    string set \<times> listener list" where
  "scanListeners es [] foundSet toRemove = (foundSet, toRemove)"
| "scanListeners es (actual # as) foundSet toRemove =
     (case first_equal_listener actual es of
        Some expected \<Rightarrow> scanListeners es as (insert (ls_Name expected) foundSet) toRemove
      | None \<Rightarrow> scanListeners es as foundSet (toRemove @ [actual]))"

definition diffListeners ::
  "listener_spec list \<Rightarrow> listener list \<Rightarrow> listener_spec list \<times> listener list" where
  "diffListeners expectedListeners actualListeners =
     (let (foundSet, listenersToRemove) = scanListeners expectedListeners actualListeners {} []
      in (filter (\<lambda>expected. ls_Name expected \<notin> foundSet) expectedListeners, listenersToRemove))"

text \<open>
  The early returns of the source, in its order. \<open>expected.HealthChecks[0]\<close> and the
  fields of the expected HTTP options are read without a check.
\<close>

definition nlbAttachedTargetGroupsAreEqual ::
  "attached_target_group \<Rightarrow> attached_target_group \<Rightarrow> bool outcome" where
  "nlbAttachedTargetGroupsAreEqual actual expected =
     (if at_TargetGroupId actual \<noteq> at_TargetGroupId expected then Ok False
      else case at_HealthChecks actual of
        [] \<Rightarrow> Ok False
      | actualHealthCheck # _ \<Rightarrow>
          bind_outcome (index0 (at_HealthChecks expected)) (\<lambda>expectedHealthCheck.
          if hc_Name actualHealthCheck \<noteq> hc_Name expectedHealthCheck then Ok False
          else if hc_UnhealthyThreshold actualHealthCheck \<noteq> hc_UnhealthyThreshold expectedHealthCheck
          then Ok False
          else if hc_HealthyThreshold actualHealthCheck \<noteq> hc_HealthyThreshold expectedHealthCheck
          then Ok False
          else case hc_HttpOptions actualHealthCheck of
            None \<Rightarrow> Ok False
          | Some actualOptions \<Rightarrow>
              bind_outcome (deref (hc_HttpOptions expectedHealthCheck)) (\<lambda>expectedOptions.
              if ho_Port actualOptions \<noteq> ho_Port expectedOptions then Ok False
              else if ho_Path actualOptions \<noteq> ho_Path expectedOptions then Ok False
              else if GetSeconds (hc_Interval actualHealthCheck) \<noteq> GetSeconds (hc_Interval expectedHealthCheck)
              then Ok False
              else if GetSeconds (hc_Timeout actualHealthCheck) \<noteq> GetSeconds (hc_Timeout expectedHealthCheck)
              then Ok False
              else Ok True)))"

fun first_equal_tg ::
  "attached_target_group \<Rightarrow> attached_target_group list \<Rightarrow> attached_target_group option outcome" where
  "first_equal_tg actual [] = Ok None"
| "first_equal_tg actual (expected # es) =
     bind_outcome (nlbAttachedTargetGroupsAreEqual actual expected) (\<lambda>eq.
       if eq then Ok (Some expected) else first_equal_tg actual es)"

fun scanAttached :: "attached_target_group list \<Rightarrow> attached_target_group list \<Rightarrow> string set \<Rightarrow>
    attached_target_group list \<Rightarrow> (string set \<times> attached_target_group list) outcome" where
  "scanAttached es [] foundSet toDetach = Ok (foundSet, toDetach)"
| "scanAttached es (actual # as) foundSet toDetach =
     bind_outcome (first_equal_tg actual es) (\<lambda>found.
       case found of
         Some expected \<Rightarrow> scanAttached es as (insert (at_TargetGroupId expected) foundSet) toDetach
       | None \<Rightarrow> scanAttached es as foundSet (toDetach @ [actual]))"

definition diffAttachedTargetGroups :: "attached_target_group list \<Rightarrow> attached_target_group list \<Rightarrow>
    (attached_target_group list \<times> attached_target_group list) outcome" where
  "diffAttachedTargetGroups expectedTGs actualTGs =
     bind_outcome (scanAttached expectedTGs actualTGs {} []) (\<lambda>(foundSet, tgsToDetach).
       Ok (filter (\<lambda>expected. at_TargetGroupId expected \<notin> foundSet) expectedTGs, tgsToDetach))"

section \<open>The contract of a comparison\<close>

text \<open>
  A comparison returns what to add and what to remove. On well-formed input it asks to
  add exactly the wanted elements that no present element is the same as, and to remove
  exactly the present elements that are the same as no wanted one.
\<close>

locale differ =
  fixes diff :: "'e list \<Rightarrow> 'a list \<Rightarrow> 'e list \<times> 'a list"
    and same :: "'a \<Rightarrow> 'e \<Rightarrow> bool"
    and wf :: "'e list \<Rightarrow> 'a list \<Rightarrow> bool"
  assumes add_iff: "wf es as \<Longrightarrow>
      e \<in> set (fst (diff es as)) \<longleftrightarrow> e \<in> set es \<and> (\<forall>a\<in>set as. \<not> same a e)"
    and rem_iff: "wf es as \<Longrightarrow>
      a \<in> set (snd (diff es as)) \<longleftrightarrow> a \<in> set as \<and> (\<forall>e\<in>set es. \<not> same a e)"
begin

lemma add_wanted: "wf es as \<Longrightarrow> e \<in> set (fst (diff es as)) \<Longrightarrow> e \<in> set es"
  by (simp add: add_iff)

lemma rem_present: "wf es as \<Longrightarrow> a \<in> set (snd (diff es as)) \<Longrightarrow> a \<in> set as"
  by (simp add: rem_iff)

text \<open>Nothing to do exactly when both sides agree.\<close>

lemma noop_iff:
  assumes "wf es as"
  shows "diff es as = ([], []) \<longleftrightarrow>
    (\<forall>e\<in>set es. \<exists>a\<in>set as. same a e) \<and> (\<forall>a\<in>set as. \<exists>e\<in>set es. same a e)"
proof -
  have "diff es as = ([], []) \<longleftrightarrow> set (fst (diff es as)) = {} \<and> set (snd (diff es as)) = {}"
    by (cases "diff es as") auto
  also have "\<dots> \<longleftrightarrow> (\<forall>e\<in>set es. \<exists>a\<in>set as. same a e) \<and> (\<forall>a\<in>set as. \<exists>e\<in>set es. same a e)"
    by (simp add: set_eq_iff add_iff [OF assms] rem_iff [OF assms]) blast
  finally show ?thesis .
qed

text \<open>
  Carrying the two lists out reconciles the two sides: if \<open>bs\<close> is what is present
  afterwards, namely the elements that were not removed and one realisation of each
  added one, then wanted and present elements correspond, and a second comparison finds
  nothing to do.
\<close>

lemma reconciles:
  assumes wf: "wf es as"
    and kept: "\<And>a. a \<in> set as \<Longrightarrow> a \<notin> set (snd (diff es as)) \<Longrightarrow> a \<in> set bs"
    and made: "\<And>e. e \<in> set (fst (diff es as)) \<Longrightarrow> \<exists>b\<in>set bs. same b e"
    and only: "\<And>b. b \<in> set bs \<Longrightarrow> (b \<in> set as \<and> b \<notin> set (snd (diff es as))) \<or>
                 (\<exists>e\<in>set (fst (diff es as)). same b e)"
  shows "(\<forall>e\<in>set es. \<exists>b\<in>set bs. same b e) \<and> (\<forall>b\<in>set bs. \<exists>e\<in>set es. same b e)"
proof (intro conjI ballI)
  fix e assume e: "e \<in> set es"
  show "\<exists>b\<in>set bs. same b e"
  proof (cases "e \<in> set (fst (diff es as))")
    case True
    then show ?thesis by (rule made)
  next
    case False
    with e add_iff [OF wf] obtain a where a: "a \<in> set as" "same a e" by blast
    with e have "a \<notin> set (snd (diff es as))" using rem_iff [OF wf] by blast
    with a kept show ?thesis by blast
  qed
next
  fix b assume "b \<in> set bs"
  then consider "b \<in> set as" "b \<notin> set (snd (diff es as))"
    | e where "e \<in> set (fst (diff es as))" "same b e"
    using only by blast
  then show "\<exists>e\<in>set es. same b e"
    using rem_iff [OF wf] add_iff [OF wf] by cases blast+
qed

lemma stable:
  assumes "wf es bs"
    and "(\<forall>e\<in>set es. \<exists>b\<in>set bs. same b e) \<and> (\<forall>b\<in>set bs. \<exists>e\<in>set es. same b e)"
  shows "diff es bs = ([], [])"
  using assms noop_iff by blast

end

section \<open>Target groups: diffTargetGroupTargets\<close>

text \<open>
  The identifiers are joined with a colon, so they tell two targets apart when the
  identifiers of the subnets hold no colon (those of Yandex Cloud are alphanumeric); an
  IPv6 address may hold one.
\<close>

definition colon_free :: "target list \<Rightarrow> bool" where
  "colon_free ts = list_all (\<lambda>t. CHR '':'' \<notin> set (t_SubnetId t)) ts"

lemma colon_free_append [simp]: "colon_free (xs @ ys) \<longleftrightarrow> colon_free xs \<and> colon_free ys"
  by (simp add: colon_free_def)

lemma targetUID_inj:
  assumes "targetUID s = targetUID t"
    and "CHR '':'' \<notin> set (t_SubnetId s)" and "CHR '':'' \<notin> set (t_SubnetId t)"
  shows "s = t"
proof -
  from assms(1) have "t_SubnetId s @ CHR '':'' # t_Address s = t_SubnetId t @ CHR '':'' # t_Address t"
    by (simp add: targetUID_def)
  from split_at_first [OF this assms(2,3)] show ?thesis by (simp add: target.equality)
qed

lemma targetUID_inj_on: "colon_free ts \<Longrightarrow> inj_on targetUID (set ts)"
  by (auto simp: colon_free_def list_all_iff intro!: inj_onI targetUID_inj)

lemma by_uid_image:
  assumes "colon_free es" and "colon_free as"
  shows "(\<lambda>uid. the (map_by targetUID es uid)) ` (targetUID ` set es - targetUID ` set as)
           = set es - set as"
proof -
  have "targetUID ` set es - targetUID ` set as = targetUID ` (set es - set as)"
    using assms inj_on_image_set_diff [OF targetUID_inj_on [of "es @ as"], of "set es" "set as"]
    by auto
  moreover have "the (map_by targetUID es (targetUID t)) = t" if "t \<in> set es" for t
    using map_by_inj [OF that targetUID_inj_on [OF assms(1)]] by simp
  ultimately show ?thesis by (simp add: image_image cong: image_cong_simp)
qed

definition targets_wf :: "(string set \<Rightarrow> string list) \<Rightarrow> target list \<Rightarrow> target list \<Rightarrow> bool" where
  "targets_wf set_List es as \<longleftrightarrow> lists_sets set_List \<and> colon_free es \<and> colon_free as"

lemma diffTargets_sets:
  assumes "targets_wf set_List es as"
  shows "set (fst (diffTargetGroupTargets set_List es as)) = set es - set as"
    and "set (snd (diffTargetGroupTargets set_List es as)) = set as - set es"
  using assms
  by (simp_all add: targets_wf_def diffTargetGroupTargets_def Let_def lists_sets_set by_uid_image)

interpretation targets_diff: differ "diffTargetGroupTargets set_List" "(=)" "targets_wf set_List"
  for set_List
  by unfold_locales (auto simp: diffTargets_sets)

section \<open>Listeners: diffListeners\<close>

definition ls_key :: "listener_spec \<Rightarrow> listener_protocol \<times> int64 \<times> int64" where
  "ls_key s = (ls_Protocol s, ls_Port s, ls_TargetPort s)"

definition l_key :: "listener \<Rightarrow> listener_protocol \<times> int64 \<times> int64" where
  "l_key l = (l_Protocol l, l_Port l, l_TargetPort l)"

lemma listeners_equal_iff: "nlbListenersAreEqual a e \<longleftrightarrow> l_key a = ls_key e"
  by (auto simp: nlbListenersAreEqual_def l_key_def ls_key_def)

lemma first_equal_listener_None:
  "first_equal_listener a es = None \<longleftrightarrow> (\<forall>e\<in>set es. \<not> nlbListenersAreEqual a e)"
  by (induction es) auto

lemma first_equal_listener_Some:
  "first_equal_listener a es = Some e \<Longrightarrow> e \<in> set es \<and> nlbListenersAreEqual a e"
  by (induction es) (auto split: if_splits)

lemma scanListeners_eq:
  "scanListeners es as found rem =
     (found \<union> {ls_Name e | a e. a \<in> set as \<and> first_equal_listener a es = Some e},
      rem @ filter (\<lambda>a. first_equal_listener a es = None) as)"
  by (induction as arbitrary: found rem) (auto split: option.split)

lemma diffListeners_eq:
  "diffListeners es as =
     (filter (\<lambda>e. ls_Name e \<notin> {ls_Name e' | a e'. a \<in> set as \<and> first_equal_listener a es = Some e'}) es,
      filter (\<lambda>a. \<forall>e\<in>set es. \<not> nlbListenersAreEqual a e) as)"
  by (simp add: diffListeners_def scanListeners_eq first_equal_listener_None)

text \<open>
  Well-formed: the wanted listeners have distinct names and no two of them have the
  same protocol, port and target port, which Kubernetes demands of the ports of a
  Service.
\<close>

definition specs_wf :: "listener_spec list \<Rightarrow> bool" where
  "specs_wf es \<longleftrightarrow> distinct (map ls_Name es) \<and> distinct (map ls_key es)"

lemma found_name_iff:
  assumes "specs_wf es" and "e \<in> set es"
  shows "ls_Name e \<in> {ls_Name e' | a e'. a \<in> set as \<and> first_equal_listener a es = Some e'}
    \<longleftrightarrow> (\<exists>a\<in>set as. nlbListenersAreEqual a e)"
proof
  assume "ls_Name e \<in> {ls_Name e' | a e'. a \<in> set as \<and> first_equal_listener a es = Some e'}"
  then obtain a e' where a: "a \<in> set as" "first_equal_listener a es = Some e'" "ls_Name e' = ls_Name e"
    by auto
  then have "e' \<in> set es" "nlbListenersAreEqual a e'" by (auto dest: first_equal_listener_Some)
  moreover from this a assms have "e' = e"
    by (auto simp: specs_wf_def intro: distinct_map_eq)
  ultimately show "\<exists>a\<in>set as. nlbListenersAreEqual a e" using a by blast
next
  assume "\<exists>a\<in>set as. nlbListenersAreEqual a e"
  then obtain a where a: "a \<in> set as" "nlbListenersAreEqual a e" by blast
  with assms obtain e' where e': "first_equal_listener a es = Some e'"
    using first_equal_listener_None [of a es] by (cases "first_equal_listener a es") auto
  then have "e' \<in> set es" "ls_key e' = ls_key e"
    using a by (auto simp: listeners_equal_iff dest: first_equal_listener_Some)
  with assms have "e' = e" by (auto simp: specs_wf_def intro: distinct_map_eq)
  with a e' show "ls_Name e \<in> {ls_Name e' | a e'. a \<in> set as \<and> first_equal_listener a es = Some e'}"
    by auto
qed

lemma diffListeners_wf:
  assumes "specs_wf es"
  shows "diffListeners es as =
     (filter (\<lambda>e. \<forall>a\<in>set as. \<not> nlbListenersAreEqual a e) es,
      filter (\<lambda>a. \<forall>e\<in>set es. \<not> nlbListenersAreEqual a e) as)"
proof -
  let ?found = "{ls_Name e' | a e'. a \<in> set as \<and> first_equal_listener a es = Some e'}"
  have "filter (\<lambda>e. ls_Name e \<notin> ?found) es = filter (\<lambda>e. \<forall>a\<in>set as. \<not> nlbListenersAreEqual a e) es"
    using found_name_iff [OF assms, of _ as] by (intro filter_cong) auto
  then show ?thesis by (simp only: diffListeners_eq)
qed

interpretation listeners_diff: differ diffListeners nlbListenersAreEqual "\<lambda>es as. specs_wf es"
  by unfold_locales (simp_all add: diffListeners_wf)

section \<open>Attached target groups: diffAttachedTargetGroups\<close>

text \<open>
  What the comparison reads of a wanted target group without a check: a first health
  check, and its HTTP options.
\<close>

definition checkable :: "attached_target_group \<Rightarrow> bool" where
  "checkable e = (case at_HealthChecks e of [] \<Rightarrow> False | h # _ \<Rightarrow> hc_HttpOptions h \<noteq> None)"

text \<open>
  When an attached target group is the wanted one, field by field and without reference to
  the code: the same group, and a first health check of the same name, thresholds, HTTP port
  and path, interval and timeout (in seconds, a missing one counting as 0).
\<close>

definition health_check_same :: "health_check \<Rightarrow> health_check \<Rightarrow> bool" where
  "health_check_same h k \<longleftrightarrow>
     hc_Name h = hc_Name k \<and>
     hc_UnhealthyThreshold h = hc_UnhealthyThreshold k \<and> hc_HealthyThreshold h = hc_HealthyThreshold k \<and>
     (\<exists>opts. hc_HttpOptions h = Some opts \<and> hc_HttpOptions k = Some opts) \<and>
     GetSeconds (hc_Interval h) = GetSeconds (hc_Interval k) \<and> GetSeconds (hc_Timeout h) = GetSeconds (hc_Timeout k)"

definition attached_same :: "attached_target_group \<Rightarrow> attached_target_group \<Rightarrow> bool" where
  "attached_same a e \<longleftrightarrow> at_TargetGroupId a = at_TargetGroupId e \<and>
     (\<exists>h hs k ks. at_HealthChecks a = h # hs \<and> at_HealthChecks e = k # ks \<and> health_check_same h k)"

lemma http_options_eq: "ho_Port x = ho_Port z \<Longrightarrow> ho_Path x = ho_Path z \<Longrightarrow> x = (z :: http_options)"
  by (cases x, cases z) simp

lemma attached_equal_returns:
  "checkable e \<Longrightarrow> nlbAttachedTargetGroupsAreEqual a e = Ok (attached_same a e)"
  unfolding attached_same_def health_check_same_def nlbAttachedTargetGroupsAreEqual_def checkable_def
  by (cases "at_HealthChecks a"; cases "at_HealthChecks e"; cases "hc_HttpOptions (hd (at_HealthChecks a))";
      cases "hc_HttpOptions (hd (at_HealthChecks e))") (auto intro: http_options_eq)

lemma attached_same_id: "attached_same a e \<Longrightarrow> at_TargetGroupId a = at_TargetGroupId e"
  by (simp add: attached_same_def)

lemma attached_same_refl: "checkable e \<Longrightarrow> attached_same e e"
  by (cases "at_HealthChecks e") (auto simp: attached_same_def health_check_same_def checkable_def)

definition attached_wf :: "attached_target_group list \<Rightarrow> bool" where
  "attached_wf es \<longleftrightarrow> distinct (map at_TargetGroupId es) \<and> list_all checkable es"

definition first_same :: "attached_target_group \<Rightarrow> attached_target_group list \<Rightarrow>
    attached_target_group option" where
  "first_same a es = find (attached_same a) es"

lemma first_equal_tg_eq: "list_all checkable es \<Longrightarrow> first_equal_tg a es = Ok (first_same a es)"
  by (induction es) (auto simp: first_same_def attached_equal_returns)

lemma scanAttached_eq:
  assumes "list_all checkable es"
  shows "scanAttached es as found rem =
     Ok (found \<union> {at_TargetGroupId e | a e. a \<in> set as \<and> first_same a es = Some e},
         rem @ filter (\<lambda>a. first_same a es = None) as)"
  by (induction as arbitrary: found rem) (auto simp: first_equal_tg_eq [OF assms] split: option.split)

lemma first_same_Some: "first_same a es = Some e \<Longrightarrow> e \<in> set es \<and> attached_same a e"
  by (auto simp: first_same_def find_Some_iff)

lemma first_same_None: "first_same a es = None \<longleftrightarrow> (\<forall>e\<in>set es. \<not> attached_same a e)"
  by (auto simp: first_same_def find_None_iff)

lemma found_id_iff:
  assumes "attached_wf es" and "e \<in> set es"
  shows "at_TargetGroupId e \<in> {at_TargetGroupId e' | a e'. a \<in> set as \<and> first_same a es = Some e'}
    \<longleftrightarrow> (\<exists>a\<in>set as. attached_same a e)"
proof
  assume "at_TargetGroupId e \<in> {at_TargetGroupId e' | a e'. a \<in> set as \<and> first_same a es = Some e'}"
  then obtain a e' where a: "a \<in> set as" "e' \<in> set es" "attached_same a e'"
      "at_TargetGroupId e' = at_TargetGroupId e"
    by (auto dest: first_same_Some)
  with assms have "e' = e" by (auto simp: attached_wf_def intro: distinct_map_eq)
  with a show "\<exists>a\<in>set as. attached_same a e" by blast
next
  assume "\<exists>a\<in>set as. attached_same a e"
  then obtain a where a: "a \<in> set as" "attached_same a e" by blast
  with assms obtain e' where e': "first_same a es = Some e'"
    using first_same_None [of a es] by (cases "first_same a es") auto
  then have "attached_same a e'" by (auto dest: first_same_Some)
  with a(2) have "at_TargetGroupId e = at_TargetGroupId e'"
    by (auto dest!: attached_same_id)
  with a e' show "at_TargetGroupId e \<in> {at_TargetGroupId e' | a e'. a \<in> set as \<and> first_same a es = Some e'}"
    by auto
qed

lemma diffAttached_eq:
  assumes "attached_wf es"
  shows "diffAttachedTargetGroups es as =
     Ok (filter (\<lambda>e. \<forall>a\<in>set as. \<not> attached_same a e) es,
         filter (\<lambda>a. \<forall>e\<in>set es. \<not> attached_same a e) as)"
proof -
  let ?found = "{at_TargetGroupId e' | a e'. a \<in> set as \<and> first_same a es = Some e'}"
  have "filter (\<lambda>e. at_TargetGroupId e \<notin> ?found) es = filter (\<lambda>e. \<forall>a\<in>set as. \<not> attached_same a e) es"
    using found_id_iff [OF assms, of _ as] by (intro filter_cong) auto
  moreover from assms have "list_all checkable es" by (simp add: attached_wf_def)
  ultimately show ?thesis
    by (simp add: diffAttachedTargetGroups_def scanAttached_eq first_same_None)
qed

definition diffAttached_value :: "attached_target_group list \<Rightarrow> attached_target_group list \<Rightarrow>
    attached_target_group list \<times> attached_target_group list" where
  "diffAttached_value es as =
     (case diffAttachedTargetGroups es as of Ok r \<Rightarrow> r | _ \<Rightarrow> ([], []))"

lemma diffAttached_returns:
  "attached_wf es \<Longrightarrow> diffAttachedTargetGroups es as = Ok (diffAttached_value es as)"
  by (simp add: diffAttached_value_def diffAttached_eq)

interpretation attached_diff: differ diffAttached_value attached_same "\<lambda>es as. attached_wf es"
  by unfold_locales (simp_all add: diffAttached_value_def diffAttached_eq)

section \<open>Properties\<close>

text \<open>C34: 
  Two listeners are the same when protocol, port and target port agree; names and
  addresses are not compared. For wanted listeners with distinct names and distinct keys
  the comparison asks to add exactly those whose key no present listener has and to remove
  exactly those whose key is not wanted.
\<close>

theorem diffListeners_spec:
  assumes "distinct (map ls_Name es)" and "distinct (map ls_key es)"
  shows "set (fst (diffListeners es as)) = {e \<in> set es. ls_key e \<notin> l_key ` set as} \<and>
    set (snd (diffListeners es as)) = {a \<in> set as. l_key a \<notin> ls_key ` set es} \<and>
    (diffListeners es as = ([], []) \<longleftrightarrow> ls_key ` set es = l_key ` set as)"
proof -
  from assms have "diffListeners es as =
     (filter (\<lambda>e. ls_key e \<notin> l_key ` set as) es, filter (\<lambda>a. l_key a \<notin> ls_key ` set es) as)"
    by (auto simp: diffListeners_wf specs_wf_def listeners_equal_iff image_iff intro!: filter_cong)
  then show ?thesis by (auto simp: filter_empty_conv image_iff)
qed

definition ex_listener :: "string \<Rightarrow> string \<Rightarrow> listener" where
  "ex_listener n addr = \<lparr>l_Name = n, l_Address = addr, l_Port = 80, l_Protocol = Listener_TCP, l_TargetPort = 30080\<rparr>"

definition ex_wanted :: "string \<Rightarrow> string \<Rightarrow> listener_spec" where
  "ex_wanted n addr = \<lparr>ls_Name = n, ls_Port = 80, ls_Protocol = Listener_TCP, ls_TargetPort = 30080,
     ls_Address = ListenerSpec_ExternalAddressSpec \<lparr>ea_Address = addr, ea_IpVersion = IPV4\<rparr>\<rparr>"

text \<open>Another name and another address are wanted, and there is nothing to do.\<close>

theorem diffListeners_spec_witness:
  "diffListeners [ex_wanted ''new'' ''198.51.100.9''] [ex_listener ''old'' ''203.0.113.7''] = ([], [])"
  using diffListeners_spec [of "[ex_wanted ''new'' ''198.51.100.9'']" "[ex_listener ''old'' ''203.0.113.7'']"]
  by (simp add: ex_wanted_def ex_listener_def ls_key_def l_key_def)

text \<open>
  For wanted target groups with distinct identifiers, each with an HTTP health check, the
  comparison of the attached target groups never aborts, whatever the cloud answered
  (its index and its nil dereference are safe); it asks to attach exactly those that no
  attached group equals with its health check, and to detach exactly those that are not
  wanted so.
\<close>

theorem diffAttachedTargetGroups_safe:
  assumes "distinct (map at_TargetGroupId es)"
    and "\<forall>e\<in>set es. \<exists>h hs. at_HealthChecks e = h # hs \<and> hc_HttpOptions h \<noteq> None"
  shows "\<exists>add rem. diffAttachedTargetGroups es as = Ok (add, rem) \<and>
    set add = {e \<in> set es. \<forall>a\<in>set as. nlbAttachedTargetGroupsAreEqual a e \<noteq> Ok True} \<and>
    set rem = {a \<in> set as. \<forall>e\<in>set es. nlbAttachedTargetGroupsAreEqual a e \<noteq> Ok True}"
proof -
  have "list_all checkable es"
    using assms(2) by (fastforce simp: list_all_iff checkable_def split: list.split)
  with assms(1) have "attached_wf es" by (simp add: attached_wf_def)
  then have chk: "checkable e" if "e \<in> set es" for e using that by (simp add: attached_wf_def list_all_iff)
  from \<open>attached_wf es\<close> show ?thesis
    by (auto simp: diffAttached_eq attached_equal_returns chk)
qed

definition ex_check :: "string \<Rightarrow> int64 \<Rightarrow> attached_target_group" where
  "ex_check i seconds = \<lparr>at_TargetGroupId = i, at_HealthChecks =
     [\<lparr>hc_Name = ''check'', hc_Interval = Some seconds, hc_Timeout = Some 1, hc_UnhealthyThreshold = 2,
       hc_HealthyThreshold = 2, hc_HttpOptions = Some \<lparr>ho_Port = 10256, ho_Path = ''/healthz''\<rparr>\<rparr>]\<rparr>"

text \<open>Another interval is wanted: the group is attached anew.\<close>

theorem diffAttachedTargetGroups_safe_witness:
  "\<exists>add rem. diffAttachedTargetGroups [ex_check ''tg'' 5] [ex_check ''tg'' 2] = Ok (add, rem) \<and>
     set add = {ex_check ''tg'' 5} \<and> set rem = {ex_check ''tg'' 2}"
proof -
  have "nlbAttachedTargetGroupsAreEqual (ex_check ''tg'' 2) (ex_check ''tg'' 5) = Ok False"
    by (simp add: nlbAttachedTargetGroupsAreEqual_def ex_check_def GetSeconds_def)
  then show ?thesis
    using diffAttachedTargetGroups_safe [of "[ex_check ''tg'' 5]" "[ex_check ''tg'' 2]"]
    by (simp add: ex_check_def) (auto simp: conj_commute)
qed

end
