(* ===== verification/YandexApi.thy ===== *)
theory YandexApi
  imports CloudTypes
begin

text \<open>
  \<open>pkg/yapi/api.go\<close>, \<open>compute.go\<close>, \<open>vpc.go\<close> and the structs and lookups by name of
  \<open>loadbalancer.go\<close>: the wrapper that runs a long operation to its end, the construction of the API object, and
  \<open>FindInstanceByName\<close>, \<open>GetLbByName\<close> and \<open>GetTgByName\<close>, which share the contract of the
  locale \<open>name_lookup\<close>.
\<close>

section \<open>The API object\<close>

text \<open>
  \<open>CloudContext\<close> is what the services share. Its field \<open>packages\<close> is not in the source: HOL
  has no packages, so the functions that the code imports go with the context that every
  service has.
\<close>

record 'w CloudContext =
  RegionID :: string
  FolderID :: string
  OperationWaiter :: "ctx \<Rightarrow> ('w, operation) io \<Rightarrow> ('w, proto_message) io"
  packages :: "'w packages"

text \<open>Every service, and the API object itself, starts with the pointer to the context.\<close>

record 'w yapi_object =
  cloudCtx :: "'w CloudContext"

abbreviation libs :: "('w, 'b) yapi_object_scheme \<Rightarrow> 'w packages" where
  "libs y \<equiv> packages (cloudCtx y)"

record 'w LoadBalancerService = "'w yapi_object" +
  lbs_LbSvc :: "'w nlb_client"
  lbs_TgSvc :: "'w tg_client"

record 'w ComputeService = "'w yapi_object" +
  InstanceSvc :: "'w instance_client"
  ZoneSvc :: zone_client

record 'w VPCService = "'w yapi_object" +
  NetworkSvc :: network_client
  SubnetSvc :: "'w subnet_client"
  RouteTableSvc :: "'w route_table_client"

record 'w YandexCloudAPI = "'w yapi_object" +
  VPCSvc :: "'w VPCService"
  ComputeSvc :: "'w ComputeService"
  LbSvc :: "'w LoadBalancerService"
  api_OperationWaiter :: "ctx \<Rightarrow> ('w, operation) io \<Rightarrow> ('w, proto_message) io"

definition NewLoadBalancerService ::
  "'w nlb_client \<Rightarrow> 'w tg_client \<Rightarrow> 'w CloudContext \<Rightarrow> 'w LoadBalancerService" where
  "NewLoadBalancerService lbSvc tgSvc cc = \<lparr>cloudCtx = cc, lbs_LbSvc = lbSvc, lbs_TgSvc = tgSvc\<rparr>"

definition NewComputeService ::
  "'w instance_client \<Rightarrow> zone_client \<Rightarrow> 'w CloudContext \<Rightarrow> 'w ComputeService" where
  "NewComputeService iSvc zSvc cc = \<lparr>cloudCtx = cc, InstanceSvc = iSvc, ZoneSvc = zSvc\<rparr>"

definition NewVPCService ::
  "network_client \<Rightarrow> 'w subnet_client \<Rightarrow> 'w route_table_client \<Rightarrow> 'w CloudContext \<Rightarrow> 'w VPCService" where
  "NewVPCService nSvc sSvc rtSvc cc =
     \<lparr>cloudCtx = cc, NetworkSvc = nSvc, SubnetSvc = sSvc, RouteTableSvc = rtSvc\<rparr>"

text \<open>
  The closure \<open>opWaiter\<close>: the call's operation and error go through \<open>WrapOperation\<close>, then
  the code waits and reads the response.
\<close>

definition opWaiter ::
  "'w ycsdk \<Rightarrow> ctx \<Rightarrow> ('w, operation) io \<Rightarrow> ('w, proto_message) io" where
  "opWaiter sdk ctx origFunc =
     bind_io (attempt_io origFunc) (\<lambda>r.
     case WrapOperation sdk r of
       Inl err \<Rightarrow> fail_io err
     | Inr op \<Rightarrow>
         bind_io (OpWait sdk ctx op) (\<lambda>_.
         OpResponse sdk op))"

definition NewYandexCloudAPI ::
  "'w packages \<Rightarrow> ('c \<Rightarrow> ('w ycsdk) outcome) \<Rightarrow> 'c \<Rightarrow> string \<Rightarrow> string \<Rightarrow> ('w YandexCloudAPI) outcome" where
  "NewYandexCloudAPI lib ycsdk_Build creds regionID folderID =
     (case ycsdk_Build creds of
        Err err \<Rightarrow> Err (ErrBuildSDK err)
      | Abort p \<Rightarrow> Abort p
      | Ok sdk \<Rightarrow>
          let cc = \<lparr>RegionID = regionID, FolderID = folderID, OperationWaiter = opWaiter sdk,
                packages = lib\<rparr> in
          Ok \<lparr>cloudCtx = cc,
              VPCSvc = NewVPCService (sdk_Network sdk) (sdk_Subnet sdk) (sdk_RouteTable sdk) cc,
              ComputeSvc = NewComputeService (sdk_Instance sdk) (sdk_Zone sdk) cc,
              LbSvc = NewLoadBalancerService (sdk_NetworkLoadBalancer sdk) (sdk_TargetGroup sdk) cc,
              api_OperationWaiter = opWaiter sdk\<rparr>)"

text \<open>The construction wires one context, with one waiter, into all services.\<close>

lemma NewYandexCloudAPI_wired:
  assumes "NewYandexCloudAPI lib build creds regionID folderID = Ok y" and "build creds = Ok sdk"
  shows "cloudCtx (LbSvc y) = cloudCtx y" "cloudCtx (ComputeSvc y) = cloudCtx y" "cloudCtx (VPCSvc y) = cloudCtx y"
    and "OperationWaiter (cloudCtx y) = opWaiter sdk" "api_OperationWaiter y = opWaiter sdk"
    and "FolderID (cloudCtx y) = folderID" "RegionID (cloudCtx y) = regionID" "libs y = lib"
    and "lbs_LbSvc (LbSvc y) = sdk_NetworkLoadBalancer sdk" "lbs_TgSvc (LbSvc y) = sdk_TargetGroup sdk"
    and "InstanceSvc (ComputeSvc y) = sdk_Instance sdk"
    and "SubnetSvc (VPCSvc y) = sdk_Subnet sdk" "RouteTableSvc (VPCSvc y) = sdk_RouteTable sdk"
  using assms
  by (auto simp: NewYandexCloudAPI_def NewLoadBalancerService_def NewComputeService_def NewVPCService_def Let_def)

section \<open>Lookups by name\<close>

text \<open>\<open>fmt.Sprintf("name = \"%s\"", name)\<close>\<close>

definition name_filter :: "string \<Rightarrow> string" where
  "name_filter name = ''name = '' @ CHR 0x22 # name @ [CHR 0x22]"

definition name_query :: "('w, 'b) yapi_object_scheme \<Rightarrow> string \<Rightarrow> list_request" where
  "name_query y name =
     \<lparr>lr_FolderId = FolderID (cloudCtx y), lr_PageSize = 2, lr_Filter = name_filter name\<rparr>"

definition FindInstanceByName ::
  "'w ComputeService \<Rightarrow> ctx \<Rightarrow> string \<Rightarrow> ('w, cloud_instance option) io" where
  "FindInstanceByName cs ctx instanceName =
     bind_io (InstanceList (InstanceSvc cs) ctx (name_query cs instanceName)) (\<lambda>result.
     if length result > 1 then fail_io (ErrManyInstances instanceName)
     else if length result = 0 then fail_io (ErrNoInstances instanceName)
     else return_io (Some (result ! 0)))"

definition GetLbByName :: "'w LoadBalancerService \<Rightarrow> ctx \<Rightarrow> string \<Rightarrow> ('w, nlb option) io" where
  "GetLbByName ySvc ctx name =
     bind_io (LbList (lbs_LbSvc ySvc) ctx (name_query ySvc name)) (\<lambda>result.
     if length result > 1 then fail_io (ErrManyLoadBalancers name)
     else if length result = 0 then return_io None
     else return_io (Some (result ! 0)))"

definition GetTgByName :: "'w LoadBalancerService \<Rightarrow> ctx \<Rightarrow> string \<Rightarrow> ('w, target_group option) io" where
  "GetTgByName ySvc ctx name =
     bind_io (TgList (lbs_TgSvc ySvc) ctx (name_query ySvc name)) (\<lambda>result.
     if length result > 1 then fail_io (ErrManyTargetGroups name)
     else if length result = 0 then return_io None
     else return_io (Some (result ! 0)))"

lemma name_filter_inj: "name_filter m = name_filter n \<longleftrightarrow> m = n"
  by (simp add: name_filter_def)

lemma name_query_inj: "name_query y m = name_query y n \<longleftrightarrow> m = n"
  by (simp add: name_query_def name_filter_inj)

text \<open>
  The contract: a lookup lists at most two objects of that name and answers by how many
  there are. \<open>absent\<close> is its answer when there is none.
\<close>

locale name_lookup =
  fixes find :: "ctx \<Rightarrow> string \<Rightarrow> ('w, 'r) io"
    and list :: "ctx \<Rightarrow> string \<Rightarrow> ('w, 'a list) io"
    and many :: "string \<Rightarrow> error"
    and absent :: "string \<Rightarrow> 'r outcome"
    and present :: "'a \<Rightarrow> 'r"
  assumes find_none: "list ctx n w = (Ok [], w') \<Longrightarrow> find ctx n w = (absent n, w')"
    and find_one: "list ctx n w = (Ok [x], w') \<Longrightarrow> find ctx n w = (Ok (present x), w')"
    and find_many: "list ctx n w = (Ok (x # y # zs), w') \<Longrightarrow> find ctx n w = (Err (many n), w')"
    and find_err: "list ctx n w = (Err e, w') \<Longrightarrow> find ctx n w = (Err e, w')"
    and find_abort: "list ctx n w = (Abort p, w') \<Longrightarrow> find ctx n w = (Abort p, w')"
begin

lemma find_cases:
  obtains (none) w' where "list ctx n w = (Ok [], w')" "find ctx n w = (absent n, w')"
  | (one) x w' where "list ctx n w = (Ok [x], w')" "find ctx n w = (Ok (present x), w')"
  | (many) x y zs w' where "list ctx n w = (Ok (x # y # zs), w')" "find ctx n w = (Err (many n), w')"
  | (err) e w' where "list ctx n w = (Err e, w')" "find ctx n w = (Err e, w')"
  | (abort) p w' where "list ctx n w = (Abort p, w')" "find ctx n w = (Abort p, w')"
proof -
  obtain r v where r: "list ctx n w = (r, v)" by (cases "list ctx n w")
  show thesis
  proof (cases r)
    case (Ok xs)
    show thesis
    proof (cases xs)
      case Nil
      with r Ok show thesis by (intro none) (auto intro: find_none)
    next
      case (Cons x ys)
      with r Ok show thesis
        by (cases ys) (auto intro: one many find_one find_many)
    qed
  qed (use r in \<open>auto intro: err abort find_err find_abort\<close>)
qed

text \<open>A lookup changes of the state only what the listing changes.\<close>

lemma keeps_find: "keeps I (list ctx n) \<Longrightarrow> keeps I (find ctx n)"
proof (rule keepsI)
  fix w r w' assume I: "keeps I (list ctx n)" "I w" and run: "find ctx n w = (r, w')"
  then show "I w'"
    by (cases rule: find_cases [where ctx = ctx and n = n and w = w]) (auto dest: keepsD)
qed

lemma find_aborts: 
  "absent n \<noteq> Abort p \<Longrightarrow> find ctx n w = (Abort p, w') \<Longrightarrow> list ctx n w = (Abort p, w')"
  by (cases rule: find_cases [where ctx = ctx and n = n and w = w]) auto

end

text \<open>The lookups that answer nil when nothing has the name.\<close>

locale optional_lookup =
  name_lookup find list many "\<lambda>_. Ok None" Some
  for find :: "ctx \<Rightarrow> string \<Rightarrow> ('w, 'a option) io"
    and list :: "ctx \<Rightarrow> string \<Rightarrow> ('w, 'a list) io"
    and many :: "string \<Rightarrow> error"
begin

lemma find_Some_iff: "find ctx n w = (Ok (Some x), w') \<longleftrightarrow> list ctx n w = (Ok [x], w')"
  by (cases rule: find_cases [where ctx = ctx and n = n and w = w]) auto

lemma find_None_iff: "find ctx n w = (Ok None, w') \<longleftrightarrow> list ctx n w = (Ok [], w')"
  by (cases rule: find_cases [where ctx = ctx and n = n and w = w]) auto

lemma find_Err_iff: "find ctx n w = (Err e, w') \<longleftrightarrow>
    list ctx n w = (Err e, w') \<or>
    (e = many n \<and> (\<exists>x y zs. list ctx n w = (Ok (x # y # zs), w')))"
  by (cases rule: find_cases [where ctx = ctx and n = n and w = w]) auto

text \<open>
  Where a listing that is shorter than a page is complete, the lookup answers the only
  object with the name, or nil when there is none.
\<close>

lemma find_complete:
  assumes "\<And>xs v. list ctx n w = (Ok xs, v) \<Longrightarrow> length xs < 2 \<Longrightarrow> set xs = S"
    and "find ctx n w = (Ok r, w')"
  shows "S = (case r of None \<Rightarrow> {} | Some x \<Rightarrow> {x})"
  using assms by (cases rule: find_cases [where ctx = ctx and n = n and w = w]) force+

end

interpretation lb_lookup: optional_lookup "GetLbByName y"
    "\<lambda>ctx n. LbList (lbs_LbSvc y) ctx (name_query y n)" ErrManyLoadBalancers
  for y
  by unfold_locales (simp_all add: GetLbByName_def bind_io_def)

interpretation tg_lookup: optional_lookup "GetTgByName y"
    "\<lambda>ctx n. TgList (lbs_TgSvc y) ctx (name_query y n)" ErrManyTargetGroups
  for y
  by unfold_locales (simp_all add: GetTgByName_def bind_io_def)

interpretation instance_lookup: name_lookup "FindInstanceByName y"
    "\<lambda>ctx n. InstanceList (InstanceSvc y) ctx (name_query y n)" ErrManyInstances
    "\<lambda>n. Err (ErrNoInstances n)" Some
  for y
  by unfold_locales (simp_all add: FindInstanceByName_def bind_io_def)

lemma FindInstanceByName_never_nil: "FindInstanceByName y ctx n w \<noteq> (Ok None, w')"
  by (cases rule: instance_lookup.find_cases [where y = y and ctx = ctx and n = n and w = w]) auto

section \<open>Running an operation\<close>

lemma keeps_opWaiter:
  assumes "keeps I f" and "\<And>op. keeps I (OpWait sdk ctx op)"
    and "\<And>op. keeps I (OpResponse sdk op)"
  shows "keeps I (opWaiter sdk ctx f)"
  unfolding opWaiter_def
  by (intro keeps_bind keeps_attempt assms) (auto split: sum.split intro: keeps_bind assms)

text \<open>
  The waiter returns a message only if the call returned an operation that the SDK
  accepted, the wait succeeded and the response was read.
\<close>

lemma opWaiter_Ok_iff:
  "opWaiter sdk ctx f w = (Ok m, w') \<longleftrightarrow>
     (\<exists>r w1 op w2. attempt_io f w = (Ok r, w1) \<and> WrapOperation sdk r = Inr op \<and>
        OpWait sdk ctx op w1 = (Ok (), w2) \<and> OpResponse sdk op w2 = (Ok m, w'))"
proof (cases "attempt_io f w")
  case (Pair q w1)
  show ?thesis
  proof (cases q)
    case (Ok r)
    with Pair show ?thesis
      by (cases "WrapOperation sdk r")
        (auto simp: opWaiter_def bind_io_def split: prod.splits outcome.splits)
  qed (use Pair in \<open>simp_all add: opWaiter_def bind_io_def\<close>)
qed

end
