(* ===== verification/LbService.thy ===== *)
theory LbService
  imports LbDiff YandexApi
begin

text \<open>
  The operations of \<open>LoadBalancerService\<close> in \<open>pkg/yapi/loadbalancer.go\<close>: creating,
  updating and removing a network load balancer and a target group, call by call.
\<close>

section \<open>Load balancers\<close>

text \<open>The loop that decides the type: internal as soon as one listener is.\<close>

fun nlbTypeOf :: "listener_spec list \<Rightarrow> nlb_type" where
  "nlbTypeOf [] = NLB_EXTERNAL"
| "nlbTypeOf (listener # ls) =
     (case ls_Address listener of
        ListenerSpec_InternalAddressSpec _ \<Rightarrow> NLB_INTERNAL
      | ListenerSpec_ExternalAddressSpec _ \<Rightarrow> nlbTypeOf ls)"

definition shouldRecreate :: "nlb \<Rightarrow> create_lb_request \<Rightarrow> bool" where
  "shouldRecreate oldBalancer newBalancerSpec =
     (if cl_Type newBalancerSpec \<noteq> lb_Type oldBalancer then True else False)"

text \<open>The type assertions on an operation's response.\<close>

fun as_NetworkLoadBalancer :: "proto_message \<Rightarrow> nlb outcome" where
  "as_NetworkLoadBalancer (MsgNetworkLoadBalancer lb) = Ok lb"
| "as_NetworkLoadBalancer _ = Abort TypeAssertion"

fun as_TargetGroup :: "proto_message \<Rightarrow> target_group outcome" where
  "as_TargetGroup (MsgTargetGroup tg) = Ok tg"
| "as_TargetGroup _ = Abort TypeAssertion"

text \<open>\<open>lb.Listeners[0].Address\<close>\<close>

definition firstAddress :: "nlb \<Rightarrow> string outcome" where
  "firstAddress lb = bind_outcome (index0 (lb_Listeners lb)) (\<lambda>l. Ok (l_Address l))"

text \<open>A loop of requests that sets \<open>dirty\<close> after each one.\<close>

fun for_each_dirty :: "('a \<Rightarrow> ('w, 'b) io) \<Rightarrow> 'a list \<Rightarrow> bool \<Rightarrow> ('w, bool) io" where
  "for_each_dirty f [] dirty = return_io dirty"
| "for_each_dirty f (x # xs) dirty = bind_io (f x) (\<lambda>_. for_each_dirty f xs True)"

definition createLB :: "'w LoadBalancerService \<Rightarrow> ctx \<Rightarrow> create_lb_request \<Rightarrow> ('w, string) io" where
  "createLB ySvc ctx req =
     bind_io (OperationWaiter (cloudCtx ySvc) ctx (LbCreate (lbs_LbSvc ySvc) ctx req)) (\<lambda>result.
     lift_outcome (bind_outcome (as_NetworkLoadBalancer result) firstAddress))"

definition updateLB :: "'w LoadBalancerService \<Rightarrow> ctx \<Rightarrow> string \<Rightarrow> listener_spec list \<Rightarrow>
    attached_target_group list \<Rightarrow> nlb \<Rightarrow> ('w, string) io" where
  "updateLB ySvc ctx name listenerSpec attachedTGs lb =
     (let (listenersToAdd, listenersToRemove) = diffListeners listenerSpec (lb_Listeners lb) in
      bind_io (for_each_dirty (\<lambda>listener. OperationWaiter (cloudCtx ySvc) ctx
        (LbRemoveListener (lbs_LbSvc ySvc) ctx (lb_Id lb) (l_Name listener))) listenersToRemove False) (\<lambda>dirty.
      bind_io (for_each_dirty (\<lambda>listener. OperationWaiter (cloudCtx ySvc) ctx
        (LbAddListener (lbs_LbSvc ySvc) ctx (lb_Id lb) listener)) listenersToAdd dirty) (\<lambda>dirty.
      bind_io (lift_outcome (diffAttachedTargetGroups attachedTGs (lb_AttachedTargetGroups lb)))
        (\<lambda>(tgsToAttach, tgsToDetach).
      bind_io (for_each_dirty (\<lambda>tg. OperationWaiter (cloudCtx ySvc) ctx
        (LbDetachTargetGroup (lbs_LbSvc ySvc) ctx (lb_Id lb) (at_TargetGroupId tg))) tgsToDetach dirty) (\<lambda>dirty.
      bind_io (for_each_dirty (\<lambda>tg. OperationWaiter (cloudCtx ySvc) ctx
        (LbAttachTargetGroup (lbs_LbSvc ySvc) ctx (lb_Id lb) tg)) tgsToAttach dirty) (\<lambda>dirty.
      bind_io (if dirty then GetLbByName ySvc ctx name else return_io (Some lb)) (\<lambda>lb'.
      lift_outcome (bind_outcome (deref lb') firstAddress))))))))"

definition CreateOrUpdateLB :: "'w LoadBalancerService \<Rightarrow> ctx \<Rightarrow> string \<Rightarrow> listener_spec list \<Rightarrow>
    attached_target_group list \<Rightarrow> ('w, string) io" where
  "CreateOrUpdateLB ySvc ctx name listenerSpec attachedTGs =
     (let nlbType = nlbTypeOf listenerSpec in
      bind_io (attempt_io (GetLbByName ySvc ctx name)) (\<lambda>found.
      bind_io (case found of
          Inr lb \<Rightarrow> return_io lb
        | Inl err \<Rightarrow>
            if status_Code (libs ySvc) err = codes_NotFound then return_io None else fail_io err) (\<lambda>lb.
      let lbCreateRequest =
            \<lparr>cl_FolderId = FolderID (cloudCtx ySvc), cl_Name = name,
             cl_RegionId = RegionID (cloudCtx ySvc), cl_Type = nlbType,
             cl_ListenerSpecs = listenerSpec, cl_AttachedTargetGroups = attachedTGs\<rparr> in
      case lb of
        None \<Rightarrow> createLB ySvc ctx lbCreateRequest
      | Some lb \<Rightarrow>
          if shouldRecreate lb lbCreateRequest
          then bind_io (OperationWaiter (cloudCtx ySvc) ctx (LbDelete (lbs_LbSvc ySvc) ctx (lb_Id lb))) (\<lambda>_.
               createLB ySvc ctx lbCreateRequest)
          else updateLB ySvc ctx name listenerSpec attachedTGs lb)))"

text \<open>A failed deletion whose error is \<open>NotFound\<close> counts as done.\<close>

definition skipNotFound :: "'w LoadBalancerService \<Rightarrow> ('w, 'a) io \<Rightarrow> ('w, unit) io" where
  "skipNotFound ySvc m =
     bind_io (attempt_io m) (\<lambda>r.
     case r of
       Inr _ \<Rightarrow> return_io ()
     | Inl err \<Rightarrow>
         if status_Code (libs ySvc) err = codes_NotFound then return_io () else fail_io err)"

definition RemoveLBByName :: "'w LoadBalancerService \<Rightarrow> ctx \<Rightarrow> string \<Rightarrow> ('w, unit) io" where
  "RemoveLBByName ySvc ctx name =
     bind_io (GetLbByName ySvc ctx name) (\<lambda>lb.
     case lb of
       None \<Rightarrow> return_io ()
     | Some lb \<Rightarrow>
         skipNotFound ySvc (OperationWaiter (cloudCtx ySvc) ctx (LbDelete (lbs_LbSvc ySvc) ctx (lb_Id lb))))"

section \<open>Target groups\<close>

text \<open>One listing of at most 1000 groups; \<open>strings.Contains(tg.Name, clusterName)\<close> selects.\<close>

definition GetTGsByClusterName ::
  "'w LoadBalancerService \<Rightarrow> ctx \<Rightarrow> string \<Rightarrow> ('w, target_group list) io" where
  "GetTGsByClusterName ySvc ctx clusterName =
     bind_io (TgList (lbs_TgSvc ySvc) ctx
       \<lparr>lr_FolderId = FolderID (cloudCtx ySvc), lr_PageSize = 1000, lr_Filter = []\<rparr>) (\<lambda>result.
     return_io (filter (\<lambda>tg. strings_Contains (tg_Name tg) clusterName) result))"

text \<open>\<open>if len(xs) > 0 { send; dirty = true }\<close>\<close>

definition send_if_any :: "'a list \<Rightarrow> ('w, 'b) io \<Rightarrow> bool \<Rightarrow> ('w, bool) io" where
  "send_if_any xs m dirty =
     (if length xs > 0 then bind_io m (\<lambda>_. return_io True) else return_io dirty)"

definition CreateOrUpdateTG ::
  "'w LoadBalancerService \<Rightarrow> ctx \<Rightarrow> string \<Rightarrow> target list \<Rightarrow> ('w, string) io" where
  "CreateOrUpdateTG ySvc ctx tgName targets =
     bind_io (attempt_io (GetTgByName ySvc ctx tgName)) (\<lambda>found.
     bind_io (case found of
         Inr tg \<Rightarrow> return_io tg
       | Inl err \<Rightarrow>
           if status_Code (libs ySvc) err = codes_NotFound then return_io None else fail_io err) (\<lambda>tg.
     case tg of
       None \<Rightarrow>
         bind_io (OperationWaiter (cloudCtx ySvc) ctx (TgCreate (lbs_TgSvc ySvc) ctx
           \<lparr>ct_FolderId = FolderID (cloudCtx ySvc), ct_Name = tgName,
            ct_RegionId = RegionID (cloudCtx ySvc), ct_Targets = targets\<rparr>)) (\<lambda>result.
         lift_outcome (bind_outcome (as_TargetGroup result) (\<lambda>t. Ok (tg_Id t))))
     | Some tg \<Rightarrow>
         (let (targetsToAdd, targetsToRemove) =
                diffTargetGroupTargets (StringSet_List (libs ySvc)) targets (tg_Targets tg) in
          bind_io (send_if_any targetsToAdd (OperationWaiter (cloudCtx ySvc) ctx
            (TgAddTargets (lbs_TgSvc ySvc) ctx (tg_Id tg) targetsToAdd)) False) (\<lambda>dirty.
          bind_io (send_if_any targetsToRemove (OperationWaiter (cloudCtx ySvc) ctx
            (TgRemoveTargets (lbs_TgSvc ySvc) ctx (tg_Id tg) targetsToRemove)) dirty) (\<lambda>dirty.
          bind_io (if dirty then GetTgByName ySvc ctx tgName else return_io (Some tg)) (\<lambda>tg'.
          lift_outcome (bind_outcome (deref tg') (\<lambda>t. Ok (tg_Id t)))))))))"

definition RemoveTGByID :: "'w LoadBalancerService \<Rightarrow> ctx \<Rightarrow> string \<Rightarrow> ('w, unit) io" where
  "RemoveTGByID ySvc ctx tgId =
     skipNotFound ySvc (OperationWaiter (cloudCtx ySvc) ctx (TgDelete (lbs_TgSvc ySvc) ctx tgId))"

section \<open>Shapes of a run\<close>

lemma nlbTypeOf_internal_iff:
  "nlbTypeOf es = NLB_INTERNAL \<longleftrightarrow>
     (\<exists>s\<in>set es. \<exists>a. ls_Address s = ListenerSpec_InternalAddressSpec a)"
  by (induction es) (auto split: address_spec.split)

lemma nlbTypeOf_cases: "nlbTypeOf es = NLB_INTERNAL \<or> nlbTypeOf es = NLB_EXTERNAL"
  by (induction es) (auto split: address_spec.split)

lemma skipNotFound_Ok_iff:
  "skipNotFound y m w = (Ok u, w') \<longleftrightarrow>
     (\<exists>x. m w = (Ok x, w')) \<or>
     (\<exists>e. m w = (Err e, w') \<and> status_Code (libs y) e = codes_NotFound)"
  by (auto simp: skipNotFound_def bind_io_def attempt_io_def split: prod.split outcome.split)

lemma skipNotFound_Err_iff:
  "skipNotFound y m w = (Err e, w') \<longleftrightarrow>
     m w = (Err e, w') \<and> status_Code (libs y) e \<noteq> codes_NotFound"
  by (auto simp: skipNotFound_def bind_io_def attempt_io_def split: prod.split outcome.split)

lemma for_each_dirty_flag:
  "for_each_dirty f xs d w = (Ok d', w') \<Longrightarrow> d' \<longleftrightarrow> d \<or> xs \<noteq> []"
  by (induction xs arbitrary: d w) (auto simp: bind_io_Ok_iff)

text \<open>The three ways a run can go, from what the lookup by name answered.\<close>

definition lb_create_request :: "'w LoadBalancerService \<Rightarrow> string \<Rightarrow> listener_spec list \<Rightarrow>
    attached_target_group list \<Rightarrow> create_lb_request" where
  "lb_create_request y name specs atgs =
     \<lparr>cl_FolderId = FolderID (cloudCtx y), cl_Name = name,
      cl_RegionId = RegionID (cloudCtx y), cl_Type = nlbTypeOf specs,
      cl_ListenerSpecs = specs, cl_AttachedTargetGroups = atgs\<rparr>"

lemma CreateOrUpdateLB_absent:
  assumes "GetLbByName y ctx name w = (Ok None, w1) \<or>
    (\<exists>e. GetLbByName y ctx name w = (Err e, w1) \<and> status_Code (libs y) e = codes_NotFound)"
  shows "CreateOrUpdateLB y ctx name specs atgs w =
    createLB y ctx (lb_create_request y name specs atgs) w1"
  using assms
  by (auto simp: CreateOrUpdateLB_def lb_create_request_def Let_def bind_io_def attempt_io_def)

lemma CreateOrUpdateLB_error:
  assumes "GetLbByName y ctx name w = (Err e, w1)" and "status_Code (libs y) e \<noteq> codes_NotFound"
  shows "CreateOrUpdateLB y ctx name specs atgs w = (Err e, w1)"
  using assms by (simp add: CreateOrUpdateLB_def Let_def bind_io_def attempt_io_def)

lemma CreateOrUpdateLB_recreate:
  assumes "GetLbByName y ctx name w = (Ok (Some lb), w1)" and "lb_Type lb \<noteq> nlbTypeOf specs"
  shows "CreateOrUpdateLB y ctx name specs atgs w =
    bind_io (OperationWaiter (cloudCtx y) ctx (LbDelete (lbs_LbSvc y) ctx (lb_Id lb)))
      (\<lambda>_. createLB y ctx (lb_create_request y name specs atgs)) w1"
  using assms
  by (auto simp: CreateOrUpdateLB_def lb_create_request_def shouldRecreate_def Let_def
      bind_io_OkI attempt_io_OkI)

lemma CreateOrUpdateLB_update:
  assumes "GetLbByName y ctx name w = (Ok (Some lb), w1)" and "lb_Type lb = nlbTypeOf specs"
  shows "CreateOrUpdateLB y ctx name specs atgs w = updateLB y ctx name specs atgs lb w1"
  using assms
  by (auto simp: CreateOrUpdateLB_def shouldRecreate_def Let_def bind_io_OkI attempt_io_OkI)

lemma CreateOrUpdateTG_absent:
  assumes "GetTgByName y ctx n w = (Ok None, w1) \<or>
    (\<exists>e. GetTgByName y ctx n w = (Err e, w1) \<and> status_Code (libs y) e = codes_NotFound)"
  shows "CreateOrUpdateTG y ctx n ts w =
    bind_io (OperationWaiter (cloudCtx y) ctx (TgCreate (lbs_TgSvc y) ctx
       \<lparr>ct_FolderId = FolderID (cloudCtx y), ct_Name = n,
        ct_RegionId = RegionID (cloudCtx y), ct_Targets = ts\<rparr>)) (\<lambda>result.
     lift_outcome (bind_outcome (as_TargetGroup result) (\<lambda>t. Ok (tg_Id t)))) w1"
  using assms by (auto simp: CreateOrUpdateTG_def bind_io_OkI attempt_io_OkI attempt_io_ErrI)

lemma CreateOrUpdateTG_error:
  assumes "GetTgByName y ctx n w = (Err e, w1)" and "status_Code (libs y) e \<noteq> codes_NotFound"
  shows "CreateOrUpdateTG y ctx n ts w = (Err e, w1)"
  using assms by (simp add: CreateOrUpdateTG_def bind_io_OkI attempt_io_ErrI bind_io_ErrI)

section \<open>What the requests for a load balancer keep\<close>

text \<open>Every request about load balancers keeps \<open>I\<close>, a statement about something else.\<close>

definition lb_requests_keep :: "'w LoadBalancerService \<Rightarrow> ('w \<Rightarrow> bool) \<Rightarrow> bool" where
  "lb_requests_keep y I \<longleftrightarrow>
     (\<forall>ctx q. keeps I (LbList (lbs_LbSvc y) ctx q)) \<and>
     (\<forall>ctx q. keeps I (OperationWaiter (cloudCtx y) ctx (LbCreate (lbs_LbSvc y) ctx q))) \<and>
     (\<forall>ctx i. keeps I (OperationWaiter (cloudCtx y) ctx (LbDelete (lbs_LbSvc y) ctx i))) \<and>
     (\<forall>ctx i n. keeps I (OperationWaiter (cloudCtx y) ctx (LbRemoveListener (lbs_LbSvc y) ctx i n))) \<and>
     (\<forall>ctx i l. keeps I (OperationWaiter (cloudCtx y) ctx (LbAddListener (lbs_LbSvc y) ctx i l))) \<and>
     (\<forall>ctx i t. keeps I (OperationWaiter (cloudCtx y) ctx (LbDetachTargetGroup (lbs_LbSvc y) ctx i t))) \<and>
     (\<forall>ctx i t. keeps I (OperationWaiter (cloudCtx y) ctx (LbAttachTargetGroup (lbs_LbSvc y) ctx i t)))"

lemma keeps_for_each_dirty: "(\<And>x. keeps I (f x)) \<Longrightarrow> keeps I (for_each_dirty f xs d)"
  by (induction xs arbitrary: d) (auto intro: keeps_bind)

lemma keeps_send_if_any: "keeps I m \<Longrightarrow> keeps I (send_if_any xs m d)"
  unfolding send_if_any_def by (intro keeps_if keeps_bind) auto

lemma keeps_skipNotFound: "keeps I m \<Longrightarrow> keeps I (skipNotFound y m)"
  unfolding skipNotFound_def by (intro keeps_bind keeps_attempt) (auto split: sum.split)

lemma keeps_GetLbByName: "lb_requests_keep y I \<Longrightarrow> keeps I (GetLbByName y ctx n)"
  by (rule lb_lookup.keeps_find) (simp add: lb_requests_keep_def)

lemma keeps_createLB: "lb_requests_keep y I \<Longrightarrow> keeps I (createLB y ctx r)"
  unfolding createLB_def by (intro keeps_bind keeps_lift) (simp add: lb_requests_keep_def)

lemma keeps_updateLB: "lb_requests_keep y I \<Longrightarrow> keeps I (updateLB y ctx n specs atgs c)"
  unfolding updateLB_def
  by (auto split: prod.split intro!: keeps_bind keeps_for_each_dirty keeps_GetLbByName keeps_if
      simp: lb_requests_keep_def)

lemma keeps_CreateOrUpdateLB:
  assumes "lb_requests_keep y I"
  shows "keeps I (CreateOrUpdateLB y ctx n specs atgs)"
proof -
  have del: "keeps I (OperationWaiter (cloudCtx y) ctx (LbDelete (lbs_LbSvc y) ctx i))" for i
    using assms by (simp add: lb_requests_keep_def)
  show ?thesis
    unfolding CreateOrUpdateLB_def Let_def
    by (auto split: option.split sum.split
        intro!: keeps_bind keeps_attempt keeps_GetLbByName keeps_createLB keeps_updateLB del assms)
qed

end
