(* ===== verification/CloudLaws.thy ===== *)
theory CloudLaws
  imports LbService
begin

text \<open>
  What the program relies on of the load balancer service, stated as predicates that the
  theorems name as hypotheses: a view of the cloud's state as the objects by identifier,
  and how each successful request changes it. They say what the service's documentation
  says of a request that succeeded; nothing is said of what a failed one leaves behind,
  except that listing never changes anything.
\<close>

section \<open>Objects by identifier\<close>

text \<open>The objects of a view that have a name.\<close>

definition named :: "('x \<Rightarrow> string) \<Rightarrow> (string \<rightharpoonup> 'x) \<Rightarrow> string \<Rightarrow> 'x set" where
  "named nameof v n = {x \<in> ran v. nameof x = n}"

text \<open>
  A listing by name leaves the view alone; it answers objects with the name, all of them
  when they are fewer than the page of two; and the error \<open>NotFound\<close> means there is none.
\<close>

definition answers_named ::
  "(error \<Rightarrow> code) \<Rightarrow> ('w \<Rightarrow> string \<rightharpoonup> 'x) \<Rightarrow> ('x \<Rightarrow> string) \<Rightarrow> ('w, 'x list) io \<Rightarrow> string \<Rightarrow> bool" where
  "answers_named codeof view nameof m n \<longleftrightarrow>
     (\<forall>w r w'. m w = (r, w') \<longrightarrow>
        view w' = view w \<and>
        (\<forall>xs. r = Ok xs \<longrightarrow> length xs < 2 \<longrightarrow> set xs = named nameof (view w) n) \<and>
        (\<forall>e. r = Err e \<longrightarrow> codeof e = codes_NotFound \<longrightarrow> named nameof (view w) n = {}))"

text \<open>A request that, when it succeeds, changes one object as the relation says.\<close>

definition updates_at ::
  "('w \<Rightarrow> string \<rightharpoonup> 'x) \<Rightarrow> ('w, 'a) io \<Rightarrow> string \<Rightarrow> ('x \<Rightarrow> 'x \<Rightarrow> bool) \<Rightarrow> bool" where
  "updates_at view m i R \<longleftrightarrow>
     (\<forall>w r w' c. m w = (Ok r, w') \<longrightarrow> view w i = Some c \<longrightarrow>
        (\<exists>c'. R c c' \<and> view w' = (view w)(i \<mapsto> c')))"

text \<open>A sequence of changes of one object.\<close>

fun chain :: "('b \<Rightarrow> 'x \<Rightarrow> 'x \<Rightarrow> bool) \<Rightarrow> 'b list \<Rightarrow> 'x \<Rightarrow> 'x \<Rightarrow> bool" where
  "chain R [] c c' = (c' = c)"
| "chain R (b # bs) c c' = (\<exists>c1. R b c c1 \<and> chain R bs c1 c')"

lemma updates_atD:
  "updates_at view m i R \<Longrightarrow> m w = (Ok r, w') \<Longrightarrow> view w i = Some c \<Longrightarrow>
     \<exists>c'. R c c' \<and> view w' = (view w)(i \<mapsto> c')"
  by (auto simp: updates_at_def)

lemma for_each_dirty_chain:
  assumes "\<And>b. updates_at view (f b) i (R b)"
    and "for_each_dirty f bs d w = (Ok d', w')" and "view w i = Some c"
  shows "\<exists>c'. chain R bs c c' \<and> view w' = (view w)(i \<mapsto> c')"
  using assms(2,3)
proof (induction bs arbitrary: d w c)
  case Nil
  then show ?case by (auto simp: map_upd_triv)
next
  case (Cons b bs)
  then obtain r w1 where b: "f b w = (Ok r, w1)" and bs: "for_each_dirty f bs True w1 = (Ok d', w')"
    by (auto simp: bind_io_Ok_iff)
  from updates_atD [OF assms(1) b] Cons.prems(2)
  obtain c1 where c1: "R b c c1" "view w1 = (view w)(i \<mapsto> c1)" by blast
  then have "view w1 i = Some c1" by simp
  from Cons.IH [OF bs this] obtain c' where "chain R bs c1 c'" "view w' = (view w1)(i \<mapsto> c')"
    by blast
  with c1 show ?case by auto
qed

lemma send_if_any_chain:
  assumes upd: "updates_at view m i R" and run: "send_if_any xs m d w = (Ok d', w')"
    and at: "view w i = Some c"
  shows "d' \<longleftrightarrow> d \<or> xs \<noteq> []"
    and "\<exists>c'. (if xs = [] then c' = c else R c c') \<and> view w' = (view w)(i \<mapsto> c')"
proof -
  show "d' \<longleftrightarrow> d \<or> xs \<noteq> []"
    using run by (auto simp: send_if_any_def bind_io_Ok_iff split: if_splits)
  show "\<exists>c'. (if xs = [] then c' = c else R c c') \<and> view w' = (view w)(i \<mapsto> c')"
  proof (cases "xs = []")
    case True
    with run at show ?thesis by (auto simp: send_if_any_def map_upd_triv)
  next
    case False
    with run obtain r where "m w = (Ok r, w')" by (auto simp: send_if_any_def bind_io_Ok_iff)
    from updates_atD [OF upd this at] False show ?thesis by simp
  qed
qed

lemma named_upd_same:
  assumes "named nameof v n = {c}" and "v i = Some c" and "nameof c' = n"
    and ids: "\<And>j x. v j = Some x \<Longrightarrow> idof x = j"
  shows "named nameof (v(i \<mapsto> c')) n = {c'}"
proof -
  have "j = i" if "v j = Some x" "nameof x = n" for j x
  proof -
    from that have "x \<in> named nameof v n" by (auto simp: named_def ran_def)
    with assms(1) have "x = c" by simp
    with that(1) assms(2) ids show ?thesis by metis
  qed
  with assms(3) show ?thesis by (auto simp: named_def ran_def split: if_splits)
qed

lemma named_upd_other:
  assumes "v i = Some c" and "nameof c \<noteq> m" and "nameof c' \<noteq> m"
  shows "named nameof (v(i \<mapsto> c')) m = named nameof v m"
proof (rule set_eqI)
  fix x
  have "x \<in> ran (v(i \<mapsto> c')) \<longleftrightarrow> x \<in> ran v" if "nameof x = m"
  proof
    assume "x \<in> ran (v(i \<mapsto> c'))"
    with that assms(3) show "x \<in> ran v" by (auto simp: ran_def split: if_splits)
  next
    assume "x \<in> ran v"
    then obtain j where "v j = Some x" by (auto simp: ran_def)
    with that assms(1,2) have "(v(i \<mapsto> c')) j = Some x" by auto
    then show "x \<in> ran (v(i \<mapsto> c'))" by (rule ranI)
  qed
  then show "x \<in> named nameof (v(i \<mapsto> c')) m \<longleftrightarrow> x \<in> named nameof v m"
    by (auto simp: named_def)
qed

lemma named_new:
  assumes "v i = None" and "nameof c = n"
  shows "named nameof (v(i \<mapsto> c)) n = insert c (named nameof v n)"
    and "m \<noteq> n \<Longrightarrow> named nameof (v(i \<mapsto> c)) m = named nameof v m"
  using assms by (auto simp: named_def)

lemma named_delete:
  assumes "named nameof v n = {c}" and "v i = Some c"
    and ids: "\<And>j x. v j = Some x \<Longrightarrow> idof x = j"
  shows "named nameof (v(i := None)) n = {}"
    and "m \<noteq> n \<Longrightarrow> named nameof (v(i := None)) m = named nameof v m"
proof -
  have "nameof c = n" using assms(1) by (auto simp: named_def)
  have *: "j = i" if "v j = Some x" "nameof x = n" for j x
  proof -
    from that have "x \<in> named nameof v n" by (auto simp: named_def ran_def)
    with assms(1) have "x = c" by simp
    with that(1) assms(2) ids show ?thesis by metis
  qed
  then show "named nameof (v(i := None)) n = {}"
    by (auto simp: named_def ran_def split: if_splits)
  show "named nameof (v(i := None)) m = named nameof v m" if "m \<noteq> n"
  proof (rule set_eqI)
    fix x
    have "x \<in> ran (v(i := None)) \<longleftrightarrow> x \<in> ran v" if "nameof x = m"
    proof
      assume "x \<in> ran v"
      then obtain j where j: "v j = Some x" by (auto simp: ran_def)
      with \<open>nameof c = n\<close> \<open>m \<noteq> n\<close> that assms(2) have "j \<noteq> i" by auto
      with j show "x \<in> ran (v(i := None))" by (auto simp: ran_def)
    qed (auto simp: ran_def split: if_splits)
    then show "x \<in> named nameof (v(i := None)) m \<longleftrightarrow> x \<in> named nameof v m"
      by (auto simp: named_def)
  qed
qed

text \<open>What a lookup by name says of the view.\<close>

context optional_lookup begin

lemma find_named:
  assumes law: "answers_named codeof view nameof (list ctx n) n"
    and many: "codeof (many n) \<noteq> codes_NotFound"
    and run: "find ctx n w = (r, w')"
  shows "view w' = view w"
    and "r = Ok t \<Longrightarrow> named nameof (view w) n = (case t of None \<Rightarrow> {} | Some x \<Rightarrow> {x})"
    and "r = Err e \<Longrightarrow> codeof e = codes_NotFound \<Longrightarrow> named nameof (view w) n = {}"
proof -
  have V: "view v = view w" and O: "\<And>xs. q = Ok xs \<Longrightarrow> length xs < 2 \<Longrightarrow> set xs = named nameof (view w) n"
    and E: "\<And>e. q = Err e \<Longrightarrow> codeof e = codes_NotFound \<Longrightarrow> named nameof (view w) n = {}"
    if "list ctx n w = (q, v)" for q v
    using law that unfolding answers_named_def by blast+
  show "view w' = view w"
    using run by (cases rule: find_cases [where ctx = ctx and n = n and w = w]) (auto dest: V)
  show "named nameof (view w) n = (case t of None \<Rightarrow> {} | Some x \<Rightarrow> {x})" if "r = Ok t"
  proof (cases rule: find_cases [where ctx = ctx and n = n and w = w])
    case (none v)
    with run that have "t = None" by simp
    with O [OF none(1)] show ?thesis by simp
  next
    case (one x v)
    with run that have "t = Some x" by simp
    with O [OF one(1)] show ?thesis by simp
  qed (use run that in simp_all)
  show "named nameof (view w) n = {}" if "r = Err e" "codeof e = codes_NotFound"
  proof (cases rule: find_cases [where ctx = ctx and n = n and w = w])
    case (err e' v)
    with run that E [OF err(1)] show ?thesis by simp
  qed (use run that many in simp_all)
qed

end

section \<open>The target group service\<close>

definition tg_service_laws :: "'w LoadBalancerService \<Rightarrow> ('w \<Rightarrow> string \<rightharpoonup> target_group) \<Rightarrow> bool" where
  "tg_service_laws y tgs \<longleftrightarrow>
     (\<forall>w i t. tgs w i = Some t \<longrightarrow> tg_Id t = i) \<and>
     (\<forall>n. status_Code (libs y) (ErrManyTargetGroups n) \<noteq> codes_NotFound) \<and>
     (\<forall>ctx n. answers_named (status_Code (libs y)) tgs tg_Name
        (TgList (lbs_TgSvc y) ctx (name_query y n)) n) \<and>
     (\<forall>ctx req w m w'. OperationWaiter (cloudCtx y) ctx (TgCreate (lbs_TgSvc y) ctx req) w = (Ok m, w') \<longrightarrow>
        (\<exists>t. m = MsgTargetGroup t \<and> tg_Name t = ct_Name req \<and> tg_Targets t = ct_Targets req \<and>
             tgs w (tg_Id t) = None \<and> tgs w' = (tgs w)(tg_Id t \<mapsto> t))) \<and>
     (\<forall>ctx i ts. updates_at tgs (OperationWaiter (cloudCtx y) ctx (TgAddTargets (lbs_TgSvc y) ctx i ts)) i
        (\<lambda>c c'. tg_Id c' = tg_Id c \<and> tg_Name c' = tg_Name c \<and>
                set (tg_Targets c') = set (tg_Targets c) \<union> set ts)) \<and>
     (\<forall>ctx i ts. updates_at tgs (OperationWaiter (cloudCtx y) ctx (TgRemoveTargets (lbs_TgSvc y) ctx i ts)) i
        (\<lambda>c c'. tg_Id c' = tg_Id c \<and> tg_Name c' = tg_Name c \<and>
                set (tg_Targets c') = set (tg_Targets c) - set ts)) \<and>
     (\<forall>ctx i w m w'. OperationWaiter (cloudCtx y) ctx (TgDelete (lbs_TgSvc y) ctx i) w = (Ok m, w') \<longrightarrow>
        tgs w' = (tgs w)(i := None))"

section \<open>The load balancer service\<close>

text \<open>A listener that was made from a specification; its address is the cloud's choice.\<close>

definition realises :: "listener \<Rightarrow> listener_spec \<Rightarrow> bool" where
  "realises l s \<longleftrightarrow> l_Name l = ls_Name s \<and> l_key l = ls_key s"

lemma realises_equal: "realises l s \<Longrightarrow> nlbListenersAreEqual l s"
  by (simp add: realises_def listeners_equal_iff)

definition lb_same_head :: "nlb \<Rightarrow> nlb \<Rightarrow> bool" where
  "lb_same_head c c' \<longleftrightarrow> lb_Id c' = lb_Id c \<and> lb_Name c' = lb_Name c \<and> lb_Type c' = lb_Type c"

definition listener_removed :: "string \<Rightarrow> nlb \<Rightarrow> nlb \<Rightarrow> bool" where
  "listener_removed n c c' \<longleftrightarrow> lb_same_head c c' \<and>
     lb_AttachedTargetGroups c' = lb_AttachedTargetGroups c \<and>
     lb_Listeners c' = filter (\<lambda>l. l_Name l \<noteq> n) (lb_Listeners c)"

definition listener_added :: "listener_spec \<Rightarrow> nlb \<Rightarrow> nlb \<Rightarrow> bool" where
  "listener_added s c c' \<longleftrightarrow> lb_same_head c c' \<and>
     lb_AttachedTargetGroups c' = lb_AttachedTargetGroups c \<and>
     (\<exists>l. realises l s \<and> lb_Listeners c' = lb_Listeners c @ [l])"

definition tg_detached :: "string \<Rightarrow> nlb \<Rightarrow> nlb \<Rightarrow> bool" where
  "tg_detached i c c' \<longleftrightarrow> lb_same_head c c' \<and> lb_Listeners c' = lb_Listeners c \<and>
     lb_AttachedTargetGroups c' = filter (\<lambda>t. at_TargetGroupId t \<noteq> i) (lb_AttachedTargetGroups c)"

definition tg_attached :: "attached_target_group \<Rightarrow> nlb \<Rightarrow> nlb \<Rightarrow> bool" where
  "tg_attached t c c' \<longleftrightarrow> lb_same_head c c' \<and> lb_Listeners c' = lb_Listeners c \<and>
     lb_AttachedTargetGroups c' = lb_AttachedTargetGroups c @ [t]"

text \<open>
  The names of a load balancer's listeners are distinct, and so are the target groups
  attached to it.
\<close>

definition lb_wf :: "nlb \<Rightarrow> bool" where
  "lb_wf c \<longleftrightarrow> distinct (map l_Name (lb_Listeners c)) \<and>
     distinct (map at_TargetGroupId (lb_AttachedTargetGroups c))"

definition lb_service_laws :: "'w LoadBalancerService \<Rightarrow> ('w \<Rightarrow> string \<rightharpoonup> nlb) \<Rightarrow> bool" where
  "lb_service_laws y lbs \<longleftrightarrow>
     (\<forall>w i c. lbs w i = Some c \<longrightarrow> lb_Id c = i \<and> lb_wf c) \<and>
     (\<forall>n. status_Code (libs y) (ErrManyLoadBalancers n) \<noteq> codes_NotFound) \<and>
     (\<forall>ctx n. answers_named (status_Code (libs y)) lbs lb_Name
        (LbList (lbs_LbSvc y) ctx (name_query y n)) n) \<and>
     (\<forall>ctx req w m w'. OperationWaiter (cloudCtx y) ctx (LbCreate (lbs_LbSvc y) ctx req) w = (Ok m, w') \<longrightarrow>
        (\<exists>c. m = MsgNetworkLoadBalancer c \<and> lb_Name c = cl_Name req \<and> lb_Type c = cl_Type req \<and>
             list_all2 realises (lb_Listeners c) (cl_ListenerSpecs req) \<and>
             lb_AttachedTargetGroups c = cl_AttachedTargetGroups req \<and>
             lbs w (lb_Id c) = None \<and> lbs w' = (lbs w)(lb_Id c \<mapsto> c))) \<and>
     (\<forall>ctx i w m w'. OperationWaiter (cloudCtx y) ctx (LbDelete (lbs_LbSvc y) ctx i) w = (Ok m, w') \<longrightarrow>
        lbs w' = (lbs w)(i := None)) \<and>
     (\<forall>ctx i n. updates_at lbs (OperationWaiter (cloudCtx y) ctx (LbRemoveListener (lbs_LbSvc y) ctx i n)) i
        (listener_removed n)) \<and>
     (\<forall>ctx i s. updates_at lbs (OperationWaiter (cloudCtx y) ctx (LbAddListener (lbs_LbSvc y) ctx i s)) i
        (listener_added s)) \<and>
     (\<forall>ctx i t. updates_at lbs (OperationWaiter (cloudCtx y) ctx (LbDetachTargetGroup (lbs_LbSvc y) ctx i t)) i
        (tg_detached t)) \<and>
     (\<forall>ctx i t. updates_at lbs (OperationWaiter (cloudCtx y) ctx (LbAttachTargetGroup (lbs_LbSvc y) ctx i t)) i
        (tg_attached t))"

text \<open>What a sequence of changes of one load balancer adds up to.\<close>

lemma lb_same_head_refl [simp]: "lb_same_head c c"
  by (simp add: lb_same_head_def)

lemma lb_same_head_trans: "lb_same_head a b \<Longrightarrow> lb_same_head b c \<Longrightarrow> lb_same_head a c"
  by (simp add: lb_same_head_def)

lemma chain_removed:
  "chain (\<lambda>l. listener_removed (l_Name l)) ls c c' \<Longrightarrow>
     lb_same_head c c' \<and> lb_AttachedTargetGroups c' = lb_AttachedTargetGroups c \<and>
     lb_Listeners c' = filter (\<lambda>l. l_Name l \<notin> l_Name ` set ls) (lb_Listeners c)"
proof (induction ls arbitrary: c)
  case (Cons l ls)
  then obtain c1 where "listener_removed (l_Name l) c c1"
    and "chain (\<lambda>l. listener_removed (l_Name l)) ls c1 c'" by auto
  with Cons.IH [of c1] show ?case
    unfolding listener_removed_def by (auto intro: lb_same_head_trans intro!: filter_cong)
qed simp

lemma chain_added:
  "chain listener_added ss c c' \<Longrightarrow>
     lb_same_head c c' \<and> lb_AttachedTargetGroups c' = lb_AttachedTargetGroups c \<and>
     (\<exists>ls. list_all2 realises ls ss \<and> lb_Listeners c' = lb_Listeners c @ ls)"
proof (induction ss arbitrary: c)
  case (Cons s ss)
  then obtain c1 where step: "listener_added s c c1" and "chain listener_added ss c1 c'" by auto
  with Cons.IH [of c1] obtain ls where ls: "list_all2 realises ls ss"
      "lb_Listeners c' = lb_Listeners c1 @ ls" "lb_same_head c1 c'"
      "lb_AttachedTargetGroups c' = lb_AttachedTargetGroups c1"
    by blast
  from step obtain l where "realises l s" "lb_Listeners c1 = lb_Listeners c @ [l]"
      "lb_same_head c c1" "lb_AttachedTargetGroups c1 = lb_AttachedTargetGroups c"
    unfolding listener_added_def by blast
  with ls show ?case by (auto intro!: exI [of _ "l # ls"] intro: lb_same_head_trans)
qed simp

lemma chain_detached:
  "chain (\<lambda>t. tg_detached (at_TargetGroupId t)) ts c c' \<Longrightarrow>
     lb_same_head c c' \<and> lb_Listeners c' = lb_Listeners c \<and>
     lb_AttachedTargetGroups c' =
       filter (\<lambda>t. at_TargetGroupId t \<notin> at_TargetGroupId ` set ts) (lb_AttachedTargetGroups c)"
proof (induction ts arbitrary: c)
  case (Cons t ts)
  then obtain c1 where "tg_detached (at_TargetGroupId t) c c1"
    and "chain (\<lambda>t. tg_detached (at_TargetGroupId t)) ts c1 c'" by auto
  with Cons.IH [of c1] show ?case
    unfolding tg_detached_def by (auto intro: lb_same_head_trans intro!: filter_cong)
qed simp

lemma chain_attached:
  "chain tg_attached ts c c' \<Longrightarrow>
     lb_same_head c c' \<and> lb_Listeners c' = lb_Listeners c \<and>
     lb_AttachedTargetGroups c' = lb_AttachedTargetGroups c @ ts"
proof (induction ts arbitrary: c)
  case (Cons t ts)
  then obtain c1 where "tg_attached t c c1" and "chain tg_attached ts c1 c'" by auto
  with Cons.IH [of c1] show ?case
    unfolding tg_attached_def by (auto intro: lb_same_head_trans)
qed simp

end
