(* ===== verification/Reconcile.thy ===== *)
theory Reconcile
  imports CloudLaws
begin

text \<open>
  The refinement of \<open>CreateOrUpdateTG\<close> and \<open>CreateOrUpdateLB\<close>: on a service that keeps
  the laws of \<open>CloudLaws\<close>, a call that returns without error leaves exactly the wanted
  object under the wanted name and every object of another name as it was; a second call
  then only lists. Nothing is assumed of requests that fail.
\<close>

section \<open>Target groups\<close>

lemma tg_law_ids: "tg_service_laws y tgs \<Longrightarrow> tgs w i = Some t \<Longrightarrow> tg_Id t = i"
  by (simp add: tg_service_laws_def)

lemma tg_law_many: "tg_service_laws y tgs \<Longrightarrow>
    status_Code (libs y) (ErrManyTargetGroups n) \<noteq> codes_NotFound"
  by (simp add: tg_service_laws_def)

lemma tg_law_list: "tg_service_laws y tgs \<Longrightarrow>
    answers_named (status_Code (libs y)) tgs tg_Name (TgList (lbs_TgSvc y) ctx (name_query y n)) n"
  by (simp add: tg_service_laws_def)

lemma tg_law_create: "tg_service_laws y tgs \<Longrightarrow>
    OperationWaiter (cloudCtx y) ctx (TgCreate (lbs_TgSvc y) ctx req) w = (Ok m, w') \<Longrightarrow>
    \<exists>t. m = MsgTargetGroup t \<and> tg_Name t = ct_Name req \<and> tg_Targets t = ct_Targets req \<and>
        tgs w (tg_Id t) = None \<and> tgs w' = (tgs w)(tg_Id t \<mapsto> t)"
  by (simp add: tg_service_laws_def)

lemma tg_law_add: "tg_service_laws y tgs \<Longrightarrow>
    updates_at tgs (OperationWaiter (cloudCtx y) ctx (TgAddTargets (lbs_TgSvc y) ctx i ts)) i
      (\<lambda>c c'. tg_Id c' = tg_Id c \<and> tg_Name c' = tg_Name c \<and>
              set (tg_Targets c') = set (tg_Targets c) \<union> set ts)"
  by (simp add: tg_service_laws_def)

lemma tg_law_remove: "tg_service_laws y tgs \<Longrightarrow>
    updates_at tgs (OperationWaiter (cloudCtx y) ctx (TgRemoveTargets (lbs_TgSvc y) ctx i ts)) i
      (\<lambda>c c'. tg_Id c' = tg_Id c \<and> tg_Name c' = tg_Name c \<and>
              set (tg_Targets c') = set (tg_Targets c) - set ts)"
  by (simp add: tg_service_laws_def)

lemma tg_law_delete: "tg_service_laws y tgs \<Longrightarrow>
    OperationWaiter (cloudCtx y) ctx (TgDelete (lbs_TgSvc y) ctx i) w = (Ok m, w') \<Longrightarrow> tgs w' = (tgs w)(i := None)"
  by (simp add: tg_service_laws_def)

text \<open>The state of the groups in which the code can tell two targets apart.\<close>

definition tgs_colon_free :: "('w \<Rightarrow> string \<rightharpoonup> target_group) \<Rightarrow> 'w \<Rightarrow> bool" where
  "tgs_colon_free tgs w \<longleftrightarrow> (\<forall>t\<in>ran (tgs w). colon_free (tg_Targets t))"

text \<open>
  The post-state of a successful call: one group has the name, it is the one whose
  identifier is returned, and its targets are the wanted ones; the groups with other
  names are those of before.
\<close>

definition tg_put ::
  "('w \<Rightarrow> string \<rightharpoonup> target_group) \<Rightarrow> string \<Rightarrow> target list \<Rightarrow> 'w \<Rightarrow> string \<Rightarrow> 'w \<Rightarrow> bool" where
  "tg_put tgs n ts w i w' \<longleftrightarrow>
     (\<exists>t. named tg_Name (tgs w') n = {t} \<and> tg_Id t = i \<and> set (tg_Targets t) = set ts) \<and>
     (\<forall>m. m \<noteq> n \<longrightarrow> named tg_Name (tgs w') m = named tg_Name (tgs w) m)"

lemma named_sing_lookup:
  assumes "named nameof v n = {c}" and "\<And>i x. v i = Some x \<Longrightarrow> idof x = i"
  shows "v (idof c) = Some c" and "nameof c = n" and "c \<in> ran v"
proof -
  from assms(1) have "c \<in> named nameof v n" by simp
  then show "nameof c = n" and "c \<in> ran v" by (simp_all add: named_def)
  then obtain i where "v i = Some c" by (auto simp: ran_def)
  with assms(2) show "v (idof c) = Some c" by metis
qed

lemma tg_put_create:
  assumes laws: "tg_service_laws y tgs"
    and none: "named tg_Name (tgs w) n = {}"
    and run: "bind_io (OperationWaiter (cloudCtx y) ctx (TgCreate (lbs_TgSvc y) ctx req)) (\<lambda>result.
       lift_outcome (bind_outcome (as_TargetGroup result) (\<lambda>t. Ok (tg_Id t)))) w = (Ok i, w')"
    and req: "ct_Name req = n" "ct_Targets req = ts"
  shows "tg_put tgs n ts w i w'"
proof -
  from run obtain m where m: "OperationWaiter (cloudCtx y) ctx (TgCreate (lbs_TgSvc y) ctx req) w = (Ok m, w')"
    and i: "bind_outcome (as_TargetGroup m) (\<lambda>t. Ok (tg_Id t)) = Ok i"
    by (auto simp: bind_io_Ok_iff)
  from tg_law_create [OF laws m] req obtain t where t: "m = MsgTargetGroup t" "tg_Name t = n"
    "tg_Targets t = ts" "tgs w (tg_Id t) = None" "tgs w' = (tgs w)(tg_Id t \<mapsto> t)"
    by blast
  with i have "i = tg_Id t" by simp
  with t none named_new [of "tgs w" "tg_Id t" tg_Name t n] show ?thesis
    by (auto simp: tg_put_def)
qed

lemma tg_put_update:
  assumes laws: "tg_service_laws y tgs" and sets: "lists_sets (StringSet_List (libs y))"
    and cf: "colon_free ts" "colon_free (tg_Targets tg)"
    and one: "named tg_Name (tgs w) n = {tg}"
    and add: "send_if_any ta (OperationWaiter (cloudCtx y) ctx (TgAddTargets (lbs_TgSvc y) ctx (tg_Id tg) ta)) False w
        = (Ok d1, w1)"
    and rem: "send_if_any tr (OperationWaiter (cloudCtx y) ctx (TgRemoveTargets (lbs_TgSvc y) ctx (tg_Id tg) tr)) d1 w1
        = (Ok d2, w2)"
    and diff: "diffTargetGroupTargets (StringSet_List (libs y)) ts (tg_Targets tg) = (ta, tr)"
  shows "tg_put tgs n ts w (tg_Id tg) w2" and "d2 \<longleftrightarrow> ta \<noteq> [] \<or> tr \<noteq> []"
proof -
  note ids = tg_law_ids [OF laws]
  from sets cf have wf: "targets_wf (StringSet_List (libs y)) ts (tg_Targets tg)"
    by (simp add: targets_wf_def)
  from diffTargets_sets [OF this] diff have
    sa: "set ta = set ts - set (tg_Targets tg)" and sr: "set tr = set (tg_Targets tg) - set ts"
    by simp_all
  have at: "tgs w (tg_Id tg) = Some tg" and nm: "tg_Name tg = n"
    using named_sing_lookup [OF one ids] by simp_all
  note a = send_if_any_chain [OF tg_law_add [OF laws] add at]
  then obtain t1 where d1: "d1 \<longleftrightarrow> ta \<noteq> []" and v1: "tgs w1 = (tgs w)(tg_Id tg \<mapsto> t1)"
    and t1: "tg_Id t1 = tg_Id tg" "tg_Name t1 = n" "set (tg_Targets t1) = set (tg_Targets tg) \<union> set ta"
    using nm by (cases "ta = []") auto
  from v1 have at1: "tgs w1 (tg_Id tg) = Some t1" by simp
  note b = send_if_any_chain [OF tg_law_remove [OF laws] rem at1]
  then obtain t2 where d2: "d2 \<longleftrightarrow> d1 \<or> tr \<noteq> []" and v2: "tgs w2 = (tgs w1)(tg_Id tg \<mapsto> t2)"
    and t2: "tg_Id t2 = tg_Id tg" "tg_Name t2 = n" "set (tg_Targets t2) = set (tg_Targets t1) - set tr"
    using t1 by (cases "tr = []") auto
  from d1 d2 show "d2 \<longleftrightarrow> ta \<noteq> [] \<or> tr \<noteq> []" by simp
  from v1 v2 have v: "tgs w2 = (tgs w)(tg_Id tg \<mapsto> t2)" by simp
  have "named tg_Name (tgs w2) n = {t2}"
    unfolding v by (rule named_upd_same [OF one at t2(2), where idof = tg_Id]) (rule ids)
  moreover have "named tg_Name (tgs w2) m = named tg_Name (tgs w) m" if "m \<noteq> n" for m
    unfolding v by (rule named_upd_other [where v = "tgs w" and c = tg]) (use at that nm t2 in auto)
  moreover have "set (tg_Targets t2) = set ts" using t1 t2 sa sr by auto
  ultimately show "tg_put tgs n ts w (tg_Id tg) w2" using t2 by (auto simp: tg_put_def)
qed

lemma CreateOrUpdateTG_puts:
  assumes laws: "tg_service_laws y tgs" and sets: "lists_sets (StringSet_List (libs y))"
    and cf: "tgs_colon_free tgs w" "colon_free ts"
    and run: "CreateOrUpdateTG y ctx n ts w = (Ok i, w')"
  shows "tg_put tgs n ts w i w'"
proof -
  obtain r w1 where get: "GetTgByName y ctx n w = (r, w1)" by (cases "GetTgByName y ctx n w")
  note named = tg_lookup.find_named [OF tg_law_list [OF laws] tg_law_many [OF laws] get]
  have view: "tgs w1 = tgs w" by (rule named)
  show ?thesis
  proof (cases "r = Ok None \<or> (\<exists>e. r = Err e \<and> status_Code (libs y) e = codes_NotFound)")
    case True
    then have none: "named tg_Name (tgs w1) n = {}" using named(2,3) view by fastforce
    from True get run CreateOrUpdateTG_absent [of y ctx n w w1 ts]
    have create: "bind_io (OperationWaiter (cloudCtx y) ctx (TgCreate (lbs_TgSvc y) ctx
       \<lparr>ct_FolderId = FolderID (cloudCtx y), ct_Name = n,
        ct_RegionId = RegionID (cloudCtx y), ct_Targets = ts\<rparr>)) (\<lambda>result.
       lift_outcome (bind_outcome (as_TargetGroup result) (\<lambda>t. Ok (tg_Id t)))) w1 = (Ok i, w')"
      by auto
    have "tg_put tgs n ts w1 i w'"
      by (rule tg_put_create [OF laws none create]) simp_all
    with view show ?thesis by (simp add: tg_put_def)
  next
    case False
    then obtain tg where r: "r = Ok (Some tg)"
      using run get CreateOrUpdateTG_error [of y ctx n w _ w1 ts]
      by (cases r) (auto simp: CreateOrUpdateTG_def bind_io_AbortI attempt_io_AbortI split: option.splits)
    with named(2) have one: "named tg_Name (tgs w1) n = {tg}" by (simp add: view)
    then have cft: "colon_free (tg_Targets tg)"
      using cf(1) view by (auto simp: tgs_colon_free_def named_def)
    obtain ta tr where diff: "diffTargetGroupTargets (StringSet_List (libs y)) ts (tg_Targets tg) = (ta, tr)"
      by fastforce
    from run get r diff obtain d1 w2 d2 w3 where
      add: "send_if_any ta (OperationWaiter (cloudCtx y) ctx (TgAddTargets (lbs_TgSvc y) ctx (tg_Id tg) ta)) False w1
        = (Ok d1, w2)" and
      rem: "send_if_any tr (OperationWaiter (cloudCtx y) ctx (TgRemoveTargets (lbs_TgSvc y) ctx (tg_Id tg) tr)) d1 w2
        = (Ok d2, w3)" and
      rest: "bind_io (if d2 then GetTgByName y ctx n else return_io (Some tg)) (\<lambda>tg'.
          lift_outcome (bind_outcome (deref tg') (\<lambda>t. Ok (tg_Id t)))) w3 = (Ok i, w')"
      by (auto simp: CreateOrUpdateTG_def bind_io_Ok_iff attempt_io_Ok_iff)
    have put: "tg_put tgs n ts w1 (tg_Id tg) w3"
      by (rule tg_put_update [OF laws sets cf(2) cft one add rem diff])
    have "tgs w' = tgs w3 \<and> i = tg_Id tg"
    proof (cases d2)
      case True
      with rest obtain t where again: "GetTgByName y ctx n w3 = (Ok (Some t), w')" and "i = tg_Id t"
        by (auto simp: bind_io_Ok_iff bind_outcome_Ok_iff)
      with tg_lookup.find_named [OF tg_law_list [OF laws] tg_law_many [OF laws] again] put
      show ?thesis by (auto simp: tg_put_def)
    qed (use rest in auto)
    with put view show ?thesis by (simp add: tg_put_def)
  qed
qed

section \<open>Load balancers\<close>

lemma lb_law_ids: "lb_service_laws y lbs \<Longrightarrow> lbs w i = Some c \<Longrightarrow> lb_Id c = i"
  by (simp add: lb_service_laws_def)

lemma lb_law_wf: "lb_service_laws y lbs \<Longrightarrow> lbs w i = Some c \<Longrightarrow> lb_wf c"
  by (simp add: lb_service_laws_def)

lemma lb_law_many: "lb_service_laws y lbs \<Longrightarrow>
    status_Code (libs y) (ErrManyLoadBalancers n) \<noteq> codes_NotFound"
  by (simp add: lb_service_laws_def)

lemma lb_law_list: "lb_service_laws y lbs \<Longrightarrow>
    answers_named (status_Code (libs y)) lbs lb_Name (LbList (lbs_LbSvc y) ctx (name_query y n)) n"
  by (simp add: lb_service_laws_def)

lemma lb_law_create: "lb_service_laws y lbs \<Longrightarrow>
    OperationWaiter (cloudCtx y) ctx (LbCreate (lbs_LbSvc y) ctx req) w = (Ok m, w') \<Longrightarrow>
    \<exists>c. m = MsgNetworkLoadBalancer c \<and> lb_Name c = cl_Name req \<and> lb_Type c = cl_Type req \<and>
        list_all2 realises (lb_Listeners c) (cl_ListenerSpecs req) \<and>
        lb_AttachedTargetGroups c = cl_AttachedTargetGroups req \<and>
        lbs w (lb_Id c) = None \<and> lbs w' = (lbs w)(lb_Id c \<mapsto> c)"
  by (simp add: lb_service_laws_def)

lemma lb_law_delete: "lb_service_laws y lbs \<Longrightarrow>
    OperationWaiter (cloudCtx y) ctx (LbDelete (lbs_LbSvc y) ctx i) w = (Ok m, w') \<Longrightarrow> lbs w' = (lbs w)(i := None)"
  by (simp add: lb_service_laws_def)

lemma lb_law_edits: 
  assumes "lb_service_laws y lbs"
  shows "updates_at lbs (OperationWaiter (cloudCtx y) ctx (LbRemoveListener (lbs_LbSvc y) ctx i n)) i (listener_removed n)"
    and "updates_at lbs (OperationWaiter (cloudCtx y) ctx (LbAddListener (lbs_LbSvc y) ctx i s)) i (listener_added s)"
    and "updates_at lbs (OperationWaiter (cloudCtx y) ctx (LbDetachTargetGroup (lbs_LbSvc y) ctx i n)) i (tg_detached n)"
    and "updates_at lbs (OperationWaiter (cloudCtx y) ctx (LbAttachTargetGroup (lbs_LbSvc y) ctx i t)) i (tg_attached t)"
  using assms by (simp_all add: lb_service_laws_def)

text \<open>
  A load balancer is as wanted, field by field and without reference to the code's
  comparisons: the type; a listener with the protocol, the port and the target port of
  every wanted one, and none beside; the wanted target groups with their health checks
  (\<open>attached_same\<close>), and none beside.
\<close>

definition lb_matches ::
  "nlb \<Rightarrow> listener_spec list \<Rightarrow> attached_target_group list \<Rightarrow> bool" where
  "lb_matches c specs atgs \<longleftrightarrow> lb_Type c = nlbTypeOf specs \<and>
     l_key ` set (lb_Listeners c) = ls_key ` set specs \<and>
     ((\<forall>e\<in>set atgs. \<exists>a\<in>set (lb_AttachedTargetGroups c). attached_same a e) \<and>
      (\<forall>a\<in>set (lb_AttachedTargetGroups c). \<exists>e\<in>set atgs. attached_same a e))"

lemma keys_equal_iff: "l_key ` L = ls_key ` S \<longleftrightarrow>
    (\<forall>s\<in>S. \<exists>l\<in>L. nlbListenersAreEqual l s) \<and> (\<forall>l\<in>L. \<exists>s\<in>S. nlbListenersAreEqual l s)"
proof -
  have "l_key ` L \<subseteq> ls_key ` S \<longleftrightarrow> (\<forall>l\<in>L. \<exists>s\<in>S. nlbListenersAreEqual l s)"
    by (simp add: listeners_equal_iff image_subset_iff image_iff)
  moreover have "ls_key ` S \<subseteq> l_key ` L \<longleftrightarrow> (\<forall>s\<in>S. \<exists>l\<in>L. nlbListenersAreEqual l s)"
    by (simp add: listeners_equal_iff image_subset_iff image_iff eq_commute)
  ultimately show ?thesis by blast
qed

text \<open>
  Where its parts come from: a listener is either made from its specification, with the
  wanted name, or one of the load balancer that was there (\<open>olds\<close>), which is kept as it was,
  name and address included, exactly when its protocol and ports are wanted.
\<close>

definition lb_from :: "nlb set \<Rightarrow> nlb \<Rightarrow> listener_spec list \<Rightarrow> attached_target_group list \<Rightarrow> bool" where
  "lb_from olds c specs atgs \<longleftrightarrow>
     (\<forall>l\<in>set (lb_Listeners c). (\<exists>s\<in>set specs. l_Name l = ls_Name s \<and> l_key l = ls_key s) \<or>
        (\<exists>b\<in>olds. l \<in> set (lb_Listeners b))) \<and>
     (\<forall>b\<in>olds. \<forall>l\<in>set (lb_Listeners b). l_key l \<in> ls_key ` set specs \<longrightarrow> l \<in> set (lb_Listeners c)) \<and>
     (\<forall>a\<in>set (lb_AttachedTargetGroups c). a \<in> set atgs \<or> (\<exists>b\<in>olds. a \<in> set (lb_AttachedTargetGroups b)))"

text \<open>The load balancer that can be updated in place: the one of the name, if it has the type.\<close>

definition updatable :: "('w \<Rightarrow> string \<rightharpoonup> nlb) \<Rightarrow> 'w \<Rightarrow> string \<Rightarrow> listener_spec list \<Rightarrow> nlb set" where
  "updatable lbs w n specs = {b \<in> named lb_Name (lbs w) n. lb_Type b = nlbTypeOf specs}"

definition lb_put :: "('w \<Rightarrow> string \<rightharpoonup> nlb) \<Rightarrow> string \<Rightarrow> listener_spec list \<Rightarrow>
    attached_target_group list \<Rightarrow> 'w \<Rightarrow> string \<Rightarrow> 'w \<Rightarrow> bool" where
  "lb_put lbs n specs atgs w addr w' \<longleftrightarrow>
     (\<exists>c. named lb_Name (lbs w') n = {c} \<and> lb_matches c specs atgs \<and>
        lb_from (updatable lbs w n specs) c specs atgs \<and> firstAddress c = Ok addr) \<and>
     (\<forall>m. m \<noteq> n \<longrightarrow> named lb_Name (lbs w') m = named lb_Name (lbs w) m)"

lemma lb_put_before: "lbs w1 = lbs w \<Longrightarrow> lb_put lbs n specs atgs w1 addr w' = lb_put lbs n specs atgs w addr w'"
  by (simp add: lb_put_def updatable_def)

lemma createLB_puts:
  assumes laws: "lb_service_laws y lbs" and none: "named lb_Name (lbs w) n = {}"
    and chk: "list_all checkable atgs"
    and run: "createLB y ctx (lb_create_request y n specs atgs) w = (Ok addr, w')"
  shows "lb_put lbs n specs atgs w addr w'"
proof -
  let ?req = "lb_create_request y n specs atgs"
  from run obtain m where m: "OperationWaiter (cloudCtx y) ctx (LbCreate (lbs_LbSvc y) ctx ?req) w = (Ok m, w')"
    and addr: "bind_outcome (as_NetworkLoadBalancer m) firstAddress = Ok addr"
    by (auto simp: createLB_def bind_io_Ok_iff)
  from lb_law_create [OF laws m] obtain c where c: "m = MsgNetworkLoadBalancer c" "lb_Name c = n"
    "lb_Type c = nlbTypeOf specs" "list_all2 realises (lb_Listeners c) specs"
    "lb_AttachedTargetGroups c = atgs" "lbs w (lb_Id c) = None" "lbs w' = (lbs w)(lb_Id c \<mapsto> c)"
    by (auto simp: lb_create_request_def)
  from c(4) have "(\<forall>s\<in>set specs. \<exists>l\<in>set (lb_Listeners c). nlbListenersAreEqual l s) \<and>
      (\<forall>l\<in>set (lb_Listeners c). \<exists>s\<in>set specs. nlbListenersAreEqual l s)"
    by (meson list_all2_elems realises_equal)
  moreover have "lb_from {} c specs atgs"
    using c(5) list_all2_elems(2) [OF c(4)] by (fastforce simp: lb_from_def realises_def)
  moreover have "\<forall>e\<in>set atgs. attached_same e e"
    using chk by (auto simp: list_all_iff attached_same_refl)
  ultimately have "lb_matches c specs atgs" "lb_from {} c specs atgs"
    using c by (auto simp: lb_matches_def keys_equal_iff)
  moreover have "updatable lbs w n specs = {}" using none by (simp add: updatable_def)
  ultimately show ?thesis
    using c addr none named_new [of "lbs w" "lb_Id c" lb_Name c n] by (auto simp: lb_put_def)
qed

text \<open>
  The four loops of an update, seen on the load balancer: the listeners and the attached
  target groups end up as the comparisons' contract says.
\<close>

lemma updated_matches:
  assumes wf: "specs_wf specs" "attached_wf atgs" "lb_wf c" and ty: "lb_Type c = nlbTypeOf specs"
    and dl: "diffListeners specs (lb_Listeners c) = (la, lr)"
    and dt: "diffAttachedTargetGroups atgs (lb_AttachedTargetGroups c) = Ok (ta, td)"
    and r: "chain (\<lambda>l. listener_removed (l_Name l)) lr c c1"
    and a: "chain listener_added la c1 c2"
    and d: "chain (\<lambda>t. tg_detached (at_TargetGroupId t)) td c2 c3"
    and t: "chain tg_attached ta c3 c4"
  shows "lb_matches c4 specs atgs" and "lb_same_head c c4" and "lb_from {c} c4 specs atgs"
proof -
  note C = chain_removed [OF r] chain_added [OF a] chain_detached [OF d] chain_attached [OF t]
  then obtain ls where ls: "list_all2 realises ls la"
    and L: "lb_Listeners c4 = filter (\<lambda>l. l_Name l \<notin> l_Name ` set lr) (lb_Listeners c) @ ls"
    and A: "lb_AttachedTargetGroups c4 =
      filter (\<lambda>t. at_TargetGroupId t \<notin> at_TargetGroupId ` set td) (lb_AttachedTargetGroups c) @ ta"
    by auto
  from C show head: "lb_same_head c c4" by (auto intro: lb_same_head_trans)
  have lsub: "set lr \<subseteq> set (lb_Listeners c)"
    using listeners_diff.rem_present [OF wf(1), of _ "lb_Listeners c"] dl by auto
  have keptL: "l_Name l \<in> l_Name ` set lr \<longleftrightarrow> l \<in> set lr" if "l \<in> set (lb_Listeners c)" for l
    using wf(3) lsub that by (auto simp: lb_wf_def dest: distinct_map_eq)
  have "(\<forall>s\<in>set specs. \<exists>l\<in>set (lb_Listeners c4). nlbListenersAreEqual l s) \<and>
      (\<forall>l\<in>set (lb_Listeners c4). \<exists>s\<in>set specs. nlbListenersAreEqual l s)"
  proof (rule listeners_diff.reconciles [OF wf(1), of "lb_Listeners c"])
    show "l \<in> set (lb_Listeners c4)"
      if "l \<in> set (lb_Listeners c)" "l \<notin> set (snd (diffListeners specs (lb_Listeners c)))" for l
      using that keptL dl by (simp add: L)
    show "\<exists>l\<in>set (lb_Listeners c4). nlbListenersAreEqual l s"
      if "s \<in> set (fst (diffListeners specs (lb_Listeners c)))" for s
    proof -
      from that dl list_all2_elems(1) [OF ls] obtain l where "l \<in> set ls" "realises l s" by auto
      then show ?thesis by (auto simp: L intro: realises_equal)
    qed
    show "(l \<in> set (lb_Listeners c) \<and> l \<notin> set (snd (diffListeners specs (lb_Listeners c)))) \<or>
        (\<exists>s\<in>set (fst (diffListeners specs (lb_Listeners c))). nlbListenersAreEqual l s)"
      if "l \<in> set (lb_Listeners c4)" for l
    proof (cases "l \<in> set ls")
      case True
      with list_all2_elems(2) [OF ls] obtain s where "s \<in> set la" "realises l s" by blast
      with dl show ?thesis by (auto intro: realises_equal)
    qed (use that dl keptL in \<open>auto simp: L\<close>)
  qed
  moreover have dv: "diffAttached_value atgs (lb_AttachedTargetGroups c) = (ta, td)"
    using dt by (simp add: diffAttached_value_def)
  have tsub: "set td \<subseteq> set (lb_AttachedTargetGroups c)" and asub: "set ta \<subseteq> set atgs"
    using attached_diff.rem_present [OF wf(2), of _ "lb_AttachedTargetGroups c"]
      attached_diff.add_wanted [OF wf(2), of _ "lb_AttachedTargetGroups c"] dv by auto
  have keptA: "at_TargetGroupId t \<in> at_TargetGroupId ` set td \<longleftrightarrow> t \<in> set td"
    if "t \<in> set (lb_AttachedTargetGroups c)" for t
    using wf(3) tsub that by (auto simp: lb_wf_def dest: distinct_map_eq)
  have refl: "attached_same t t" if "t \<in> set ta" for t
    using that asub wf(2) by (auto simp: attached_wf_def list_all_iff attached_same_refl)
  have "(\<forall>e\<in>set atgs. \<exists>a\<in>set (lb_AttachedTargetGroups c4). attached_same a e) \<and>
      (\<forall>a\<in>set (lb_AttachedTargetGroups c4). \<exists>e\<in>set atgs. attached_same a e)"
    by (rule attached_diff.reconciles [OF wf(2), of "lb_AttachedTargetGroups c"])
      (use keptA dv refl in \<open>auto simp: A\<close>)
  ultimately show "lb_matches c4 specs atgs"
    using head ty by (simp add: lb_matches_def keys_equal_iff lb_same_head_def)
  have "\<exists>s\<in>set specs. l_Name l = ls_Name s \<and> l_key l = ls_key s" if "l \<in> set ls" for l
    using list_all2_elems(2) [OF ls that] listeners_diff.add_wanted [OF wf(1), of _ "lb_Listeners c"] dl
    by (auto simp: realises_def)
  moreover have "l \<in> set (lb_Listeners c4)" if "l \<in> set (lb_Listeners c)" "l_key l \<in> ls_key ` set specs" for l
  proof -
    from that(2) have "l \<notin> set lr"
      using listeners_diff.rem_iff [OF wf(1), of l "lb_Listeners c"] dl by (auto simp: listeners_equal_iff)
    with that(1) keptL show ?thesis by (simp add: L)
  qed
  ultimately show "lb_from {c} c4 specs atgs"
    using asub by (auto simp: lb_from_def L A)
qed

text \<open>
  What the four loops of an update leave behind, when all their requests succeeded.
\<close>

lemma updateLB_loops:
  assumes laws: "lb_service_laws y lbs" and wf: "specs_wf specs" "attached_wf atgs"
    and one: "named lb_Name (lbs w) n = {c}" and ty: "lb_Type c = nlbTypeOf specs"
    and dl: "diffListeners specs (lb_Listeners c) = (la, lr)"
    and dt: "diffAttachedTargetGroups atgs (lb_AttachedTargetGroups c) = Ok (ta, td)"
    and r: "for_each_dirty (\<lambda>l. OperationWaiter (cloudCtx y) ctx
      (LbRemoveListener (lbs_LbSvc y) ctx (lb_Id c) (l_Name l))) lr False w = (Ok d1, w1)"
    and a: "for_each_dirty (\<lambda>s. OperationWaiter (cloudCtx y) ctx
      (LbAddListener (lbs_LbSvc y) ctx (lb_Id c) s)) la d1 w1 = (Ok d2, w2)"
    and d: "for_each_dirty (\<lambda>t. OperationWaiter (cloudCtx y) ctx
      (LbDetachTargetGroup (lbs_LbSvc y) ctx (lb_Id c) (at_TargetGroupId t))) td d2 w2 = (Ok d3, w3)"
    and t: "for_each_dirty (\<lambda>t. OperationWaiter (cloudCtx y) ctx
      (LbAttachTargetGroup (lbs_LbSvc y) ctx (lb_Id c) t)) ta d3 w3 = (Ok d4, w4)"
  obtains c4 where "named lb_Name (lbs w4) n = {c4}" and "lb_matches c4 specs atgs" and "lb_from {c} c4 specs atgs"
    and "\<And>m. m \<noteq> n \<Longrightarrow> named lb_Name (lbs w4) m = named lb_Name (lbs w) m" and "\<not> d4 \<Longrightarrow> c4 = c"
proof -
  note ids = lb_law_ids [OF laws] and E = lb_law_edits [OF laws]
  have at: "lbs w (lb_Id c) = Some c" and nm: "lb_Name c = n"
    using named_sing_lookup [OF one ids] by simp_all
  from for_each_dirty_chain [OF E(1) r at] obtain c1 where
    c1: "chain (\<lambda>l. listener_removed (l_Name l)) lr c c1" "lbs w1 = (lbs w)(lb_Id c \<mapsto> c1)" by blast
  from for_each_dirty_chain [OF E(2) a, of c1] c1 obtain c2 where
    c2: "chain listener_added la c1 c2" "lbs w2 = (lbs w)(lb_Id c \<mapsto> c2)" by auto
  from for_each_dirty_chain [OF E(3) d, of c2] c2 obtain c3 where
    c3: "chain (\<lambda>t. tg_detached (at_TargetGroupId t)) td c2 c3" "lbs w3 = (lbs w)(lb_Id c \<mapsto> c3)" by auto
  from for_each_dirty_chain [OF E(4) t, of c3] c3 obtain c4 where
    c4: "chain tg_attached ta c3 c4" "lbs w4 = (lbs w)(lb_Id c \<mapsto> c4)" by auto
  note M = updated_matches [OF wf lb_law_wf [OF laws at] ty dl dt c1(1) c2(1) c3(1) c4(1)]
  have nm4: "lb_Name c4 = n" using M(2) nm by (simp add: lb_same_head_def)
  have "named lb_Name (lbs w4) n = {c4}"
    unfolding c4(2) by (rule named_upd_same [OF one at nm4, where idof = lb_Id]) (rule ids)
  moreover have "named lb_Name (lbs w4) m = named lb_Name (lbs w) m" if "m \<noteq> n" for m
    unfolding c4(2)
    by (rule named_upd_other [where v = "lbs w" and c = c]) (use at that nm nm4 in auto)
  moreover have "c4 = c" if "\<not> d4"
  proof -
    from that have "lr = []" "la = []" "td = []" "ta = []"
      using for_each_dirty_flag [OF r] for_each_dirty_flag [OF a]
        for_each_dirty_flag [OF d] for_each_dirty_flag [OF t] by auto
    with c1 c2 c3 c4 show ?thesis by simp
  qed
  ultimately show thesis using M(1,3) that by blast
qed

lemma updateLB_puts:
  assumes laws: "lb_service_laws y lbs" and wf: "specs_wf specs" "attached_wf atgs"
    and one: "named lb_Name (lbs w) n = {c}" and ty: "lb_Type c = nlbTypeOf specs"
    and run: "updateLB y ctx n specs atgs c w = (Ok addr, w')"
  shows "lb_put lbs n specs atgs w addr w'"
proof -
  obtain la lr where dl: "diffListeners specs (lb_Listeners c) = (la, lr)" by fastforce
  obtain ta td where dt: "diffAttachedTargetGroups atgs (lb_AttachedTargetGroups c) = Ok (ta, td)"
    using diffAttached_returns [OF wf(2)] by (metis prod.collapse)
  from run dl dt obtain d1 w1 d2 w2 d3 w3 d4 w4 where
    r: "for_each_dirty (\<lambda>l. OperationWaiter (cloudCtx y) ctx
      (LbRemoveListener (lbs_LbSvc y) ctx (lb_Id c) (l_Name l))) lr False w = (Ok d1, w1)" and
    a: "for_each_dirty (\<lambda>s. OperationWaiter (cloudCtx y) ctx
      (LbAddListener (lbs_LbSvc y) ctx (lb_Id c) s)) la d1 w1 = (Ok d2, w2)" and
    d: "for_each_dirty (\<lambda>t. OperationWaiter (cloudCtx y) ctx
      (LbDetachTargetGroup (lbs_LbSvc y) ctx (lb_Id c) (at_TargetGroupId t))) td d2 w2 = (Ok d3, w3)" and
    t: "for_each_dirty (\<lambda>t. OperationWaiter (cloudCtx y) ctx
      (LbAttachTargetGroup (lbs_LbSvc y) ctx (lb_Id c) t)) ta d3 w3 = (Ok d4, w4)" and
    rest: "bind_io (if d4 then GetLbByName y ctx n else return_io (Some c)) (\<lambda>lb'.
      lift_outcome (bind_outcome (deref lb') firstAddress)) w4 = (Ok addr, w')"
    by (auto simp: updateLB_def bind_io_Ok_iff)
  obtain c4 where c4: "named lb_Name (lbs w4) n = {c4}" "lb_matches c4 specs atgs"
      and from_c: "lb_from {c} c4 specs atgs"
      and rest4: "\<And>m. m \<noteq> n \<Longrightarrow> named lb_Name (lbs w4) m = named lb_Name (lbs w) m" and clean: "\<not> d4 \<Longrightarrow> c4 = c"
    by (rule updateLB_loops [OF laws wf one ty dl dt r a d t]) blast
  have "lbs w' = lbs w4 \<and> firstAddress c4 = Ok addr"
  proof (cases d4)
    case True
    with rest obtain x where again: "GetLbByName y ctx n w4 = (Ok (Some x), w')"
      and "firstAddress x = Ok addr"
      by (auto simp: bind_io_Ok_iff bind_outcome_Ok_iff)
    with lb_lookup.find_named [OF lb_law_list [OF laws] lb_law_many [OF laws] again] c4(1)
    show ?thesis by auto
  qed (use rest clean in auto)
  moreover have "updatable lbs w n specs = {c}" using one ty by (auto simp: updatable_def)
  ultimately show ?thesis using c4 from_c rest4 by (auto simp: lb_put_def)
qed

lemma CreateOrUpdateLB_puts:
  assumes laws: "lb_service_laws y lbs" and wf: "specs_wf specs" "attached_wf atgs"
    and run: "CreateOrUpdateLB y ctx n specs atgs w = (Ok addr, w')"
  shows "lb_put lbs n specs atgs w addr w'"
proof -
  obtain r w1 where get: "GetLbByName y ctx n w = (r, w1)" by (cases "GetLbByName y ctx n w")
  note named = lb_lookup.find_named [OF lb_law_list [OF laws] lb_law_many [OF laws] get]
  have view: "lbs w1 = lbs w" by (rule named)
  have chk: "list_all checkable atgs" using wf(2) by (simp add: attached_wf_def)
  have "lb_put lbs n specs atgs w1 addr w'"
  proof (cases "r = Ok None \<or> (\<exists>e. r = Err e \<and> status_Code (libs y) e = codes_NotFound)")
    case True
    then have none: "named lb_Name (lbs w1) n = {}" using named(2,3) view by fastforce
    from True get run CreateOrUpdateLB_absent [of y ctx n w w1 specs atgs]
    have "createLB y ctx (lb_create_request y n specs atgs) w1 = (Ok addr, w')" by auto
    then show ?thesis by (rule createLB_puts [OF laws none chk])
  next
    case False
    then obtain c where r: "r = Ok (Some c)"
      using run get CreateOrUpdateLB_error [of y ctx n w _ w1 specs atgs]
      by (cases r) (auto simp: CreateOrUpdateLB_def Let_def bind_io_AbortI attempt_io_AbortI split: option.splits)
    with named(2) have one: "named lb_Name (lbs w1) n = {c}" by (simp add: view)
    show ?thesis
    proof (cases "lb_Type c = nlbTypeOf specs")
      case True
      with get r run have "updateLB y ctx n specs atgs c w1 = (Ok addr, w')"
        by (simp add: CreateOrUpdateLB_update)
      then show ?thesis by (rule updateLB_puts [OF laws wf one True])
    next
      case False
      with get r run obtain m w2 where
        del: "OperationWaiter (cloudCtx y) ctx (LbDelete (lbs_LbSvc y) ctx (lb_Id c)) w1 = (Ok m, w2)" and
        create: "createLB y ctx (lb_create_request y n specs atgs) w2 = (Ok addr, w')"
        by (auto simp: CreateOrUpdateLB_recreate bind_io_Ok_iff)
      note ids = lb_law_ids [OF laws]
      have at: "lbs w1 (lb_Id c) = Some c"
        by (rule named_sing_lookup(1) [OF one]) (rule ids)
      from lb_law_delete [OF laws del] have v2: "lbs w2 = (lbs w1)(lb_Id c := None)" .
      note D = named_delete [OF one at, where idof = lb_Id]
      have "named lb_Name (lbs w2) n = {}" unfolding v2 by (rule D(1)) (rule ids)
      with createLB_puts [OF laws _ chk create]
      have "lb_put lbs n specs atgs w2 addr w'" .
      moreover have "named lb_Name (lbs w2) m = named lb_Name (lbs w1) m" if "m \<noteq> n" for m
        unfolding v2 by (rule D(2)) (use ids that in auto)
      moreover have "updatable lbs w2 n specs = updatable lbs w1 n specs"
        using \<open>named lb_Name (lbs w2) n = {}\<close> one False by (auto simp: updatable_def)
      ultimately show ?thesis by (simp add: lb_put_def)
    qed
  qed
  with lb_put_before [OF view] show ?thesis by simp
qed

text \<open>
  A load balancer that matches is left alone: the update is the comparison and the
  address of the first listener.
\<close>

lemma updateLB_stable:
  assumes wf: "specs_wf specs" "attached_wf atgs" and "lb_matches c specs atgs"
  shows "updateLB y ctx n specs atgs c w = (firstAddress c, w)"
proof -
  from assms have "diffListeners specs (lb_Listeners c) = ([], [])"
    by (intro listeners_diff.stable) (auto simp: lb_matches_def keys_equal_iff)
  moreover from assms have "diffAttached_value atgs (lb_AttachedTargetGroups c) = ([], [])"
    by (intro attached_diff.stable) (auto simp: lb_matches_def)
  ultimately show ?thesis
    by (simp add: updateLB_def diffAttached_returns [OF wf(2)])
qed

text \<open>The same for a target group that has the targets already.\<close>

lemma CreateOrUpdateTG_stable:
  assumes sets: "lists_sets (StringSet_List (libs y))"
    and cf: "colon_free ts" "colon_free (tg_Targets t)"
    and get: "GetTgByName y ctx n w = (Ok (Some t), w1)" and same: "set (tg_Targets t) = set ts"
  shows "CreateOrUpdateTG y ctx n ts w = (Ok (tg_Id t), w1)"
proof -
  from sets cf have "targets_wf (StringSet_List (libs y)) ts (tg_Targets t)" by (simp add: targets_wf_def)
  then have "diffTargetGroupTargets (StringSet_List (libs y)) ts (tg_Targets t) = ([], [])"
    by (rule targets_diff.stable) (use same in auto)
  with get show ?thesis
    by (simp add: CreateOrUpdateTG_def bind_io_OkI attempt_io_OkI send_if_any_def)
qed

section \<open>No panic\<close>

text \<open>
  The clients themselves do not panic: every request about load balancers and every
  listing returns a value or an error.
\<close>

definition lb_clients_return :: "'w LoadBalancerService \<Rightarrow> bool" where
  "lb_clients_return y \<longleftrightarrow>
     (\<forall>ctx q. safe (\<lambda>_. True) (LbList (lbs_LbSvc y) ctx q)) \<and>
     (\<forall>ctx q. safe (\<lambda>_. True) (OperationWaiter (cloudCtx y) ctx (LbCreate (lbs_LbSvc y) ctx q))) \<and>
     (\<forall>ctx i. safe (\<lambda>_. True) (OperationWaiter (cloudCtx y) ctx (LbDelete (lbs_LbSvc y) ctx i))) \<and>
     (\<forall>ctx i n. safe (\<lambda>_. True) (OperationWaiter (cloudCtx y) ctx (LbRemoveListener (lbs_LbSvc y) ctx i n))) \<and>
     (\<forall>ctx i l. safe (\<lambda>_. True) (OperationWaiter (cloudCtx y) ctx (LbAddListener (lbs_LbSvc y) ctx i l))) \<and>
     (\<forall>ctx i t. safe (\<lambda>_. True) (OperationWaiter (cloudCtx y) ctx (LbDetachTargetGroup (lbs_LbSvc y) ctx i t))) \<and>
     (\<forall>ctx i t. safe (\<lambda>_. True) (OperationWaiter (cloudCtx y) ctx (LbAttachTargetGroup (lbs_LbSvc y) ctx i t)))"

lemma safe_not_Abort: "safe (\<lambda>_. True) m \<Longrightarrow> m w \<noteq> (Abort p, w')"
  by (simp add: safe_def)

lemma for_each_dirty_not_Abort:
  "(\<And>x. safe (\<lambda>_. True) (f x)) \<Longrightarrow> for_each_dirty f xs d w \<noteq> (Abort p, w')"
  by (induction xs arbitrary: d w) (auto simp: bind_io_Abort_iff safe_def)

lemma GetLbByName_not_Abort: "lb_clients_return y \<Longrightarrow> GetLbByName y ctx n w \<noteq> (Abort p, w')"
  using lb_lookup.find_aborts [of p y ctx n w w'] by (auto simp: lb_clients_return_def safe_def)

lemma matches_firstAddress:
  assumes "lb_matches c specs atgs" and "specs \<noteq> []"
  shows "firstAddress c \<noteq> Abort p"
proof -
  from assms have "lb_Listeners c \<noteq> []" by (cases specs) (auto simp: lb_matches_def)
  then show ?thesis by (cases "lb_Listeners c") (simp_all add: firstAddress_def)
qed

lemma createLB_not_Abort:
  assumes laws: "lb_service_laws y lbs" and ret: "lb_clients_return y" and "specs \<noteq> []"
  shows "createLB y ctx (lb_create_request y n specs atgs) w \<noteq> (Abort p, w')"
proof
  assume run: "createLB y ctx (lb_create_request y n specs atgs) w = (Abort p, w')"
  have "safe (\<lambda>_. True) (OperationWaiter (cloudCtx y) ctx (LbCreate (lbs_LbSvc y) ctx (lb_create_request y n specs atgs)))"
    using ret by (simp add: lb_clients_return_def)
  with run obtain m where m: "OperationWaiter (cloudCtx y) ctx (LbCreate (lbs_LbSvc y) ctx (lb_create_request y n specs atgs)) w = (Ok m, w')"
    and "bind_outcome (as_NetworkLoadBalancer m) firstAddress = Abort p"
    by (auto simp: createLB_def bind_io_Abort_iff safe_not_Abort)
  moreover from lb_law_create [OF laws m] obtain c where "m = MsgNetworkLoadBalancer c"
    "list_all2 realises (lb_Listeners c) specs" by (auto simp: lb_create_request_def)
  ultimately show False using assms(3) by (cases "lb_Listeners c") (auto simp: firstAddress_def)
qed

lemma updateLB_not_Abort:
  assumes laws: "lb_service_laws y lbs" and ret: "lb_clients_return y" and ne: "specs \<noteq> []"
    and wf: "specs_wf specs" "attached_wf atgs"
    and one: "named lb_Name (lbs w) n = {c}" and ty: "lb_Type c = nlbTypeOf specs"
  shows "updateLB y ctx n specs atgs c w \<noteq> (Abort p, w')"
proof
  assume run: "updateLB y ctx n specs atgs c w = (Abort p, w')"
  obtain la lr where dl: "diffListeners specs (lb_Listeners c) = (la, lr)" by fastforce
  obtain ta td where dt: "diffAttachedTargetGroups atgs (lb_AttachedTargetGroups c) = Ok (ta, td)"
    using diffAttached_returns [OF wf(2)] by (metis prod.collapse)
  note loops = for_each_dirty_not_Abort [where f = "\<lambda>l. OperationWaiter (cloudCtx y) ctx (LbRemoveListener (lbs_LbSvc y) ctx (lb_Id c) (l_Name l))"]
    for_each_dirty_not_Abort [where f = "\<lambda>s. OperationWaiter (cloudCtx y) ctx (LbAddListener (lbs_LbSvc y) ctx (lb_Id c) s)"]
    for_each_dirty_not_Abort [where f = "\<lambda>t. OperationWaiter (cloudCtx y) ctx (LbDetachTargetGroup (lbs_LbSvc y) ctx (lb_Id c) (at_TargetGroupId t))"]
    for_each_dirty_not_Abort [where f = "\<lambda>t. OperationWaiter (cloudCtx y) ctx (LbAttachTargetGroup (lbs_LbSvc y) ctx (lb_Id c) t)"]
  from run dl dt ret obtain d1 w1 d2 w2 d3 w3 d4 w4 where
    r: "for_each_dirty (\<lambda>l. OperationWaiter (cloudCtx y) ctx
      (LbRemoveListener (lbs_LbSvc y) ctx (lb_Id c) (l_Name l))) lr False w = (Ok d1, w1)" and
    a: "for_each_dirty (\<lambda>s. OperationWaiter (cloudCtx y) ctx
      (LbAddListener (lbs_LbSvc y) ctx (lb_Id c) s)) la d1 w1 = (Ok d2, w2)" and
    d: "for_each_dirty (\<lambda>t. OperationWaiter (cloudCtx y) ctx
      (LbDetachTargetGroup (lbs_LbSvc y) ctx (lb_Id c) (at_TargetGroupId t))) td d2 w2 = (Ok d3, w3)" and
    t: "for_each_dirty (\<lambda>t. OperationWaiter (cloudCtx y) ctx
      (LbAttachTargetGroup (lbs_LbSvc y) ctx (lb_Id c) t)) ta d3 w3 = (Ok d4, w4)" and
    rest: "bind_io (if d4 then GetLbByName y ctx n else return_io (Some c)) (\<lambda>lb'.
      lift_outcome (bind_outcome (deref lb') firstAddress)) w4 = (Abort p, w')"
    by (auto simp: updateLB_def bind_io_Abort_iff loops lb_clients_return_def)
  obtain c4 where c4: "named lb_Name (lbs w4) n = {c4}" "lb_matches c4 specs atgs" "\<not> d4 \<Longrightarrow> c4 = c"
    by (rule updateLB_loops [OF laws wf one ty dl dt r a d t]) blast
  note addr = matches_firstAddress [OF c4(2) ne]
  show False
  proof (cases d4)
    case True
    with rest GetLbByName_not_Abort [OF ret, of ctx n w4] obtain x where
      again: "GetLbByName y ctx n w4 = (Ok x, w')" and "bind_outcome (deref x) firstAddress = Abort p"
      by (auto simp: bind_io_Abort_iff)
    with lb_lookup.find_named(2) [OF lb_law_list [OF laws] lb_law_many [OF laws] again] c4(1) addr
    show False by (cases x) auto
  qed (use rest c4(3) addr in auto)
qed

lemma CreateOrUpdateLB_not_Abort:
  assumes laws: "lb_service_laws y lbs" and ret: "lb_clients_return y" and ne: "specs \<noteq> []"
    and wf: "specs_wf specs" "attached_wf atgs"
  shows "CreateOrUpdateLB y ctx n specs atgs w \<noteq> (Abort p, w')"
proof
  assume run: "CreateOrUpdateLB y ctx n specs atgs w = (Abort p, w')"
  note create = createLB_not_Abort [OF laws ret ne]
  obtain r w1 where get: "GetLbByName y ctx n w = (r, w1)" by (cases "GetLbByName y ctx n w")
  note named = lb_lookup.find_named [OF lb_law_list [OF laws] lb_law_many [OF laws] get]
  show False
  proof (cases "r = Ok None \<or> (\<exists>e. r = Err e \<and> status_Code (libs y) e = codes_NotFound)")
    case True
    with get run create show False
      using CreateOrUpdateLB_absent [of y ctx n w w1 specs atgs] by auto
  next
    case False
    then obtain c where r: "r = Ok (Some c)"
      using run get CreateOrUpdateLB_error [of y ctx n w _ w1 specs atgs] GetLbByName_not_Abort [OF ret, of ctx n w]
      by (cases r) (auto split: option.splits)
    with named(1,2) have one: "named lb_Name (lbs w1) n = {c}" by simp
    have "safe (\<lambda>_. True) (OperationWaiter (cloudCtx y) ctx (LbDelete (lbs_LbSvc y) ctx (lb_Id c)))"
      using ret by (simp add: lb_clients_return_def)
    with get r run create updateLB_not_Abort [OF laws ret ne wf one] show False
      by (cases "lb_Type c = nlbTypeOf specs")
        (auto simp: CreateOrUpdateLB_update CreateOrUpdateLB_recreate bind_io_Abort_iff safe_not_Abort)
  qed
qed

text \<open>
  The laws speak of a cloud that nobody else changes. When somebody removes the target
  group between the update and the lookup that follows it, the lookup answers nil without
  an error and the code dereferences it.
\<close>

lemma CreateOrUpdateTG_vanished:
  assumes "GetTgByName y ctx n w = (Ok (Some tg), w1)"
    and "diffTargetGroupTargets (StringSet_List (libs y)) ts (tg_Targets tg) = (ta, tr)"
    and "send_if_any ta (OperationWaiter (cloudCtx y) ctx (TgAddTargets (lbs_TgSvc y) ctx (tg_Id tg) ta)) False w1 = (Ok d, w2)"
    and "send_if_any tr (OperationWaiter (cloudCtx y) ctx (TgRemoveTargets (lbs_TgSvc y) ctx (tg_Id tg) tr)) d w2 = (Ok True, w3)"
    and "GetTgByName y ctx n w3 = (Ok None, w4)"
  shows "CreateOrUpdateTG y ctx n ts w = (Abort NilDereference, w4)"
  using assms by (simp add: CreateOrUpdateTG_def attempt_io_OkI bind_io_OkI)

end
