(* ===== verification/Util.thy ===== *)
theory Util
  imports GoStd
begin

text \<open>
  \<open>pkg/cloudprovider/yandex/util.go\<close>: the region of a zone, and the two forms of a
  provider id. The regular expressions are written as the lists of literals and groups
  that they are, with a matcher that tries the longest group first, as Go's does.
\<close>

section \<open>Regions\<close>

definition GetRegion :: "string \<Rightarrow> string outcome" where
  "GetRegion zoneName =
     (let ix = strings_LastIndex zoneName (CHR ''-'')
      in if ix = -1 then Err (ErrUnexpectedInput zoneName) else Ok (take (nat ix) zoneName))"

lemma GetRegion_append: "CHR ''-'' \<notin> set ix \<Longrightarrow> GetRegion (region @ CHR ''-'' # ix) = Ok region"
  by (simp add: GetRegion_def LastIndex_last)

lemma GetRegion_Err_iff:
  "GetRegion z = Err e \<longleftrightarrow> CHR ''-'' \<notin> set z \<and> e = ErrUnexpectedInput z"
  by (auto simp: GetRegion_def Let_def LastIndex_minus1_iff)

lemma GetRegion_Ok_iff:
  "GetRegion z = Ok r \<longleftrightarrow> (\<exists>ix. z = r @ ''-'' @ ix \<and> CHR ''-'' \<notin> set ix)"
proof
  assume *: "GetRegion z = Ok r"
  then have "CHR ''-'' \<in> set z" by (auto simp: GetRegion_def Let_def LastIndex_minus1_iff split: if_splits)
  then obtain a b where z: "z = a @ CHR ''-'' # b" and b: "CHR ''-'' \<notin> set b"
    by (metis split_list_last)
  then have "GetRegion z = Ok a" using GetRegion_append [of b a] by simp
  with * z b show "\<exists>ix. z = r @ ''-'' @ ix \<and> CHR ''-'' \<notin> set ix" by auto
qed (auto simp: GetRegion_append)

lemma GetRegion_not_Abort [simp]: "GetRegion z \<noteq> Abort p"
  by (simp add: GetRegion_def Let_def)

section \<open>The regular expressions of this program\<close>

text \<open>
  An anchored expression \<open>^...$\<close> of literals and groups \<open>([class]+)\<close>. A match is the list
  of what the groups matched.
\<close>

datatype rx_item = Lit string | Group "char \<Rightarrow> bool"

fun first_some :: "('a \<Rightarrow> 'b option) \<Rightarrow> 'a list \<Rightarrow> 'b option" where
  "first_some f [] = None"
| "first_some f (x # xs) = (case f x of None \<Rightarrow> first_some f xs | Some y \<Rightarrow> Some y)"

definition longest_first :: "nat \<Rightarrow> nat list" where
  "longest_first n = rev [1..<Suc n]"

primrec rx_match :: "rx_item list \<Rightarrow> string \<Rightarrow> string list option" where
  "rx_match [] = (\<lambda>s. if s = [] then Some [] else None)"
| "rx_match (it # r) = (\<lambda>s. case it of
     Lit l \<Rightarrow> if strings_HasPrefix s l then rx_match r (drop (length l) s) else None
   | Group p \<Rightarrow>
       first_some (\<lambda>k. map_option (Cons (take k s)) (rx_match r (drop k s)))
         (longest_first (length (takeWhile p s))))"

text \<open>What the expression means: a decomposition of the string.\<close>

fun rx_lang :: "rx_item list \<Rightarrow> string \<Rightarrow> string list \<Rightarrow> bool" where
  "rx_lang [] s gs = (s = [] \<and> gs = [])"
| "rx_lang (Lit l # r) s gs = (\<exists>t. s = l @ t \<and> rx_lang r t gs)"
| "rx_lang (Group p # r) s gs =
     (\<exists>g t gs'. g \<noteq> [] \<and> list_all p g \<and> s = g @ t \<and> gs = g # gs' \<and> rx_lang r t gs')"

lemma first_some_Some: "first_some f xs = Some y \<Longrightarrow> \<exists>x\<in>set xs. f x = Some y"
  by (induction xs) (auto split: option.splits)

lemma first_some_None: "first_some f xs = None \<longleftrightarrow> (\<forall>x\<in>set xs. f x = None)"
  by (induction xs) (auto split: option.splits)

lemma set_longest_first [simp]: "set (longest_first n) = {1..n}"
  by (auto simp: longest_first_def)

lemma take_takeWhile: "k \<le> length (takeWhile p s) \<Longrightarrow> list_all p (take k s)"
proof -
  assume "k \<le> length (takeWhile p s)"
  then have "take k s = take k (takeWhile p s)"
    by (metis takeWhile_dropWhile_id take_append diff_is_0_eq' take0 append_Nil2)
  then show ?thesis by (auto simp: list_all_iff dest!: in_set_takeD set_takeWhileD)
qed

lemma takeWhile_prefix_len: "list_all p g \<Longrightarrow> length g \<le> length (takeWhile p (g @ t))"
  by (induction g) auto

lemma rx_match_sound: "rx_match items s = Some gs \<Longrightarrow> rx_lang items s gs"
proof (induction items arbitrary: s gs)
  case Nil
  then show ?case by (simp split: if_splits)
next
  case (Cons it r)
  show ?case
  proof (cases it)
    case (Lit l)
    with Cons.prems have "strings_HasPrefix s l" "rx_match r (drop (length l) s) = Some gs"
      by (auto split: if_splits)
    with Cons.IH Lit show ?thesis
      by (auto simp: strings_HasPrefix_def intro!: exI [of _ "drop (length l) s"])
        (metis append_take_drop_id)
  next
    case (Group p)
    with Cons.prems obtain k gs' where k: "1 \<le> k" "k \<le> length (takeWhile p s)"
      and m: "rx_match r (drop k s) = Some gs'" "gs = take k s # gs'"
      by (auto dest!: first_some_Some)
    from k(2) have "k \<le> length s" using length_takeWhile_le le_trans by blast
    with k have ne: "take k s \<noteq> []" by auto
    have "rx_lang (Group p # r) s gs"
      unfolding rx_lang.simps
      by (rule exI [of _ "take k s"], rule exI [of _ "drop k s"], rule exI [of _ gs'])
        (use ne m Cons.IH take_takeWhile [OF k(2)] in auto)
    with Group show ?thesis by simp
  qed
qed

lemma rx_match_complete: "rx_lang items s gs \<Longrightarrow> rx_match items s \<noteq> None"
proof (induction items arbitrary: s gs)
  case Nil
  then show ?case by simp
next
  case (Cons it r)
  show ?case
  proof (cases it)
    case (Lit l)
    with Cons.prems obtain t where "s = l @ t" "rx_lang r t gs" by auto
    with Cons.IH [of t gs] Lit show ?thesis by (auto simp: strings_HasPrefix_def)
  next
    case (Group p)
    with Cons.prems obtain g t gs' where g: "g \<noteq> []" "list_all p g" "s = g @ t" "rx_lang r t gs'"
      by auto
    then have "length g \<in> set (longest_first (length (takeWhile p s)))"
      using takeWhile_prefix_len [of p g t] by (cases g) auto
    moreover have "map_option (Cons (take (length g) s)) (rx_match r (drop (length g) s)) \<noteq> None"
      using g Cons.IH [of t gs'] by simp
    ultimately show ?thesis using Group by (auto simp: first_some_None simp del: set_longest_first)
  qed
qed

section \<open>Provider ids\<close>

definition providerName :: string where
  "providerName = ''yandex''"

definition not_slash :: "char \<Rightarrow> bool" where
  "not_slash c = (c \<noteq> CHR ''/'')"

text \<open>Go's \<open>.\<close> does not match a newline.\<close>

definition rx_dot :: "char \<Rightarrow> bool" where
  "rx_dot c = (c \<noteq> CHR 0x0A)"

definition deprecatedRegExpProviderID :: "rx_item list" where
  "deprecatedRegExpProviderID =
     [Lit (providerName @ ''://''), Group not_slash, Lit ''/'', Group not_slash, Lit ''/'', Group not_slash]"

definition regExpProviderID :: "rx_item list" where
  "regExpProviderID = [Lit (providerName @ ''://''), Group rx_dot]"

definition ParseProviderID :: "string \<Rightarrow> (string \<times> bool) outcome" where
  "ParseProviderID providerID =
     (case rx_match deprecatedRegExpProviderID providerID of
        Some deprecatedMatches \<Rightarrow> Ok (deprecatedMatches ! 2, False)
      | None \<Rightarrow>
          (case rx_match regExpProviderID providerID of
             Some matches \<Rightarrow> Ok (matches ! 0, True)
           | None \<Rightarrow> Err (ErrParseProviderID providerID)))"

definition MapNodeNameToInstanceName :: "string \<Rightarrow> string" where
  "MapNodeNameToInstanceName nodeName = nodeName"

lemma list_all_not_slash: "list_all not_slash g \<longleftrightarrow> CHR ''/'' \<notin> set g"
  by (auto simp: list_all_iff not_slash_def)

lemma list_all_rx_dot: "list_all rx_dot g \<longleftrightarrow> CHR 0x0A \<notin> set g"
  by (auto simp: list_all_iff rx_dot_def)

text \<open>The parts of a deprecated id are determined by the id.\<close>

definition deprecated_id :: "string \<Rightarrow> string \<Rightarrow> string \<Rightarrow> string" where
  "deprecated_id folder zone name = providerName @ ''://'' @ folder @ ''/'' @ zone @ ''/'' @ name"

definition id_part :: "string \<Rightarrow> bool" where
  "id_part p \<longleftrightarrow> p \<noteq> [] \<and> CHR ''/'' \<notin> set p"

lemma deprecated_lang_iff:
  "rx_lang deprecatedRegExpProviderID s gs \<longleftrightarrow>
     (\<exists>a b c. gs = [a, b, c] \<and> s = deprecated_id a b c \<and> id_part a \<and> id_part b \<and> id_part c)"
  by (auto simp: deprecatedRegExpProviderID_def deprecated_id_def id_part_def list_all_not_slash)

lemma deprecated_id_inj:
  assumes "deprecated_id a b c = deprecated_id a' b' c'"
    and "id_part a" "id_part b" "id_part a'" "id_part b'"
  shows "a = a' \<and> b = b' \<and> c = c'"
proof -
  from assms(1) have 1: "a @ CHR ''/'' # b @ CHR ''/'' # c = a' @ CHR ''/'' # b' @ CHR ''/'' # c'"
    by (simp add: deprecated_id_def)
  have "a = a' \<and> b @ CHR ''/'' # c = b' @ CHR ''/'' # c'"
    by (rule split_at_first [OF 1]) (use assms in \<open>auto simp: id_part_def\<close>)
  moreover from this have "b = b' \<and> c = c'"
    by (intro split_at_first [where c = "CHR ''/''"]) (use assms in \<open>auto simp: id_part_def\<close>)
  ultimately show ?thesis by simp
qed

lemma match_deprecated:
  assumes "id_part a" "id_part b" "id_part c"
  shows "rx_match deprecatedRegExpProviderID (deprecated_id a b c) = Some [a, b, c]"
proof -
  have "rx_lang deprecatedRegExpProviderID (deprecated_id a b c) [a, b, c]"
    using assms by (auto simp: deprecated_lang_iff)
  then obtain gs where gs: "rx_match deprecatedRegExpProviderID (deprecated_id a b c) = Some gs"
    using rx_match_complete by blast
  then obtain a' b' c' where "gs = [a', b', c']" "deprecated_id a b c = deprecated_id a' b' c'"
    "id_part a'" "id_part b'"
    by (auto dest!: rx_match_sound simp: deprecated_lang_iff)
  with assms gs deprecated_id_inj [of a b c a' b' c'] show ?thesis by simp
qed

lemma match_current:
  "rx_match regExpProviderID s =
     (if \<exists>i. s = providerName @ ''://'' @ i \<and> i \<noteq> [] \<and> CHR 0x0A \<notin> set i
      then Some [drop (length (providerName @ ''://'')) s] else None)"
proof -
  have lang: "rx_lang regExpProviderID s gs \<longleftrightarrow>
      (\<exists>i. gs = [i] \<and> s = providerName @ ''://'' @ i \<and> i \<noteq> [] \<and> CHR 0x0A \<notin> set i)" for gs
    by (auto simp: regExpProviderID_def list_all_rx_dot)
  show ?thesis
  proof (cases "rx_match regExpProviderID s")
    case None
    then have "\<not> rx_lang regExpProviderID s [i]" for i using rx_match_complete by blast
    with None lang show ?thesis by simp
  next
    case (Some gs)
    from rx_match_sound [OF this] lang obtain i where i: "gs = [i]" "s = providerName @ ''://'' @ i"
      and "i \<noteq> [] \<and> CHR 0x0A \<notin> set i" by blast
    then have "\<exists>i. s = providerName @ ''://'' @ i \<and> i \<noteq> [] \<and> CHR 0x0A \<notin> set i" by blast
    moreover from i(2) have "drop (length (providerName @ ''://'')) s = i" by simp
    ultimately show ?thesis using Some i(1) by simp
  qed
qed

text \<open>The two ways a parse can go.\<close>

definition deprecated_body :: "string \<Rightarrow> bool" where
  "deprecated_body i \<longleftrightarrow> (\<exists>f z m. i = f @ ''/'' @ z @ ''/'' @ m \<and> id_part f \<and> id_part z \<and> id_part m)"

definition is_deprecated :: "string \<Rightarrow> bool" where
  "is_deprecated s \<longleftrightarrow> (\<exists>i. s = providerName @ ''://'' @ i \<and> deprecated_body i)"

lemma is_deprecated_iff:
  "is_deprecated s \<longleftrightarrow> (\<exists>f z m. s = deprecated_id f z m \<and> id_part f \<and> id_part z \<and> id_part m)"
  unfolding is_deprecated_def deprecated_body_def deprecated_id_def by blast

lemma is_deprecated_body: "is_deprecated (providerName @ ''://'' @ i) \<longleftrightarrow> deprecated_body i"
  by (simp add: is_deprecated_def)

lemma parse_deprecated:
  "id_part f \<Longrightarrow> id_part z \<Longrightarrow> id_part m \<Longrightarrow> ParseProviderID (deprecated_id f z m) = Ok (m, False)"
  by (simp add: ParseProviderID_def match_deprecated)

lemma parse_deprecated_name: "is_deprecated s \<Longrightarrow> \<exists>m. ParseProviderID s = Ok (m, False)"
  unfolding is_deprecated_iff using parse_deprecated by blast

lemma parse_other:
  assumes "\<not> is_deprecated s"
  shows "ParseProviderID s = (if \<exists>i. s = providerName @ ''://'' @ i \<and> i \<noteq> [] \<and> CHR 0x0A \<notin> set i
      then Ok (drop (length (providerName @ ''://'')) s, True) else Err (ErrParseProviderID s))"
proof -
  from assms have "rx_match deprecatedRegExpProviderID s = None"
    using rx_match_sound [of deprecatedRegExpProviderID s] deprecated_lang_iff [of s]
    unfolding is_deprecated_iff by (cases "rx_match deprecatedRegExpProviderID s") auto
  then show ?thesis by (auto simp: ParseProviderID_def match_current)
qed

lemma parse_name_iff:
  "ParseProviderID s = Ok (n, False) \<longleftrightarrow>
     (\<exists>f z. s = deprecated_id f z n \<and> id_part f \<and> id_part z \<and> id_part n)"
proof
  assume run: "ParseProviderID s = Ok (n, False)"
  then have "is_deprecated s" using parse_other [of s] by (cases "is_deprecated s") (auto split: if_splits)
  then obtain f z m where s: "s = deprecated_id f z m" "id_part f" "id_part z" "id_part m"
    unfolding is_deprecated_iff by blast
  with parse_deprecated [OF s(2-4)] run have "m = n" by simp
  with s show "\<exists>f z. s = deprecated_id f z n \<and> id_part f \<and> id_part z \<and> id_part n" by blast
qed (auto intro: parse_deprecated)

lemma parse_id_iff:
  "ParseProviderID s = Ok (i, True) \<longleftrightarrow>
     s = providerName @ ''://'' @ i \<and> i \<noteq> [] \<and> CHR 0x0A \<notin> set i \<and> \<not> deprecated_body i"
proof (cases "is_deprecated s")
  case True
  then have "ParseProviderID s \<noteq> Ok (i, True)" using parse_deprecated_name by fastforce
  with True show ?thesis using is_deprecated_body [of i] by blast
next
  case False
  show ?thesis
  proof
    assume "ParseProviderID s = Ok (i, True)"
    then obtain j where j: "s = providerName @ ''://'' @ j" "j \<noteq> []" "CHR 0x0A \<notin> set j"
      and "i = drop (length (providerName @ ''://'')) s"
      unfolding parse_other [OF False] by (auto split: if_splits simp del: append_assoc length_append)
    then have "i = j" by simp
    with j False show "s = providerName @ ''://'' @ i \<and> i \<noteq> [] \<and> CHR 0x0A \<notin> set i \<and> \<not> deprecated_body i"
      using is_deprecated_body [of i] by blast
  next
    assume i: "s = providerName @ ''://'' @ i \<and> i \<noteq> [] \<and> CHR 0x0A \<notin> set i \<and> \<not> deprecated_body i"
    then have "drop (length (providerName @ ''://'')) s = i" by simp
    with i show "ParseProviderID s = Ok (i, True)" unfolding parse_other [OF False] by auto
  qed
qed

lemma parse_Err_iff:
  "ParseProviderID s = Err e \<longleftrightarrow> e = ErrParseProviderID s \<and>
     \<not> (\<exists>i. s = providerName @ ''://'' @ i \<and> i \<noteq> [] \<and> (CHR 0x0A \<notin> set i \<or> deprecated_body i))"
proof (cases "is_deprecated s")
  case True
  then obtain i where i: "s = providerName @ ''://'' @ i" "deprecated_body i" by (auto simp: is_deprecated_def)
  then have "i \<noteq> []" by (auto simp: deprecated_body_def)
  moreover have "ParseProviderID s \<noteq> Err e" using parse_deprecated_name [OF True] by auto
  ultimately show ?thesis using i by blast
next
  case False
  then have "\<not> deprecated_body i" if "s = providerName @ ''://'' @ i" for i
    using that by (auto simp: is_deprecated_def)
  then show ?thesis unfolding parse_other [OF False] by (simp split: if_split) blast
qed

lemma parse_not_Abort: "ParseProviderID s \<noteq> Abort p"
  by (simp add: ParseProviderID_def split: option.split)

section \<open>Properties\<close>

text \<open>C38: 
  \<open>ParseProviderID\<close> decides the three cases exactly: an id of the deprecated form
  \<open>yandex://folder/zone/name\<close> (no part empty) is its name and not an instance id; any
  other id \<open>yandex://...\<close> whose rest is not empty and holds no newline is an instance id,
  the whole rest; everything else is the one error. So the parse is total, never aborts,
  and reads back what either form was made from.
\<close>

theorem ParseProviderID_spec:
  "(ParseProviderID s = Ok (n, False) \<longleftrightarrow>
      (\<exists>folder zone. s = providerName @ ''://'' @ folder @ ''/'' @ zone @ ''/'' @ n \<and>
         id_part folder \<and> id_part zone \<and> id_part n)) \<and>
   (ParseProviderID s = Ok (i, True) \<longleftrightarrow>
      s = providerName @ ''://'' @ i \<and> i \<noteq> [] \<and> CHR 0x0A \<notin> set i \<and> \<not> deprecated_body i) \<and>
   (ParseProviderID s = Err e \<longleftrightarrow> e = ErrParseProviderID s \<and>
      \<not> (\<exists>i. s = providerName @ ''://'' @ i \<and> i \<noteq> [] \<and>
           (CHR 0x0A \<notin> set i \<or> deprecated_body i))) \<and>
   (\<forall>p. ParseProviderID s \<noteq> Abort p)"
  by (intro conjI allI parse_name_iff [unfolded deprecated_id_def] parse_id_iff parse_Err_iff parse_not_Abort)

theorem ParseProviderID_spec_witness:
  "ParseProviderID ''yandex://f/z/n'' = Ok (''n'', False)"
proof (rule ParseProviderID_spec [THEN conjunct1, THEN iffD2], intro exI conjI)
  show "''yandex://f/z/n'' = providerName @ ''://'' @ ''f'' @ ''/'' @ ''z'' @ ''/'' @ ''n''"
    by (simp add: providerName_def)
qed (simp_all add: id_part_def)

end
