(* ===== verification/Provider.thy ===== *)
theory Provider
  imports YandexApi Util
begin

text \<open>
  \<open>pkg/cloudprovider/yandex/cloud.go\<close> and \<open>metadata.go\<close>: reading the configuration from
  the environment and the instance metadata, the \<open>Cloud\<close> object, its shared state, and
  which provider interfaces it offers. The environment, the HTTP client, the parsing of
  the service account key and the informers are parameters.
\<close>

section \<open>The instance metadata service\<close>

record http_request =
  hq_Method :: string
  hq_Url :: string
  hq_Header :: "string \<rightharpoonup> string"

record http_response =
  hr_StatusCode :: int
  hr_Body :: string

text \<open>
  The parts of \<open>net/http\<close> and \<open>io\<close> that the service calls: making a request, sending it,
  and reading a body (named by a handle) to its end.
\<close>

record 'w http_client =
  hc_NewRequest :: "string \<Rightarrow> string \<Rightarrow> http_request outcome"
  hc_Do :: "http_request \<Rightarrow> ('w, http_response) io"
  hc_ReadAll :: "string \<Rightarrow> ('w, string) io"

record 'w MetadataService =
  metadataURL :: string
  httpClient :: "'w http_client"

definition NewMetadataServiceWithURL :: "'w http_client \<Rightarrow> string \<Rightarrow> 'w MetadataService" where
  "NewMetadataServiceWithURL client url = \<lparr>metadataURL = url, httpClient = client\<rparr>"

definition NewMetadataService :: "'w http_client \<Rightarrow> 'w MetadataService" where
  "NewMetadataService client = NewMetadataServiceWithURL client ''http://169.254.169.254''"

definition userAgent :: string where
  "userAgent = ''golang/yandex-cloud-controller-manager''"

definition Metadata_Get :: "'w MetadataService \<Rightarrow> string \<Rightarrow> ('w, string) io" where
  "Metadata_Get m suffix =
     (let url = metadataURL m @ ''/computeMetadata/v1/'' @ suffix in
      bind_io (lift_outcome (hc_NewRequest (httpClient m) ''GET'' url)) (\<lambda>req.
      bind_io (hc_Do (httpClient m) (req\<lparr>hq_Header :=
          (hq_Header req)(''Metadata-Flavor'' \<mapsto> ''Google'', ''User-Agent'' \<mapsto> userAgent)\<rparr>)) (\<lambda>res.
      if hr_StatusCode res \<noteq> 200 then fail_io (ErrHttpStatus url (hr_StatusCode res))
      else bind_io (hc_ReadAll (httpClient m) (hr_Body res)) return_io)))"

definition GetFolderID :: "'w MetadataService \<Rightarrow> ('w, string) io" where
  "GetFolderID m =
     bind_io (Metadata_Get m ''instance/zone'') (\<lambda>result.
     let parts = strings_Split result (CHR ''/'') in
     if length parts \<noteq> 4 then fail_io (ErrUnexpectedInput result)
     else return_io (parts ! 1))"

definition Metadata_GetZone :: "'w MetadataService \<Rightarrow> ('w, string) io" where
  "Metadata_GetZone m =
     bind_io (Metadata_Get m ''instance/zone'') (\<lambda>result.
     let zone = strings_LastIndex result (CHR ''/'') in
     if zone = -1 then fail_io (ErrUnexpectedInput result)
     else return_io (drop (nat (zone + 1)) result))"

section \<open>The configuration\<close>

text \<open>The environment variables.\<close>

definition envClusterName :: string where
  "envClusterName = ''YANDEX_CLUSTER_NAME''"

definition envRouteTableID :: string where
  "envRouteTableID = ''YANDEX_CLOUD_ROUTE_TABLE_ID''"

definition envServiceAccountJSON :: string where
  "envServiceAccountJSON = ''YANDEX_CLOUD_SERVICE_ACCOUNT_JSON''"

definition envFolderID :: string where
  "envFolderID = ''YANDEX_CLOUD_FOLDER_ID''"

definition envLbListenerSubnetID :: string where
  "envLbListenerSubnetID = ''YANDEX_CLOUD_DEFAULT_LB_LISTENER_SUBNET_ID''"

definition envLbTgNetworkID :: string where
  "envLbTgNetworkID = ''YANDEX_CLOUD_DEFAULT_LB_TARGET_GROUP_NETWORK_ID''"

definition envInternalNetworkIDs :: string where
  "envInternalNetworkIDs = ''YANDEX_CLOUD_INTERNAL_NETWORK_IDS''"

definition envExternalNetworkIDs :: string where
  "envExternalNetworkIDs = ''YANDEX_CLOUD_EXTERNAL_NETWORK_IDS''"

text \<open>Credentials are made by the SDK and handed back to it: an opaque token.\<close>

datatype credentials = Credentials string

record CloudConfig =
  ClusterName :: string
  lbListenerSubnetID :: string
  lbTgNetworkID :: string
  cfg_FolderID :: string
  LocalRegion :: string
  LocalZone :: string
  RouteTableID :: string
  InternalNetworkIDsSet :: "string set"
  ExternalNetworkIDsSet :: "string set"
  cfg_Credentials :: credentials

definition networkIDs :: "string \<Rightarrow> string set" where
  "networkIDs value =
     (if length value > 0 then foldl (\<lambda>s networkID. insert networkID s) {} (strings_Split value (CHR '',''))
      else {})"

text \<open>
  \<open>getenv\<close> is \<open>os.Getenv\<close> (empty for an unset variable); \<open>unmarshal\<close> and \<open>accountKey\<close> are
  \<open>json.Unmarshal\<close> into a key and \<open>ycsdk.ServiceAccountKey\<close>. \<open>log.Fatalf\<close> ends the process.
\<close>

definition retrieveFolderID :: "(string \<Rightarrow> string) \<Rightarrow> 'w MetadataService \<Rightarrow> ('w, string) io" where
  "retrieveFolderID getenv metadata =
     (if getenv envFolderID = []
      then bind_io (attempt_io (GetFolderID metadata)) (\<lambda>r.
           case r of Inl err \<Rightarrow> fail_io (ErrFolderIDMetadata err)
                   | Inr folderID \<Rightarrow> return_io folderID)
      else return_io (getenv envFolderID))"

definition cloudConfigOf :: "(string \<Rightarrow> string) \<Rightarrow> credentials \<Rightarrow> string \<Rightarrow> CloudConfig outcome" where
  "cloudConfigOf getenv creds folderID =
     (let clusterName = getenv envClusterName in
      if length clusterName = 0 then Abort (LogFatal envClusterName) else
      let tgNetworkID = getenv envLbTgNetworkID in
      if length tgNetworkID = 0
      then Abort (LogFatal envLbTgNetworkID) else
      let localZone = ''ru-central1-b'' in
      case GetRegion localZone of
        Abort p \<Rightarrow> Abort p
      | Err err \<Rightarrow> Err (ErrRegionFromZone localZone err)
      | Ok localRegion \<Rightarrow>
          Ok \<lparr>ClusterName = clusterName,
            lbListenerSubnetID = getenv envLbListenerSubnetID,
            lbTgNetworkID = tgNetworkID, cfg_FolderID = folderID,
            LocalRegion = localRegion, LocalZone = localZone,
            RouteTableID = getenv envRouteTableID,
            InternalNetworkIDsSet = networkIDs (getenv envInternalNetworkIDs),
            ExternalNetworkIDsSet = networkIDs (getenv envExternalNetworkIDs),
            cfg_Credentials = creds\<rparr>)"

definition NewCloudConfig ::
  "(string \<Rightarrow> string) \<Rightarrow> (string \<Rightarrow> 'k outcome) \<Rightarrow> ('k \<Rightarrow> credentials outcome) \<Rightarrow>
   'w http_client \<Rightarrow> ('w, CloudConfig) io" where
  "NewCloudConfig getenv unmarshal accountKey client =
     (let metadata = NewMetadataService client;
          saJSON = getenv envServiceAccountJSON in
      if saJSON = [] then fail_io (ErrEnvRequired envServiceAccountJSON) else
      case unmarshal saJSON of
        Abort p \<Rightarrow> lift_outcome (Abort p)
      | Err err \<Rightarrow> fail_io (ErrMalformedServiceAccount err)
      | Ok iamKey \<Rightarrow>
      case accountKey iamKey of
        Abort p \<Rightarrow> lift_outcome (Abort p)
      | Err err \<Rightarrow> fail_io (ErrInvalidCredentials err)
      | Ok creds \<Rightarrow>
      bind_io (retrieveFolderID getenv metadata) (\<lambda>folderID.
      lift_outcome (cloudConfigOf getenv creds folderID)))"

section \<open>The Cloud object\<close>

record 'w Cloud =
  yandexService :: "'w YandexCloudAPI"
  config :: CloudConfig

text \<open>
  The syncer of \<open>load_balancer_tg_controller.go\<close>. Its mutex is held over whole calls, so the
  calls that it guards are single steps, and its back pointer to the \<open>Cloud\<close> is the argument
  of its operations.
\<close>

record NodeTargetGroupSyncer =
  lastVisitedNodes :: "string set"
  serviceLister :: lister

text \<open>
  The variables of the process: the state of the clients, the two fields of \<open>Cloud\<close> that
  \<open>Initialize\<close> sets (nil before) and the lock of the route operations.
\<close>

record 'w cloud_state =
  world :: 'w
  nodeTargetGroupSyncer :: "NodeTargetGroupSyncer option"
  nodeLister :: "lister option"
  routeAPILock :: bool

definition visited_nodes :: "'w cloud_state \<Rightarrow> string set option" where
  "visited_nodes s = map_option lastVisitedNodes (nodeTargetGroupSyncer s)"

definition on_world :: "('w, 'a) io \<Rightarrow> ('w cloud_state, 'a) io" where
  "on_world m = (\<lambda>s. case m (world s) of (r, w) \<Rightarrow> (r, s\<lparr>world := w\<rparr>))"

definition NewCloud :: "CloudConfig \<Rightarrow> 'w YandexCloudAPI \<Rightarrow> 'w Cloud" where
  "NewCloud cfg api = \<lparr>yandexService = api, config = cfg\<rparr>"

definition new_cloud_state :: "'w \<Rightarrow> 'w cloud_state" where
  "new_cloud_state w =
     \<lparr>world = w, nodeTargetGroupSyncer = None, nodeLister = None, routeAPILock = False\<rparr>"

text \<open>The function that \<open>init\<close> registers under the provider's name.\<close>

definition newProvider ::
  "'w packages \<Rightarrow> ('w, CloudConfig) io \<Rightarrow> (credentials \<Rightarrow> ('w ycsdk) outcome) \<Rightarrow> ('w, 'w Cloud) io" where
  "newProvider lib newConfig ycsdk_Build =
     bind_io newConfig (\<lambda>cfg.
     bind_io (lift_outcome (NewYandexCloudAPI lib ycsdk_Build (cfg_Credentials cfg) (LocalRegion cfg) (cfg_FolderID cfg)))
       (\<lambda>api. return_io (NewCloud cfg api)))"

text \<open>
  What \<open>Initialize\<close> uses of \<open>client-go\<close>: the client builder, the two informers of a shared
  factory with its resync period in seconds, their listers, starting one in a goroutine
  (which returns at once) and waiting for its cache.
\<close>

record ('w, 'cs, 'i) informer_api =
  ClientOrDie :: "string \<Rightarrow> ('w, 'cs) io"
  ServicesInformer :: "'cs \<Rightarrow> int \<Rightarrow> 'i"
  NodesInformer :: "'cs \<Rightarrow> int \<Rightarrow> 'i"
  InformerLister :: "'i \<Rightarrow> lister"
  GoInformerRun :: "'i \<Rightarrow> ('w, unit) io"
  WaitForCacheSync :: "'i \<Rightarrow> ('w, bool) io"

definition setListers :: "lister \<Rightarrow> lister \<Rightarrow> ('w cloud_state, unit) io" where
  "setListers services nodes =
     (\<lambda>s. (Ok (), s\<lparr>nodeTargetGroupSyncer := Some \<lparr>lastVisitedNodes = {}, serviceLister = services\<rparr>,
        nodeLister := Some nodes\<rparr>))"

definition waitForCache :: "('w, 'cs, 'i) informer_api \<Rightarrow> 'i \<Rightarrow> ('w, unit) io" where
  "waitForCache k informer =
     bind_io (WaitForCacheSync k informer) (\<lambda>synced.
     if \<not> synced then lift_outcome (Abort (LogFatal ''Timed out waiting for caches to sync''))
     else return_io ())"

definition Initialize :: "('w, 'cs, 'i) informer_api \<Rightarrow> ('w cloud_state, unit) io" where
  "Initialize k =
     bind_io (on_world (ClientOrDie k ''cloud-controller-manager'')) (\<lambda>clientset.
     let serviceInformer = ServicesInformer k clientset 30;
         nodeInformer = NodesInformer k clientset 30 in
     bind_io (setListers (InformerLister k serviceInformer) (InformerLister k nodeInformer)) (\<lambda>_.
     bind_io (on_world (GoInformerRun k serviceInformer)) (\<lambda>_.
     bind_io (on_world (GoInformerRun k nodeInformer)) (\<lambda>_.
     bind_io (on_world (waitForCache k serviceInformer)) (\<lambda>_.
     on_world (waitForCache k nodeInformer))))))"

definition Cloud_Clusters :: "'w Cloud \<Rightarrow> ('w Cloud) option \<times> bool" where
  "Cloud_Clusters yc = (None, False)"

definition Cloud_InstancesV2 :: "'w Cloud \<Rightarrow> ('w Cloud) option \<times> bool" where
  "Cloud_InstancesV2 yc = (None, False)"

definition Cloud_LoadBalancer :: "'w Cloud \<Rightarrow> ('w Cloud) option \<times> bool" where
  "Cloud_LoadBalancer yc = (Some yc, True)"

definition Cloud_Instances :: "'w Cloud \<Rightarrow> ('w Cloud) option \<times> bool" where
  "Cloud_Instances yc = (Some yc, True)"

definition Cloud_Zones :: "'w Cloud \<Rightarrow> ('w Cloud) option \<times> bool" where
  "Cloud_Zones yc = (Some yc, True)"

definition Cloud_Routes :: "'w Cloud \<Rightarrow> ('w Cloud) option \<times> bool" where
  "Cloud_Routes yc = (if length (RouteTableID (config yc)) = 0 then (None, False) else (Some yc, True))"

definition ProviderName :: "'w Cloud \<Rightarrow> string" where
  "ProviderName yc = providerName"

definition HasClusterID :: "'w Cloud \<Rightarrow> bool" where
  "HasClusterID yc = True"

definition yandexCloudProviderName :: string where
  "yandexCloudProviderName = ''yandex''"

text \<open>
  \<open>cloudInitializer\<close> of \<open>cmd/yandex-cloud-controller-manager/main.go\<close>; \<open>initProvider\<close> is
  \<open>cloudprovider.InitCloudProvider\<close>, which may answer nil.
\<close>

definition cloudInitializer ::
  "(string \<Rightarrow> string \<Rightarrow> ('w, ('w Cloud) option) io) \<Rightarrow> string \<Rightarrow> string \<Rightarrow> bool \<Rightarrow> ('w, 'w Cloud) io" where
  "cloudInitializer initProvider configName configFile allowUntagged =
     (let name = (if configName = [] then yandexCloudProviderName else configName) in
      bind_io (attempt_io (initProvider name configFile)) (\<lambda>r.
      case r of
        Inl err \<Rightarrow> lift_outcome (Abort (LogFatal ''Cloud provider could not be initialized''))
      | Inr None \<Rightarrow> lift_outcome (Abort (LogFatal ''Cloud provider is nil''))
      | Inr (Some cloud) \<Rightarrow>
          if \<not> HasClusterID cloud then
            (if allowUntagged then return_io cloud
             else lift_outcome (Abort (LogFatal ''no ClusterID found'')))
          else return_io cloud))"

text \<open>
  \<open>main\<close>: \<open>newOptions\<close> is \<open>options.NewCloudControllerManagerOptions\<close>, \<open>execute\<close> runs the
  command that \<open>app.NewCloudControllerManagerCommand\<close> builds of them and of
  \<open>cloudInitializer\<close>.
\<close>

definition ccm_main :: "('w, 'o) io \<Rightarrow> ('o \<Rightarrow> ('w, unit) io) \<Rightarrow> ('w, unit) io" where
  "ccm_main newOptions execute =
     bind_io (attempt_io newOptions) (\<lambda>r.
     case r of
       Inl err \<Rightarrow> lift_outcome (Abort (LogFatal ''unable to initialize command options''))
     | Inr opts \<Rightarrow>
         bind_io (attempt_io (execute opts)) (\<lambda>r.
         case r of Inl err \<Rightarrow> lift_outcome (Abort (OsExit 1)) | Inr _ \<Rightarrow> return_io ()))"

section \<open>Calls on the world\<close>

lemma on_world_run: "on_world m s = (fst (m (world s)), s\<lparr>world := snd (m (world s))\<rparr>)"
  by (simp add: on_world_def case_prod_unfold)

lemma on_world_Ok_iff [io_inv]:
  "on_world m s = (Ok x, s') \<longleftrightarrow> (\<exists>w'. m (world s) = (Ok x, w') \<and> s' = s\<lparr>world := w'\<rparr>)"
  by (auto simp: on_world_def split: prod.split)

lemma on_world_eq_iff:
  "on_world m s = (r, s') \<longleftrightarrow> (\<exists>w'. m (world s) = (r, w') \<and> s' = s\<lparr>world := w'\<rparr>)"
  by (auto simp: on_world_def split: prod.split)

lemma on_world_frame [simp]:
  "nodeTargetGroupSyncer (snd (on_world m s)) = nodeTargetGroupSyncer s"
  "nodeLister (snd (on_world m s)) = nodeLister s"
  "routeAPILock (snd (on_world m s)) = routeAPILock s"
  by (simp_all add: on_world_run)

lemma visited_nodes_simps [simp]:
  "visited_nodes (s\<lparr>world := w\<rparr>) = visited_nodes s"
  "visited_nodes (s\<lparr>nodeTargetGroupSyncer := p\<rparr>) = map_option lastVisitedNodes p"
  "visited_nodes (snd (on_world m s)) = visited_nodes s"
  by (simp_all add: visited_nodes_def)

lemma visited_nodes_Some_iff:
  "visited_nodes s = Some v \<longleftrightarrow> (\<exists>n. nodeTargetGroupSyncer s = Some n \<and> lastVisitedNodes n = v)"
  by (auto simp: visited_nodes_def)

lemma visited_nodes_None_iff [simp]: "visited_nodes s = None \<longleftrightarrow> nodeTargetGroupSyncer s = None"
  by (simp add: visited_nodes_def)

section \<open>Facts about the configuration\<close>

lemma networkIDs_eq: "v \<noteq> [] \<Longrightarrow> networkIDs v = set (strings_Split v (CHR '',''))"
proof -
  have *: "foldl (\<lambda>s n. insert n s) S xs = S \<union> set xs" for S and xs :: "string list"
    by (induction xs arbitrary: S) auto
  show "v \<noteq> [] \<Longrightarrow> ?thesis" by (simp add: networkIDs_def *)
qed

lemma local_region: "GetRegion ''ru-central1-b'' = Ok ''ru-central1''"
  by (simp add: GetRegion_def strings_LastIndex_def eval_nat_numeral)

lemma cloudConfigOf_Ok_iff:
  "cloudConfigOf getenv creds folderID = Ok cfg \<longleftrightarrow>
     getenv envClusterName \<noteq> [] \<and>
     getenv envLbTgNetworkID \<noteq> [] \<and>
     cfg = \<lparr>ClusterName = getenv envClusterName,
       lbListenerSubnetID = getenv envLbListenerSubnetID,
       lbTgNetworkID = getenv envLbTgNetworkID,
       cfg_FolderID = folderID, LocalRegion = ''ru-central1'', LocalZone = ''ru-central1-b'',
       RouteTableID = getenv envRouteTableID,
       InternalNetworkIDsSet = networkIDs (getenv envInternalNetworkIDs),
       ExternalNetworkIDsSet = networkIDs (getenv envExternalNetworkIDs),
       cfg_Credentials = creds\<rparr>"
  by (auto simp: cloudConfigOf_def Let_def local_region)

lemma NewCloudConfig_Ok_iff:
  "NewCloudConfig getenv unmarshal accountKey client w = (Ok cfg, w') \<longleftrightarrow>
     getenv envServiceAccountJSON \<noteq> [] \<and>
     (\<exists>k creds folderID.
        unmarshal (getenv envServiceAccountJSON) = Ok k \<and> accountKey k = Ok creds \<and>
        retrieveFolderID getenv (NewMetadataService client) w = (Ok folderID, w') \<and>
        cloudConfigOf getenv creds folderID = Ok cfg)"
  by (simp add: NewCloudConfig_def Let_def bind_io_Ok_iff split: outcome.split)

lemma GetFolderID_of:
  assumes "Metadata_Get m ''instance/zone'' w =
      (Ok (''projects/'' @ folder @ ''/zones/'' @ z), w')"
    and "CHR ''/'' \<notin> set folder" and "CHR ''/'' \<notin> set z"
  shows "GetFolderID m w = (Ok folder, w')" and "Metadata_GetZone m w = (Ok z, w')"
proof -
  let ?s = "''projects/'' @ folder @ ''/zones/'' @ z"
  have "strings_Split ?s (CHR ''/'') = [''projects'', folder, ''zones'', z]"
    using assms(2,3) by (simp add: Split_cons Split_absent)
  with assms(1) show "GetFolderID m w = (Ok folder, w')"
    by (simp add: GetFolderID_def bind_io_def Let_def)
  have l: "?s = (''projects/'' @ folder @ ''/zones'') @ CHR ''/'' # z" by simp
  have "strings_LastIndex ?s (CHR ''/'') = int (length (''projects/'' @ folder @ ''/zones''))"
    unfolding l by (rule LastIndex_last [OF assms(3)])
  then have "strings_LastIndex ?s (CHR ''/'') = int (length folder) + 15" by simp
  with assms(1) show "Metadata_GetZone m w = (Ok z, w')"
    by (simp add: Metadata_GetZone_def bind_io_def Let_def nat_add_distrib eval_nat_numeral)
qed

text \<open>A list of network ids that is written with commas is read back as the same set.\<close>

lemma networkIDs_join:
  assumes "ids \<noteq> []" and "ids \<noteq> [[]]" and "\<forall>i\<in>set ids. CHR '','' \<notin> set i"
  shows "networkIDs (join_with (CHR '','') ids) = set ids"
proof -
  have "join_with (CHR '','') ids \<noteq> []"
    using assms(1,2) by (cases ids; cases "tl ids") auto
  then show ?thesis using Split_join [OF assms(1,3)] by (simp add: networkIDs_eq)
qed

end
