(* ===== verification/Instances.thy ===== *)
theory Instances
  imports Provider
begin

text \<open>
  \<open>pkg/cloudprovider/yandex/instances.go\<close> and \<open>zones.go\<close>: the addresses, identity,
  existence and zone of a node's instance, found by node name or by provider id.
\<close>

section \<open>Addresses\<close>

definition mapSubnetIdToNetworkID :: "ctx \<Rightarrow> 'w subnet_client \<Rightarrow> string \<Rightarrow> ('w, string) io" where
  "mapSubnetIdToNetworkID ctx vpcSdk subnetID =
     bind_io (attempt_io (SubnetGet vpcSdk ctx subnetID)) (\<lambda>r.
     case r of
       Inl err \<Rightarrow> fail_io (ErrWithStack err)
     | Inr subnet \<Rightarrow> return_io (sn_NetworkId subnet))"

text \<open>
  The loop over the interfaces when a set of network ids is configured: the private
  address of every interface whose network is in the set, under the given type.
\<close>

fun addressesInNetworks :: "'w Cloud \<Rightarrow> ctx \<Rightarrow> string set \<Rightarrow> node_address_type \<Rightarrow>
    network_interface list \<Rightarrow> node_address list \<Rightarrow> ('w, node_address list) io" where
  "addressesInNetworks yc ctx ids ty [] nodeAddresses = return_io nodeAddresses"
| "addressesInNetworks yc ctx ids ty (iface # ifaces) nodeAddresses =
     bind_io (mapSubnetIdToNetworkID ctx (SubnetSvc (VPCSvc (yandexService yc))) (ni_SubnetId iface)) (\<lambda>networkID.
     if networkID \<in> ids then
       bind_io (lift_outcome (deref (ni_PrimaryV4Address iface))) (\<lambda>pa.
       addressesInNetworks yc ctx ids ty ifaces
         (nodeAddresses @ [\<lparr>na_Type = ty, na_Address = pa_Address pa\<rparr>]))
     else addressesInNetworks yc ctx ids ty ifaces nodeAddresses)"

text \<open>The loop otherwise: the public address of the first interface that has one.\<close>

fun firstNatAddress :: "network_interface list \<Rightarrow> node_address list \<Rightarrow> node_address list outcome" where
  "firstNatAddress [] nodeAddresses = Ok nodeAddresses"
| "firstNatAddress (iface # ifaces) nodeAddresses =
     bind_outcome (deref (ni_PrimaryV4Address iface)) (\<lambda>pa.
     case pa_OneToOneNat pa of
       Some natIP \<Rightarrow> Ok (nodeAddresses @ [\<lparr>na_Type = NodeExternalIP, na_Address = natIP\<rparr>])
     | None \<Rightarrow> firstNatAddress ifaces nodeAddresses)"

definition firstInterfaceAddresses :: "cloud_instance \<Rightarrow> network_interface \<Rightarrow> node_address list outcome" where
  "firstInterfaceAddresses inst networkInterface =
     (case ni_PrimaryV4Address networkInterface of
        None \<Rightarrow> Err (ErrNoPrimaryIPv4 (i_FolderId inst) (i_Name inst))
      | Some pa \<Rightarrow>
          Ok (\<lparr>na_Type = NodeInternalIP, na_Address = pa_Address pa\<rparr> #
              (case pa_OneToOneNat pa of
                 None \<Rightarrow> []
               | Some natIP \<Rightarrow> [\<lparr>na_Type = NodeExternalIP, na_Address = natIP\<rparr>])))"

definition extractNodeAddresses ::
  "'w Cloud \<Rightarrow> ctx \<Rightarrow> cloud_instance \<Rightarrow> ('w, node_address list) io" where
  "extractNodeAddresses yc ctx inst =
     (case i_NetworkInterfaces inst of
        [] \<Rightarrow> fail_io (ErrNoInterfaces (i_FolderId inst) (i_Name inst))
      | networkInterface # _ \<Rightarrow>
          bind_io (if InternalNetworkIDsSet (config yc) \<noteq> {}
                   then addressesInNetworks yc ctx (InternalNetworkIDsSet (config yc)) NodeInternalIP
                          (i_NetworkInterfaces inst) []
                   else lift_outcome (firstInterfaceAddresses inst networkInterface)) (\<lambda>nodeAddresses.
          if ExternalNetworkIDsSet (config yc) \<noteq> {}
          then addressesInNetworks yc ctx (ExternalNetworkIDsSet (config yc)) NodeExternalIP
                 (i_NetworkInterfaces inst) nodeAddresses
          else lift_outcome (firstNatAddress (i_NetworkInterfaces inst) nodeAddresses)))"

section \<open>Finding the instance\<close>

definition getInstanceByProviderID :: "'w Cloud \<Rightarrow> ctx \<Rightarrow> string \<Rightarrow> ('w, cloud_instance) io" where
  "getInstanceByProviderID yc ctx providerID =
     bind_io (lift_outcome (ParseProviderID providerID)) (\<lambda>(instanceName, instanceNameIsId).
     if instanceNameIsId then
       bind_io (attempt_io (InstanceGet (InstanceSvc (ComputeSvc (yandexService yc))) ctx instanceName)) (\<lambda>r.
       case r of
         Inl err \<Rightarrow>
           if status_Code (libs (yandexService yc)) err = codes_NotFound
           then fail_io InstanceNotFound else fail_io err
       | Inr inst \<Rightarrow> return_io inst)
     else
       bind_io (FindInstanceByName (ComputeSvc (yandexService yc)) ctx instanceName) (\<lambda>found.
       case found of None \<Rightarrow> fail_io InstanceNotFound | Some inst \<Rightarrow> return_io inst))"

definition getInstanceByNodeName :: "'w Cloud \<Rightarrow> ctx \<Rightarrow> string \<Rightarrow> ('w, cloud_instance) io" where
  "getInstanceByNodeName yc ctx nodeName =
     bind_io (FindInstanceByName (ComputeSvc (yandexService yc)) ctx (MapNodeNameToInstanceName nodeName)) (\<lambda>found.
     case found of None \<Rightarrow> fail_io InstanceNotFound | Some inst \<Rightarrow> return_io inst)"

section \<open>The interface Instances\<close>

definition NodeAddresses :: "'w Cloud \<Rightarrow> ctx \<Rightarrow> string \<Rightarrow> ('w, node_address list) io" where
  "NodeAddresses yc ctx nodeName =
     bind_io (getInstanceByNodeName yc ctx nodeName) (\<lambda>inst. extractNodeAddresses yc ctx inst)"

definition NodeAddressesByProviderID :: "'w Cloud \<Rightarrow> ctx \<Rightarrow> string \<Rightarrow> ('w, node_address list) io" where
  "NodeAddressesByProviderID yc ctx providerID =
     bind_io (getInstanceByProviderID yc ctx providerID) (\<lambda>inst. extractNodeAddresses yc ctx inst)"

definition InstanceID :: "'w Cloud \<Rightarrow> ctx \<Rightarrow> string \<Rightarrow> ('w, string) io" where
  "InstanceID yc ctx nodeName =
     bind_io (getInstanceByNodeName yc ctx nodeName) (\<lambda>inst. return_io (i_Id inst))"

definition InstanceType :: "'w Cloud \<Rightarrow> string \<Rightarrow> ('w, string) io" where
  "InstanceType yc nodeName = return_io []"

definition InstanceTypeByProviderID :: "'w Cloud \<Rightarrow> string \<Rightarrow> ('w, string) io" where
  "InstanceTypeByProviderID yc providerID = return_io []"

definition AddSSHKeyToAllInstances :: "'w Cloud \<Rightarrow> string \<Rightarrow> string \<Rightarrow> ('w, unit) io" where
  "AddSSHKeyToAllInstances yc user key = fail_io NotImplemented"

definition CurrentNodeName :: "'w Cloud \<Rightarrow> string \<Rightarrow> ('w, string) io" where
  "CurrentNodeName yc hostName = return_io hostName"

definition InstanceExistsByProviderID :: "'w Cloud \<Rightarrow> ctx \<Rightarrow> string \<Rightarrow> ('w, bool) io" where
  "InstanceExistsByProviderID yc ctx providerID =
     bind_io (attempt_io (getInstanceByProviderID yc ctx providerID)) (\<lambda>r.
     case r of
       Inl err \<Rightarrow> if err = InstanceNotFound then return_io False else fail_io err
     | Inr _ \<Rightarrow> return_io True)"

definition InstanceShutdownByProviderID :: "'w Cloud \<Rightarrow> ctx \<Rightarrow> string \<Rightarrow> ('w, bool) io" where
  "InstanceShutdownByProviderID yc ctx providerID =
     bind_io (getInstanceByProviderID yc ctx providerID) (\<lambda>inst. return_io (i_Status inst = Instance_STOPPED))"

section \<open>The interface Zones\<close>

definition getZone :: "string \<Rightarrow> zone outcome" where
  "getZone z =
     bind_outcome (GetRegion z) (\<lambda>region. Ok \<lparr>z_FailureDomain = z, z_Region = region\<rparr>)"

definition GetZone :: "'w Cloud \<Rightarrow> ('w, zone) io" where
  "GetZone yc = lift_outcome (getZone (LocalZone (config yc)))"

definition GetZoneByProviderID :: "'w Cloud \<Rightarrow> ctx \<Rightarrow> string \<Rightarrow> ('w, zone) io" where
  "GetZoneByProviderID yc ctx providerID =
     bind_io (getInstanceByProviderID yc ctx providerID) (\<lambda>inst. lift_outcome (getZone (i_ZoneId inst)))"

definition GetZoneByNodeName :: "'w Cloud \<Rightarrow> ctx \<Rightarrow> string \<Rightarrow> ('w, zone) io" where
  "GetZoneByNodeName yc ctx nodeName =
     bind_io (getInstanceByNodeName yc ctx nodeName) (\<lambda>inst. lift_outcome (getZone (i_ZoneId inst)))"

section \<open>Queries about a node\<close>

text \<open>
  The operations of both interfaces share a contract: find the instance, then ask it
  something. \<open>find\<close> is one of the two ways to find it.
\<close>

locale node_query =
  fixes find :: "ctx \<Rightarrow> string \<Rightarrow> ('w, cloud_instance) io"
    and ask :: "ctx \<Rightarrow> cloud_instance \<Rightarrow> ('w, 'a) io"
    and op :: "ctx \<Rightarrow> string \<Rightarrow> ('w, 'a) io"
  assumes op_found: "find ctx k w = (Ok inst, w') \<Longrightarrow> op ctx k w = ask ctx inst w'"
    and op_err: "find ctx k w = (Err e, w') \<Longrightarrow> op ctx k w = (Err e, w')"
    and op_abort: "find ctx k w = (Abort p, w') \<Longrightarrow> op ctx k w = (Abort p, w')"
begin

lemma op_Ok_iff: "op ctx k w = (Ok x, w2) \<longleftrightarrow>
    (\<exists>inst w1. find ctx k w = (Ok inst, w1) \<and> ask ctx inst w1 = (Ok x, w2))"
proof (cases "find ctx k w")
  case (Pair r w1)
  then show ?thesis by (cases r) (auto simp: op_found op_err op_abort)
qed

lemma op_Err_iff: "op ctx k w = (Err e, w2) \<longleftrightarrow>
    find ctx k w = (Err e, w2) \<or>
    (\<exists>inst w1. find ctx k w = (Ok inst, w1) \<and> ask ctx inst w1 = (Err e, w2))"
proof (cases "find ctx k w")
  case (Pair r w1)
  then show ?thesis by (cases r) (auto simp: op_found op_err op_abort)
qed

lemma op_keeps:
  assumes "\<And>ctx k. keeps I (find ctx k)" and "\<And>ctx inst. keeps I (ask ctx inst)"
  shows "keeps I (op ctx k)"
proof (rule keepsI)
  fix w r w' assume "I w" and run: "op ctx k w = (r, w')"
  obtain q w1 where q: "find ctx k w = (q, w1)" by (cases "find ctx k w")
  with assms(1) \<open>I w\<close> have "I w1" by (blast dest: keepsD)
  with q run assms(2) show "I w'"
    by (cases q) (auto simp: op_found op_err op_abort dest: keepsD)
qed

end

interpretation addresses_by_name: node_query "getInstanceByNodeName yc" "extractNodeAddresses yc"
    "NodeAddresses yc" for yc
  by unfold_locales (simp_all add: NodeAddresses_def bind_io_def)

interpretation addresses_by_id: node_query "getInstanceByProviderID yc" "extractNodeAddresses yc"
    "NodeAddressesByProviderID yc" for yc
  by unfold_locales (simp_all add: NodeAddressesByProviderID_def bind_io_def)

interpretation id_by_name: node_query "getInstanceByNodeName yc" "\<lambda>ctx inst. return_io (i_Id inst)"
    "InstanceID yc" for yc
  by unfold_locales (simp_all add: InstanceID_def bind_io_def)

interpretation shutdown_by_id: node_query "getInstanceByProviderID yc"
    "\<lambda>ctx inst. return_io (i_Status inst = Instance_STOPPED)" "InstanceShutdownByProviderID yc" for yc
  by unfold_locales (simp_all add: InstanceShutdownByProviderID_def bind_io_def)

interpretation zone_by_id: node_query "getInstanceByProviderID yc"
    "\<lambda>ctx inst. lift_outcome (getZone (i_ZoneId inst))" "GetZoneByProviderID yc" for yc
  by unfold_locales (simp_all add: GetZoneByProviderID_def bind_io_def)

interpretation zone_by_name: node_query "getInstanceByNodeName yc"
    "\<lambda>ctx inst. lift_outcome (getZone (i_ZoneId inst))" "GetZoneByNodeName yc" for yc
  by unfold_locales (simp_all add: GetZoneByNodeName_def bind_io_def)

section \<open>Which errors a lookup can answer\<close>

lemma getInstanceByNodeName_run:
  "getInstanceByNodeName yc ctx n w =
     (case FindInstanceByName (ComputeSvc (yandexService yc)) ctx n w of
        (Ok (Some inst), w') \<Rightarrow> (Ok inst, w')
      | (Ok None, w') \<Rightarrow> (Err InstanceNotFound, w')
      | (Err e, w') \<Rightarrow> (Err e, w')
      | (Abort p, w') \<Rightarrow> (Abort p, w'))"
  by (auto simp: getInstanceByNodeName_def MapNodeNameToInstanceName_def bind_io_def
      split: prod.split outcome.split option.split)

lemma getInstanceByNodeName_Err:
  assumes "getInstanceByNodeName yc ctx n w = (Err e, w')"
  shows "(\<exists>xs. InstanceList (InstanceSvc (ComputeSvc (yandexService yc))) ctx (name_query (ComputeSvc (yandexService yc)) n) w = (Ok xs, w') \<and>
           (xs = [] \<and> e = ErrNoInstances n \<or> 1 < length xs \<and> e = ErrManyInstances n)) \<or>
         InstanceList (InstanceSvc (ComputeSvc (yandexService yc))) ctx (name_query (ComputeSvc (yandexService yc)) n) w = (Err e, w')"
proof (cases rule: instance_lookup.find_cases [where y = "ComputeSvc (yandexService yc)" and ctx = ctx and n = n and w = w])
  case none
  with assms show ?thesis by (auto simp: getInstanceByNodeName_run)
next
  case one
  with assms show ?thesis by (auto simp: getInstanceByNodeName_run)
next
  case many
  with assms show ?thesis by (auto simp: getInstanceByNodeName_run)
next
  case err
  with assms show ?thesis by (auto simp: getInstanceByNodeName_run)
next
  case abort
  with assms show ?thesis by (auto simp: getInstanceByNodeName_run)
qed

lemma getZone_Ok_iff:
  "getZone z = Ok r \<longleftrightarrow> z_FailureDomain r = z \<and> (\<exists>ix. z = z_Region r @ ''-'' @ ix \<and> CHR ''-'' \<notin> set ix)"
  by (auto simp: getZone_def bind_outcome_Ok_iff GetRegion_Ok_iff)

section \<open>The addresses of an instance\<close>

text \<open>The subnets are known and every interface has a primary address.\<close>

definition subnets_known :: "'w Cloud \<Rightarrow> (string \<Rightarrow> string) \<Rightarrow> bool" where
  "subnets_known cloud net \<longleftrightarrow>
     (\<forall>ctx s w. SubnetGet (SubnetSvc (VPCSvc (yandexService cloud))) ctx s w = (Ok \<lparr>sn_NetworkId = net s\<rparr>, w))"

definition has_primary :: "cloud_instance \<Rightarrow> bool" where
  "has_primary i = list_all (\<lambda>f. ni_PrimaryV4Address f \<noteq> None) (i_NetworkInterfaces i)"

definition address_of :: "node_address_type \<Rightarrow> network_interface \<Rightarrow> node_address" where
  "address_of ty f = \<lparr>na_Type = ty, na_Address = pa_Address (the (ni_PrimaryV4Address f))\<rparr>"

definition nat_of :: "network_interface \<Rightarrow> string option" where
  "nat_of f = Option.bind (ni_PrimaryV4Address f) pa_OneToOneNat"

definition external :: "string option \<Rightarrow> node_address list" where
  "external n = (case n of None \<Rightarrow> [] | Some ip \<Rightarrow> [\<lparr>na_Type = NodeExternalIP, na_Address = ip\<rparr>])"

lemma addressesInNetworks_known:
  assumes "subnets_known yc net" and "list_all (\<lambda>f. ni_PrimaryV4Address f \<noteq> None) fs"
  shows "addressesInNetworks yc ctx ids ty fs acc w =
    (Ok (acc @ map (address_of ty) (filter (\<lambda>f. net (ni_SubnetId f) \<in> ids) fs)), w)"
  using assms(2)
proof (induction fs arbitrary: acc)
  case (Cons f fs)
  have "mapSubnetIdToNetworkID ctx (SubnetSvc (VPCSvc (yandexService yc))) (ni_SubnetId f) w = (Ok (net (ni_SubnetId f)), w)"
    using assms(1) by (simp add: mapSubnetIdToNetworkID_def subnets_known_def bind_io_def attempt_io_def)
  with Cons show ?case by (auto simp: bind_io_OkI address_of_def)
qed simp

text \<open>The first interface with a public address, in the order of the interfaces.\<close>

definition first_nat :: "network_interface list \<Rightarrow> string option" where
  "first_nat fs = Option.bind (find (\<lambda>f. nat_of f \<noteq> None) fs) nat_of"

lemma firstNatAddress_known:
  "list_all (\<lambda>f. ni_PrimaryV4Address f \<noteq> None) fs \<Longrightarrow>
     firstNatAddress fs acc = Ok (acc @ external (first_nat fs))"
  by (induction fs) (auto simp: first_nat_def nat_of_def external_def split: option.split)

lemma extractNodeAddresses_run:
  assumes known: "subnets_known yc net" and prim: "has_primary inst" and fs: "i_NetworkInterfaces inst = f # fs"
  shows "extractNodeAddresses yc ctx inst w =
    (Ok ((if InternalNetworkIDsSet (config yc) \<noteq> {}
          then map (address_of NodeInternalIP)
            (filter (\<lambda>f. net (ni_SubnetId f) \<in> InternalNetworkIDsSet (config yc)) (f # fs))
          else address_of NodeInternalIP f # external (nat_of f)) @
         (if ExternalNetworkIDsSet (config yc) \<noteq> {}
          then map (address_of NodeExternalIP)
            (filter (\<lambda>f. net (ni_SubnetId f) \<in> ExternalNetworkIDsSet (config yc)) (f # fs))
          else external (first_nat (f # fs)))), w)"
proof -
  from prim fs have all: "list_all (\<lambda>f. ni_PrimaryV4Address f \<noteq> None) (f # fs)"
    by (simp add: has_primary_def)
  then obtain pa where pa: "ni_PrimaryV4Address f = Some pa" by auto
  then have first: "firstInterfaceAddresses inst f = Ok (address_of NodeInternalIP f # external (nat_of f))"
    by (simp add: firstInterfaceAddresses_def address_of_def external_def nat_of_def split: option.split)
  note A = addressesInNetworks_known [OF known all]
  note N = firstNatAddress_known [OF all]
  show ?thesis
    by (cases "InternalNetworkIDsSet (config yc) = {}"; cases "ExternalNetworkIDsSet (config yc) = {}")
      (simp_all add: extractNodeAddresses_def fs first bind_io_OkI [OF A] bind_io_OkI A N
        del: addressesInNetworks.simps firstNatAddress.simps)
qed

section \<open>What the queries keep\<close>

text \<open>The queries read instances and subnets only.\<close>

lemma keeps_addressesInNetworks:
  assumes "\<And>ctx s. keeps I (SubnetGet (SubnetSvc (VPCSvc (yandexService yc))) ctx s)"
  shows "keeps I (addressesInNetworks yc ctx ids ty ifaces acc)"
proof (induction ifaces arbitrary: acc)
  case (Cons f fs)
  have "keeps I (mapSubnetIdToNetworkID ctx (SubnetSvc (VPCSvc (yandexService yc))) s)" for s
    unfolding mapSubnetIdToNetworkID_def
    by (intro keeps_bind keeps_attempt assms) (auto split: sum.split)
  with Cons show ?case by (auto intro!: keeps_bind)
qed simp

lemma keeps_extractNodeAddresses:
  assumes "\<And>ctx s. keeps I (SubnetGet (SubnetSvc (VPCSvc (yandexService yc))) ctx s)"
  shows "keeps I (extractNodeAddresses yc ctx inst)"
  unfolding extractNodeAddresses_def
  by (cases "i_NetworkInterfaces inst"; simp only: list.case)
    (intro keeps_fail keeps_bind keeps_if keeps_lift keeps_addressesInNetworks assms)+

lemma keeps_getInstanceByNodeName:
  assumes "\<And>ctx q. keeps I (InstanceList (InstanceSvc (ComputeSvc (yandexService yc))) ctx q)"
  shows "keeps I (getInstanceByNodeName yc ctx n)"
  unfolding getInstanceByNodeName_def
  by (intro keeps_bind instance_lookup.keeps_find assms) (auto split: option.split)

lemma keeps_NodeAddresses:
  assumes "\<And>ctx q. keeps I (InstanceList (InstanceSvc (ComputeSvc (yandexService yc))) ctx q)"
    and "\<And>ctx s. keeps I (SubnetGet (SubnetSvc (VPCSvc (yandexService yc))) ctx s)"
  shows "keeps I (NodeAddresses yc ctx n)"
  by (intro addresses_by_name.op_keeps keeps_getInstanceByNodeName keeps_extractNodeAddresses assms)

end
