(* ===== verification/TgSyncer.thy ===== *)
theory TgSyncer
  imports Reconcile Instances
begin

text \<open>
  \<open>pkg/cloudprovider/yandex/load_balancer_tg_controller.go\<close>: the syncer that keeps one
  target group per network (and per prefix of a node's annotation), filled with the
  nodes' interfaces in that network, and removes the cluster's groups when the last
  load balancer service goes. \<open>SyncTGs\<close> holds the syncer's mutex from start to end, so here a
  call is one step of the state; the theory \<open>SyncLock\<close> takes it apart.
\<close>

section \<open>The names and targets of the groups\<close>

definition customTargetGroupNamePrefixAnnotation :: string where
  "customTargetGroupNamePrefixAnnotation = ''yandex.cpi.flant.com/target-group-name-prefix''"

definition truncateAnnotationValue :: "string \<Rightarrow> string" where
  "truncateAnnotationValue v = (if length v > 36 then take 36 v else v)"

type_synonym tgNameToTargetMap = "string \<rightharpoonup> target list"

record instanceWithNodeInfo =
  iw_Instance :: cloud_instance
  iw_Node :: node

definition tgKey :: "string \<Rightarrow> node \<Rightarrow> string \<Rightarrow> string" where
  "tgKey clusterName nd networkId =
     (let key = clusterName @ networkId in
      case n_Annotations nd customTargetGroupNamePrefixAnnotation of
        Some v \<Rightarrow> truncateAnnotationValue v @ key
      | None \<Rightarrow> key)"

definition appendTarget :: "tgNameToTargetMap \<Rightarrow> string \<Rightarrow> target \<Rightarrow> tgNameToTargetMap" where
  "appendTarget mapping key t =
     mapping(key \<mapsto> (case mapping key of None \<Rightarrow> [] | Some ts \<Rightarrow> ts) @ [t])"

text \<open>The inner loop, over the interfaces of one instance.\<close>

fun addInterfaces :: "'w Cloud \<Rightarrow> ctx \<Rightarrow> node \<Rightarrow> network_interface list \<Rightarrow> tgNameToTargetMap \<Rightarrow>
    ('w, tgNameToTargetMap) io" where
  "addInterfaces cloud ctx nd [] mapping = return_io mapping"
| "addInterfaces cloud ctx nd (iface # ifaces) mapping =
     bind_io (attempt_io (SubnetGet (SubnetSvc (VPCSvc (yandexService cloud))) ctx (ni_SubnetId iface))) (\<lambda>r.
     case r of
       Inl err \<Rightarrow> fail_io (ErrWithStack err)
     | Inr subnetInfo \<Rightarrow>
         let key = tgKey (ClusterName (config cloud)) nd (sn_NetworkId subnetInfo) in
         bind_io (lift_outcome (deref (ni_PrimaryV4Address iface))) (\<lambda>pa.
         addInterfaces cloud ctx nd ifaces
           (appendTarget mapping key \<lparr>t_SubnetId = ni_SubnetId iface, t_Address = pa_Address pa\<rparr>)))"

fun addInstances :: "'w Cloud \<Rightarrow> ctx \<Rightarrow> instanceWithNodeInfo list \<Rightarrow> tgNameToTargetMap \<Rightarrow>
    ('w, tgNameToTargetMap) io" where
  "addInstances cloud ctx [] mapping = return_io mapping"
| "addInstances cloud ctx (inst # insts) mapping =
     bind_io (addInterfaces cloud ctx (iw_Node inst) (i_NetworkInterfaces (iw_Instance inst)) mapping) (\<lambda>mapping.
     addInstances cloud ctx insts mapping)"

definition constructTgNameToTargetMap ::
  "'w Cloud \<Rightarrow> ctx \<Rightarrow> instanceWithNodeInfo list \<Rightarrow> ('w, tgNameToTargetMap) io" where
  "constructTgNameToTargetMap cloud ctx instances =
     bind_io (addInstances cloud ctx instances Map.empty) (\<lambda>mapping.
     if dom mapping = {} then fail_io ErrNoMappings else return_io mapping)"

section \<open>Synchronising\<close>

definition fromNodeToInterfaceSlice :: "node list \<Rightarrow> string list" where
  "fromNodeToInterfaceSlice nodes = map n_Name nodes"

text \<open>The loop that finds the instance of every node that Yandex Cloud provides.\<close>

fun findInstances :: "'w Cloud \<Rightarrow> ctx \<Rightarrow> node list \<Rightarrow> instanceWithNodeInfo list \<Rightarrow>
    ('w, instanceWithNodeInfo list) io" where
  "findInstances cloud ctx [] instances = return_io instances"
| "findInstances cloud ctx (nd # nds) instances =
     (if n_ProviderID nd = [] then fail_io (ErrProviderIDEmpty (n_Name nd))
      else if \<not> strings_Contains (n_ProviderID nd) ''yandex'' then findInstances cloud ctx nds instances
      else
        bind_io (attempt_io (FindInstanceByName (ComputeSvc (yandexService cloud)) ctx
          (MapNodeNameToInstanceName (n_Name nd)))) (\<lambda>r.
        case r of
          Inl err \<Rightarrow> fail_io (ErrFindInstance (Some err))
        | Inr None \<Rightarrow> fail_io (ErrFindInstance None)
        | Inr (Some inst) \<Rightarrow>
            findInstances cloud ctx nds (instances @ [\<lparr>iw_Instance = inst, iw_Node = nd\<rparr>])))"

text \<open>The pointer \<open>ntgs\<close>, nil before \<open>Initialize\<close>, and the writes to its node set.\<close>

definition theSyncer :: "('w cloud_state, NodeTargetGroupSyncer) io" where
  "theSyncer = (\<lambda>s. (deref (nodeTargetGroupSyncer s), s))"

definition setVisitedNodes :: "string set \<Rightarrow> ('w cloud_state, unit) io" where
  "setVisitedNodes S =
     (\<lambda>s. case nodeTargetGroupSyncer s of
        None \<Rightarrow> (Abort NilDereference, s)
      | Some ntgs \<Rightarrow> (Ok (), s\<lparr>nodeTargetGroupSyncer := Some (ntgs\<lparr>lastVisitedNodes := S\<rparr>)\<rparr>))"

text \<open>\<open>for tgName, targets := range mapping\<close>, in the order the runtime picks.\<close>

definition putMapping :: "'w Cloud \<Rightarrow> ctx \<Rightarrow> tgNameToTargetMap \<Rightarrow> ('w, unit) io" where
  "putMapping cloud ctx mapping =
     (\<lambda>w. foreach_io (\<lambda>tgName.
         case mapping tgName of
           None \<Rightarrow> return_io ()
         | Some targets \<Rightarrow>
             bind_io (CreateOrUpdateTG (LbSvc (yandexService cloud)) ctx tgName targets) (\<lambda>_. return_io ()))
       (range_order (libs (yandexService cloud)) (dom mapping) w) w)"

definition synchronizeNodesWithTargetGroups ::
  "'w Cloud \<Rightarrow> ctx \<Rightarrow> node list \<Rightarrow> ('w cloud_state, unit) io" where
  "synchronizeNodesWithTargetGroups cloud ctx nodes =
     (if length nodes = 0 then return_io ()
      else
        let newSet = set (fromNodeToInterfaceSlice nodes) in
        bind_io theSyncer (\<lambda>ntgs.
        if lastVisitedNodes ntgs = newSet then return_io ()
        else
          bind_io (on_world (findInstances cloud ctx nodes [])) (\<lambda>instances.
          bind_io (attempt_io (on_world (constructTgNameToTargetMap cloud ctx instances))) (\<lambda>r.
          case r of
            Inl err \<Rightarrow> fail_io (ErrConstructMap err)
          | Inr mapping \<Rightarrow>
              bind_io (on_world (putMapping cloud ctx mapping)) (\<lambda>_.
              setVisitedNodes newSet)))))"

text \<open>
  The package \<open>golang.org/x/sync/errgroup\<close> is not in the repository; this is its documented
  behaviour for goroutines that run one after the other. Every goroutine runs its call once,
  in the order of the schedule; the first error cancels the context of the calls made after
  it and is the group's result. \<open>Cleanup\<close> has the goroutines interleave.
\<close>

fun errgroup :: "(ctx \<Rightarrow> 'a \<Rightarrow> ('w, unit) io) \<Rightarrow> ctx \<Rightarrow> error option \<Rightarrow> 'a list \<Rightarrow>
    ('w, error option) io" where
  "errgroup f ctx first [] = return_io first"
| "errgroup f ctx first (x # xs) =
     bind_io (attempt_io (f ctx x)) (\<lambda>r.
     case r of
       Inr _ \<Rightarrow> errgroup f ctx first xs
     | Inl err \<Rightarrow> errgroup f CtxCancelled (case first of None \<Rightarrow> Some err | Some e \<Rightarrow> Some e) xs)"

definition cleanUpTargetGroups :: "'w Cloud \<Rightarrow> ctx \<Rightarrow> ('w cloud_state, unit) io" where
  "cleanUpTargetGroups cloud ctx =
     bind_io (on_world (GetTGsByClusterName (LbSvc (yandexService cloud)) ctx (ClusterName (config cloud)))) (\<lambda>tgs.
     bind_io (on_world (\<lambda>w. errgroup (\<lambda>ctx tg. RemoveTGByID (LbSvc (yandexService cloud)) ctx (tg_Id tg)) ctx None
       (go_schedule (libs (yandexService cloud)) tgs w) w)) (\<lambda>first.
     case first of
       Some err \<Rightarrow> fail_io err
     | None \<Rightarrow> setVisitedNodes {}))"

fun activeLoadBalancerServicesExist :: "service list \<Rightarrow> bool" where
  "activeLoadBalancerServicesExist [] = False"
| "activeLoadBalancerServicesExist (s # ss) =
     (if s_Type s = ServiceTypeLoadBalancer \<and> \<not> s_Deleted s then True
      else activeLoadBalancerServicesExist ss)"

definition SyncTGs :: "'w Cloud \<Rightarrow> ctx \<Rightarrow> node list \<Rightarrow> ('w cloud_state, unit) io" where
  "SyncTGs cloud ctx nodes =
     bind_io theSyncer (\<lambda>ntgs.
     bind_io (attempt_io (on_world (ServiceList (libs (yandexService cloud)) (serviceLister ntgs)))) (\<lambda>r.
     case r of
       Inl err \<Rightarrow> fail_io (ErrListServices err)
     | Inr services \<Rightarrow>
         if length nodes = 0 \<and> \<not> activeLoadBalancerServicesExist services
         then cleanUpTargetGroups cloud ctx
         else synchronizeNodesWithTargetGroups cloud ctx nodes))"

lemma setVisitedNodes_world [simp]: "world (snd (setVisitedNodes S s)) = world s"
  by (simp add: setVisitedNodes_def split: option.split)

lemma setVisitedNodes_Ok:
  "setVisitedNodes S s = (Ok u, s') \<Longrightarrow> world s' = world s \<and> visited_nodes s' = Some S"
  by (auto simp: setVisitedNodes_def split: option.splits)

section \<open>What the mapping holds\<close>

text \<open>
  The pairs of group name and target that the two loops append, in order, when \<open>net\<close>
  tells the network of a subnet.
\<close>

definition iface_pair :: "string \<Rightarrow> (string \<Rightarrow> string) \<Rightarrow> node \<Rightarrow> network_interface \<Rightarrow> string \<times> target" where
  "iface_pair cluster net nd iface =
     (tgKey cluster nd (net (ni_SubnetId iface)),
      \<lparr>t_SubnetId = ni_SubnetId iface,
       t_Address = (case ni_PrimaryV4Address iface of None \<Rightarrow> [] | Some pa \<Rightarrow> pa_Address pa)\<rparr>)"

definition planned :: "string \<Rightarrow> (string \<Rightarrow> string) \<Rightarrow> instanceWithNodeInfo list \<Rightarrow> (string \<times> target) list" where
  "planned cluster net insts =
     concat (map (\<lambda>i. map (iface_pair cluster net (iw_Node i)) (i_NetworkInterfaces (iw_Instance i))) insts)"

definition grouped :: "(string \<times> target) list \<Rightarrow> tgNameToTargetMap" where
  "grouped ps n = (case map snd (filter (\<lambda>p. fst p = n) ps) of [] \<Rightarrow> None | ts \<Rightarrow> Some ts)"

lemma grouped_Nil [simp]: "grouped [] = Map.empty"
  by (simp add: grouped_def fun_eq_iff)

lemma grouped_snoc: "grouped (ps @ [(k, t)]) = appendTarget (grouped ps) k t"
  by (auto simp: grouped_def appendTarget_def fun_eq_iff split: list.split)

lemma grouped_None_iff: "grouped ps n = None \<longleftrightarrow> n \<notin> fst ` set ps"
proof -
  have "grouped ps n = None \<longleftrightarrow> filter (\<lambda>p. fst p = n) ps = []"
    by (auto simp: grouped_def split: list.split)
  then show ?thesis by (auto simp: filter_empty_conv)
qed

lemma dom_grouped [simp]: "dom (grouped ps) = fst ` set ps"
  using grouped_None_iff [of ps] by (auto simp: dom_def)

lemma grouped_Some_targets: "grouped ps n = Some ts \<Longrightarrow> set ts = snd ` {p \<in> set ps. fst p = n}"
proof -
  assume "grouped ps n = Some ts"
  then have "ts = map snd (filter (\<lambda>p. fst p = n) ps)"
    by (simp add: grouped_def split: list.splits)
  then show ?thesis by auto
qed

lemma addInterfaces_plan:
  assumes "subnets_known cloud net" and "list_all (\<lambda>f. ni_PrimaryV4Address f \<noteq> None) ifaces"
  shows "addInterfaces cloud ctx nd ifaces (grouped ps) w =
    (Ok (grouped (ps @ map (iface_pair (ClusterName (config cloud)) net nd) ifaces)), w)"
  using assms(2)
proof (induction ifaces arbitrary: ps)
  case (Cons f fs)
  from Cons.prems obtain pa where pa: "ni_PrimaryV4Address f = Some pa" by auto
  let ?p = "iface_pair (ClusterName (config cloud)) net nd f"
  have "grouped (ps @ [?p]) = appendTarget (grouped ps) (fst ?p) (snd ?p)"
    using grouped_snoc [of ps "fst ?p" "snd ?p"] by simp
  moreover have "attempt_io (SubnetGet (SubnetSvc (VPCSvc (yandexService cloud))) ctx (ni_SubnetId f)) w
      = (Ok (Inr \<lparr>sn_NetworkId = net (ni_SubnetId f)\<rparr>), w)"
    using assms(1) by (simp add: subnets_known_def attempt_io_OkI)
  ultimately show ?case
    using Cons.IH [of "ps @ [?p]"] Cons.prems pa
    by (simp add: bind_io_OkI iface_pair_def Let_def)
qed simp

lemma addInstances_plan:
  assumes "subnets_known cloud net" and "list_all (\<lambda>i. has_primary (iw_Instance i)) insts"
  shows "addInstances cloud ctx insts (grouped ps) w =
    (Ok (grouped (ps @ planned (ClusterName (config cloud)) net insts)), w)"
  using assms(2)
proof (induction insts arbitrary: ps)
  case (Cons i insts)
  then show ?case
    using addInterfaces_plan [OF assms(1), of "i_NetworkInterfaces (iw_Instance i)" ctx "iw_Node i" ps w]
    by (simp add: bind_io_OkI has_primary_def planned_def)
qed (simp add: planned_def)

lemma construct_plan:
  assumes "subnets_known cloud net" and "list_all (\<lambda>i. has_primary (iw_Instance i)) insts"
  shows "constructTgNameToTargetMap cloud ctx insts w =
    (let ps = planned (ClusterName (config cloud)) net insts in
     (if ps = [] then Err ErrNoMappings else Ok (grouped ps), w))"
  using addInstances_plan [OF assms, of ctx "[]" w]
  by (simp add: constructTgNameToTargetMap_def bind_io_OkI Let_def del: dom_eq_empty_conv)

section \<open>A store of target groups\<close>

text \<open>
  What the syncer relies on of \<open>CreateOrUpdateTG\<close>: a put that succeeds leaves one group
  of that name with exactly the targets, and the groups of other names alone.
  \<open>groups w n\<close> is the set of target sets of the groups with the name \<open>n\<close>.
\<close>

locale tg_store =
  fixes put :: "ctx \<Rightarrow> string \<Rightarrow> target list \<Rightarrow> ('w, string) io"
    and groups :: "'w \<Rightarrow> string \<Rightarrow> target set set"
    and ok :: "'w \<Rightarrow> bool"
    and good :: "target list \<Rightarrow> bool"
  assumes put_same: "ok w \<Longrightarrow> good ts \<Longrightarrow> put ctx n ts w = (Ok i, w') \<Longrightarrow> groups w' n = {set ts}"
    and put_other: "ok w \<Longrightarrow> good ts \<Longrightarrow> put ctx n ts w = (Ok i, w') \<Longrightarrow> m \<noteq> n \<Longrightarrow>
      groups w' m = groups w m"
    and put_ok: "ok w \<Longrightarrow> good ts \<Longrightarrow> put ctx n ts w = (Ok i, w') \<Longrightarrow> ok w'"
begin

text \<open>Putting every entry of a mapping, in whatever order its keys come.\<close>

lemma put_each:
  assumes "foreach_io (\<lambda>n. case mapping n of None \<Rightarrow> return_io ()
      | Some ts \<Rightarrow> bind_io (put ctx n ts) (\<lambda>_. return_io ())) ns w = (Ok u, w')"
    and "ok w" and "\<And>n ts. mapping n = Some ts \<Longrightarrow> good ts"
  shows "groups w' n = (case mapping n of
      Some ts \<Rightarrow> if n \<in> set ns then {set ts} else groups w n
    | None \<Rightarrow> groups w n) \<and> ok w'"
  using assms(1,2)
proof (induction ns arbitrary: w)
  case Nil
  then show ?case by (simp split: option.split)
next
  case (Cons k ks)
  then obtain w1 where one: "(case mapping k of None \<Rightarrow> return_io ()
      | Some ts \<Rightarrow> bind_io (put ctx k ts) (\<lambda>_. return_io ())) w = (Ok (), w1)"
    and rest: "foreach_io (\<lambda>n. case mapping n of None \<Rightarrow> return_io ()
      | Some ts \<Rightarrow> bind_io (put ctx n ts) (\<lambda>_. return_io ())) ks w1 = (Ok u, w')"
    by (auto simp: bind_io_Ok_iff)
  show ?case
  proof (cases "mapping k")
    case None
    with one have "w1 = w" by simp
    with Cons.IH [OF rest] Cons.prems(2) None show ?thesis by (auto split: option.splits)
  next
    case (Some ts)
    with one obtain i where run: "put ctx k ts w = (Ok i, w1)" by (auto simp: bind_io_Ok_iff)
    note P = put_same [OF Cons.prems(2) assms(3) [OF Some] run]
      put_other [OF Cons.prems(2) assms(3) [OF Some] run]
      put_ok [OF Cons.prems(2) assms(3) [OF Some] run]
    show ?thesis
      using Cons.IH [OF rest P(3)] P(1,2) Some by (cases "n = k") (auto split: option.splits)
  qed
qed

end

definition tg_groups :: "('w \<Rightarrow> string \<rightharpoonup> target_group) \<Rightarrow> 'w \<Rightarrow> string \<Rightarrow> target set set" where
  "tg_groups tgs w n = (\<lambda>t. set (tg_Targets t)) ` named tg_Name (tgs w) n"

definition tg_ready :: "'w LoadBalancerService \<Rightarrow> ('w \<Rightarrow> string \<rightharpoonup> target_group) \<Rightarrow> 'w \<Rightarrow> bool" where
  "tg_ready y tgs w \<longleftrightarrow>
     tg_service_laws y tgs \<and> lists_sets (StringSet_List (libs y)) \<and> tgs_colon_free tgs w"

lemma colon_free_set: "colon_free ts \<longleftrightarrow> (\<forall>t\<in>set ts. CHR '':'' \<notin> set (t_SubnetId t))"
  by (simp add: colon_free_def list_all_iff)

interpretation tg_writer: tg_store "CreateOrUpdateTG y" "tg_groups tgs" "tg_ready y tgs" colon_free
  for y tgs
proof
  fix w ts ctx n i w'
  assume ok: "tg_ready y tgs w" and good: "colon_free ts"
    and run: "CreateOrUpdateTG y ctx n ts w = (Ok i, w')"
  then have put: "tg_put tgs n ts w i w'"
    by (auto simp: tg_ready_def intro: CreateOrUpdateTG_puts)
  then show "tg_groups tgs w' n = {set ts}" by (auto simp: tg_put_def tg_groups_def)
  show "tg_groups tgs w' m = tg_groups tgs w m" if "m \<noteq> n" for m
    using put that by (simp add: tg_put_def tg_groups_def)
  have "colon_free (tg_Targets t)" if "t \<in> ran (tgs w')" for t
  proof (cases "tg_Name t = n")
    case True
    with that have "t \<in> named tg_Name (tgs w') n" by (simp add: named_def)
    with put have "set (tg_Targets t) = set ts" by (auto simp: tg_put_def)
    with good show ?thesis by (simp add: colon_free_set)
  next
    case False
    from that have "t \<in> named tg_Name (tgs w') (tg_Name t)" by (simp add: named_def)
    with False put have "t \<in> named tg_Name (tgs w) (tg_Name t)" by (simp add: tg_put_def)
    with ok show ?thesis by (auto simp: tg_ready_def tgs_colon_free_def named_def)
  qed
  with ok show "tg_ready y tgs w'" by (simp add: tg_ready_def tgs_colon_free_def)
qed

lemma putMapping_puts:
  assumes "putMapping cloud ctx mapping w = (Ok u, w')" and "tg_ready (LbSvc (yandexService cloud)) tgs w"
    and "\<And>n ts. mapping n = Some ts \<Longrightarrow> colon_free ts" and "finite (dom mapping)"
    and "fair_orders (libs (yandexService cloud))"
  shows "tg_groups tgs w' n = (case mapping n of Some ts \<Rightarrow> {set ts} | None \<Rightarrow> tg_groups tgs w n)"
proof -
  let ?ns = "range_order (libs (yandexService cloud)) (dom mapping) w"
  have "set ?ns = dom mapping" using assms(4,5) by (simp add: range_order_set)
  moreover have "tg_groups tgs w' n = (case mapping n of
      Some ts \<Rightarrow> if n \<in> set ?ns then {set ts} else tg_groups tgs w n
    | None \<Rightarrow> tg_groups tgs w n)"
    using tg_writer.put_each [OF assms(1) [unfolded putMapping_def] assms(2), of n] assms(3) by blast
  ultimately show ?thesis by (auto split: option.splits)
qed

section \<open>Runs of the syncer\<close>

text \<open>
  The lookups of the syncer do not touch the target groups (\<open>I\<close> stands for any statement
  about them).
\<close>

lemma keeps_findInstances:
  assumes "\<And>ctx q. keeps I (InstanceList (InstanceSvc (ComputeSvc (yandexService cloud))) ctx q)"
  shows "keeps I (findInstances cloud ctx nds insts)"
  using assms
proof (induction nds arbitrary: insts)
  case (Cons nd nds)
  have "keeps I (attempt_io (FindInstanceByName (ComputeSvc (yandexService cloud)) ctx n))" for n
    by (intro keeps_attempt instance_lookup.keeps_find Cons.prems)
  with Cons show ?case
    by (auto simp del: bind_io_def intro!: keeps_bind split: sum.split option.split)
qed simp

lemma findInstances_nodes:
  "findInstances cloud ctx nds acc w = (Ok insts, w') \<Longrightarrow>
     map iw_Node insts =
       map iw_Node acc @ filter (\<lambda>nd. strings_Contains (n_ProviderID nd) ''yandex'') nds"
  by (induction nds arbitrary: acc w)
    (auto simp: bind_io_Ok_iff attempt_io_Ok_iff split: if_splits option.splits)

lemma SyncTGs_run:
  "SyncTGs cloud ctx nodes s =
     (case nodeTargetGroupSyncer s of
        None \<Rightarrow> (Abort NilDereference, s)
      | Some ntgs \<Rightarrow>
          (case ServiceList (libs (yandexService cloud)) (serviceLister ntgs) (world s) of
             (Err e, w) \<Rightarrow> (Err (ErrListServices e), s\<lparr>world := w\<rparr>)
           | (Abort p, w) \<Rightarrow> (Abort p, s\<lparr>world := w\<rparr>)
           | (Ok services, w) \<Rightarrow>
               if nodes = [] \<and> \<not> activeLoadBalancerServicesExist services
               then cleanUpTargetGroups cloud ctx (s\<lparr>world := w\<rparr>)
               else synchronizeNodesWithTargetGroups cloud ctx nodes (s\<lparr>world := w\<rparr>)))"
  by (auto simp: SyncTGs_def theSyncer_def bind_io_def attempt_io_def on_world_def
      split: option.split prod.split outcome.split)

lemma activeServices_iff:
  "activeLoadBalancerServicesExist ss \<longleftrightarrow> (\<exists>s\<in>set ss. s_Type s = ServiceTypeLoadBalancer \<and> \<not> s_Deleted s)"
  by (induction ss) auto

text \<open>The errgroup never stops early: it answers with the first error, if any.\<close>

lemma errgroup_first: "errgroup f ctx (Some e) xs w = (Ok r, w') \<Longrightarrow> r = Some e"
  by (induction xs arbitrary: ctx w) (auto simp: bind_io_Ok_iff attempt_io_Ok_iff)

lemma errgroup_None:
  assumes "errgroup f ctx None xs w = (Ok None, w')"
    and "\<And>x w u w'. f ctx x w = (Ok u, w') \<Longrightarrow> view w' = (view w)(key x := None)"
  shows "view w' = (\<lambda>i. if i \<in> key ` set xs then None else view w i)"
  using assms(1)
proof (induction xs arbitrary: w)
  case (Cons x xs)
  then obtain u w1 where x: "f ctx x w = (Ok u, w1)" and rest: "errgroup f ctx None xs w1 = (Ok None, w')"
    by (auto simp: bind_io_Ok_iff attempt_io_Ok_iff dest: errgroup_first)
  from Cons.IH [OF rest] assms(2) [OF x] show ?case by (auto simp: fun_eq_iff)
qed simp

section \<open>What a run leaves\<close>

text \<open>
  The readings that a run of the syncer makes, as the cloud answers them: the instance
  of a node, and the network of a subnet. \<open>syncPlan\<close> is then the whole mapping.
\<close>

definition nodes_known :: "'w Cloud \<Rightarrow> (string \<Rightarrow> cloud_instance) \<Rightarrow> node list \<Rightarrow> bool" where
  "nodes_known cloud inst nodes \<longleftrightarrow>
     (\<forall>nd\<in>set nodes. has_primary (inst (n_Name nd)) \<and>
        (\<forall>ctx w. InstanceList (InstanceSvc (ComputeSvc (yandexService cloud))) ctx
           (name_query (ComputeSvc (yandexService cloud)) (n_Name nd)) w = (Ok [inst (n_Name nd)], w)))"

abbreviation is_yandex :: "node \<Rightarrow> bool" where
  "is_yandex nd \<equiv> strings_Contains (n_ProviderID nd) ''yandex''"

definition found_instances :: "(string \<Rightarrow> cloud_instance) \<Rightarrow> node list \<Rightarrow> instanceWithNodeInfo list" where
  "found_instances inst nodes =
     map (\<lambda>nd. \<lparr>iw_Instance = inst (n_Name nd), iw_Node = nd\<rparr>) (filter is_yandex nodes)"

definition syncPlan :: "string \<Rightarrow> (string \<Rightarrow> string) \<Rightarrow> (string \<Rightarrow> cloud_instance) \<Rightarrow> node list \<Rightarrow>
    (string \<times> target) list" where
  "syncPlan cluster net inst nodes = planned cluster net (found_instances inst nodes)"

lemma findInstances_known:
  assumes "nodes_known cloud inst nds" and "\<forall>nd\<in>set nds. n_ProviderID nd \<noteq> []"
  shows "findInstances cloud ctx nds acc w = (Ok (acc @ found_instances inst nds), w)"
  using assms
proof (induction nds arbitrary: acc)
  case (Cons nd nds)
  have "FindInstanceByName (ComputeSvc (yandexService cloud)) ctx (n_Name nd) w = (Ok (Some (inst (n_Name nd))), w)"
    using Cons.prems(1) by (intro instance_lookup.find_one) (simp add: nodes_known_def)
  moreover have "nodes_known cloud inst nds" using Cons.prems(1) by (simp add: nodes_known_def)
  ultimately show ?case
    using Cons.IH Cons.prems(2)
    by (auto simp: found_instances_def MapNodeNameToInstanceName_def bind_io_OkI attempt_io_OkI)
qed (simp add: found_instances_def)

lemma has_primary_found:
  "nodes_known cloud inst nds \<Longrightarrow> list_all (\<lambda>i. has_primary (iw_Instance i)) (found_instances inst nds)"
  by (auto simp: nodes_known_def found_instances_def list_all_iff)

lemma synchronize_run:
  assumes known: "nodes_known cloud inst nodes" "subnets_known cloud net"
    and ids: "\<forall>nd\<in>set nodes. n_ProviderID nd \<noteq> []"
    and new: "nodes \<noteq> []" "visited_nodes s = Some visited" "visited \<noteq> n_Name ` set nodes"
  shows "synchronizeNodesWithTargetGroups cloud ctx nodes s =
    (let ps = syncPlan (ClusterName (config cloud)) net inst nodes in
     if ps = [] then (Err (ErrConstructMap ErrNoMappings), s)
     else bind_io (on_world (putMapping cloud ctx (grouped ps)))
       (\<lambda>_. setVisitedNodes (n_Name ` set nodes)) s)"
proof -
  have "on_world (findInstances cloud ctx nodes []) s = (Ok (found_instances inst nodes), s)"
    using findInstances_known [OF known(1) ids] by (simp add: on_world_run)
  moreover have "on_world (constructTgNameToTargetMap cloud ctx (found_instances inst nodes)) s =
    (let ps = syncPlan (ClusterName (config cloud)) net inst nodes in
     (if ps = [] then Err ErrNoMappings else Ok (grouped ps), s))"
    using construct_plan [OF known(2) has_primary_found [OF known(1)]]
    by (simp add: on_world_run syncPlan_def Let_def)
  moreover from new(2) obtain ntgs where "nodeTargetGroupSyncer s = Some ntgs" "lastVisitedNodes ntgs = visited"
    by (auto simp: visited_nodes_Some_iff)
  ultimately show ?thesis
    using new(1,3)
    by (simp add: synchronizeNodesWithTargetGroups_def fromNodeToInterfaceSlice_def theSyncer_def
        bind_io_def attempt_io_def Let_def split: if_split)
qed

lemma grouped_colon_free:
  assumes "grouped ps n = Some ts" and "\<forall>p\<in>set ps. CHR '':'' \<notin> set (t_SubnetId (snd p))"
  shows "colon_free ts"
  using assms(2) grouped_Some_targets [OF assms(1)] by (auto simp: colon_free_set)

lemma finite_dom_grouped: "finite (dom (grouped ps))"
  by simp

text \<open>
  A successful synchronisation: every group of the plan has exactly the planned targets,
  every other group is as it was, and the node set is remembered.
\<close>

lemma synchronize_puts:
  assumes known: "nodes_known cloud inst nodes" "subnets_known cloud net"
    and ids: "\<forall>nd\<in>set nodes. n_ProviderID nd \<noteq> []"
    and new: "nodes \<noteq> []" "visited_nodes s = Some visited" "visited \<noteq> n_Name ` set nodes"
    and ready: "tg_ready (LbSvc (yandexService cloud)) tgs (world s)" "fair_orders (libs (yandexService cloud))"
    and cf: "\<forall>p\<in>set (syncPlan (ClusterName (config cloud)) net inst nodes). CHR '':'' \<notin> set (t_SubnetId (snd p))"
    and run: "synchronizeNodesWithTargetGroups cloud ctx nodes s = (Ok u, s')"
  shows "tg_groups tgs (world s') n =
      (case grouped (syncPlan (ClusterName (config cloud)) net inst nodes) n of
         Some ts \<Rightarrow> {set ts} | None \<Rightarrow> tg_groups tgs (world s) n)"
    and "visited_nodes s' = Some (n_Name ` set nodes)"
proof -
  let ?ps = "syncPlan (ClusterName (config cloud)) net inst nodes"
  from run obtain w' where put: "putMapping cloud ctx (grouped ?ps) (world s) = (Ok (), w')"
    and s': "world s' = w'" "visited_nodes s' = Some (n_Name ` set nodes)"
    by (auto simp: synchronize_run [OF known ids new] Let_def bind_io_Ok_iff on_world_Ok_iff
        split: if_splits dest: setVisitedNodes_Ok)
  then show "visited_nodes s' = Some (n_Name ` set nodes)" by simp
  have "tg_groups tgs w' n = (case grouped ?ps n of
      Some ts \<Rightarrow> {set ts} | None \<Rightarrow> tg_groups tgs (world s) n)"
    by (rule putMapping_puts [OF put ready(1) _ finite_dom_grouped ready(2)])
      (rule grouped_colon_free [OF _ cf])
  with s' show "tg_groups tgs (world s') n = (case grouped ?ps n of
      Some ts \<Rightarrow> {set ts} | None \<Rightarrow> tg_groups tgs (world s) n)" by simp
qed

text \<open>
  The remembered node set changes only in a run that succeeds, so a failed run is
  repeated in full by the next call.
\<close>

definition visited_is :: "NodeTargetGroupSyncer option \<Rightarrow> 'w cloud_state \<Rightarrow> bool" where
  "visited_is v s \<longleftrightarrow> nodeTargetGroupSyncer s = v"

lemma keeps_visited [intro, simp]:
  "keeps (visited_is v) theSyncer" "keeps (visited_is v) (on_world m)"
  by (simp_all add: keeps_def visited_is_def theSyncer_def)

lemma setVisitedNodes_total [intro, simp]: "keeps_failing I (setVisitedNodes S)"
  by (auto simp: keeps_failing_def setVisitedNodes_def split: option.splits)

lemma synchronize_failing: "keeps_failing (visited_is v) (synchronizeNodesWithTargetGroups cloud ctx nodes)"
  unfolding synchronizeNodesWithTargetGroups_def Let_def
  by (intro keeps_failing_if keeps_failing_bind keeps_visited keeps_attempt)
    (auto split: sum.split intro: keeps_keeps_failing intro!: keeps_failing_bind)

lemma cleanUp_failing: "keeps_failing (visited_is v) (cleanUpTargetGroups cloud ctx)"
  unfolding cleanUpTargetGroups_def
  by (intro keeps_failing_bind keeps_visited) (auto split: option.split intro: keeps_keeps_failing)

lemma SyncTGs_failing: "keeps_failing (visited_is v) (SyncTGs cloud ctx nodes)"
  unfolding SyncTGs_def
  by (intro keeps_failing_bind keeps_visited keeps_attempt)
    (auto split: sum.split intro: keeps_keeps_failing cleanUp_failing synchronize_failing)

lemma SyncTGs_failed_visited:
  assumes "SyncTGs cloud ctx nodes s = (r, s')" and "r \<noteq> Ok ()"
  shows "nodeTargetGroupSyncer s' = nodeTargetGroupSyncer s"
  using keeps_failingD [OF SyncTGs_failing _ assms(1), of "nodeTargetGroupSyncer s"] assms(2)
  by (simp add: visited_is_def)

text \<open>
  A node without a provider id stops the run before any group is touched (\<open>I\<close> is kept by
  the listings).
\<close>

lemma findInstances_ids:
  "findInstances cloud ctx nds acc w = (Ok insts, w') \<Longrightarrow> nd \<in> set nds \<Longrightarrow> n_ProviderID nd \<noteq> []"
proof (induction nds arbitrary: acc w)
  case (Cons a nds)
  then obtain acc' w1 where "n_ProviderID a \<noteq> []" "findInstances cloud ctx nds acc' w1 = (Ok insts, w')"
    by (auto simp: bind_io_Ok_iff attempt_io_Ok_iff split: if_splits option.splits)
  with Cons show ?case by auto
qed simp

lemma SyncTGs_empty_id:
  assumes I: "\<And>l. keeps I (ServiceList (libs (yandexService cloud)) l)"
      "\<And>ctx q. keeps I (InstanceList (InstanceSvc (ComputeSvc (yandexService cloud))) ctx q)"
    and bad: "\<exists>nd\<in>set nodes. n_ProviderID nd = []"
    and new: "visited_nodes s = Some visited" "visited \<noteq> n_Name ` set nodes"
    and run: "SyncTGs cloud ctx nodes s = (r, s')" and before: "I (world s)"
  shows "r \<noteq> Ok ()" and "I (world s')"
proof -
  from new(1) obtain ntgs where ntgs: "nodeTargetGroupSyncer s = Some ntgs" "lastVisitedNodes ntgs = visited"
    by (auto simp: visited_nodes_Some_iff)
  obtain q w where sl: "ServiceList (libs (yandexService cloud)) (serviceLister ntgs) (world s) = (q, w)" by fastforce
  with I(1) before have w: "I w" by (blast dest: keepsD)
  let ?s = "s\<lparr>world := w\<rparr>"
  obtain f w2 where f: "findInstances cloud ctx nodes [] w = (f, w2)" by fastforce
  with keeps_findInstances [OF I(2)] w have w2: "I w2" by (blast dest: keepsD)
  have nOk: "f \<noteq> Ok insts" for insts using findInstances_ids [of cloud ctx nodes "[]" w insts w2] f bad by auto
  have ne: "nodes \<noteq> []" using bad by auto
  have sync: "synchronizeNodesWithTargetGroups cloud ctx nodes ?s =
      (case f of Err e \<Rightarrow> (Err e, ?s\<lparr>world := w2\<rparr>) | Abort p \<Rightarrow> (Abort p, ?s\<lparr>world := w2\<rparr>)
       | Ok x \<Rightarrow> undefined)"
    using ne new(2) ntgs f nOk
    by (auto simp: synchronizeNodesWithTargetGroups_def fromNodeToInterfaceSlice_def theSyncer_def
        bind_io_def on_world_def Let_def split: outcome.split)
  have "r \<noteq> Ok () \<and> I (world s')"
  proof (cases q)
    case (Ok services)
    with run sl ntgs ne sync have "(r, s') = (case f of Err e \<Rightarrow> (Err e, ?s\<lparr>world := w2\<rparr>)
        | Abort p \<Rightarrow> (Abort p, ?s\<lparr>world := w2\<rparr>) | Ok x \<Rightarrow> undefined)"
      by (simp add: SyncTGs_run)
    with w2 nOk show ?thesis by (cases f) auto
  qed (use run sl ntgs w in \<open>auto simp: SyncTGs_run\<close>)
  then show "r \<noteq> Ok ()" and "I (world s')" by auto
qed

section \<open>Removing the cluster's groups\<close>

text \<open>
  What the cleanup relies on beside \<open>tg_service_laws\<close>: the listing without a filter
  answers all groups of the folder when they fit the page, and a deletion
  that fails with \<open>NotFound\<close> found no group.
\<close>

definition fits_page :: "(string \<rightharpoonup> target_group) \<Rightarrow> bool" where
  "fits_page v \<longleftrightarrow> finite (ran v) \<and> card (ran v) \<le> 1000"

definition tg_cleanup_laws :: "'w LoadBalancerService \<Rightarrow> ('w \<Rightarrow> string \<rightharpoonup> target_group) \<Rightarrow> bool" where
  "tg_cleanup_laws y tgs \<longleftrightarrow>
     (\<forall>ctx w r w'. TgList (lbs_TgSvc y) ctx
         \<lparr>lr_FolderId = FolderID (cloudCtx y), lr_PageSize = 1000, lr_Filter = []\<rparr> w = (r, w') \<longrightarrow>
        tgs w' = tgs w \<and> (\<forall>xs. r = Ok xs \<longrightarrow> fits_page (tgs w) \<longrightarrow> set xs = ran (tgs w))) \<and>
     (\<forall>ctx i w e w'. OperationWaiter (cloudCtx y) ctx (TgDelete (lbs_TgSvc y) ctx i) w = (Err e, w') \<longrightarrow>
        status_Code (libs y) e = codes_NotFound \<longrightarrow> tgs w i = None \<and> tgs w' = tgs w)"

lemma tg_law_missing: "tg_cleanup_laws y tgs \<Longrightarrow>
    OperationWaiter (cloudCtx y) ctx (TgDelete (lbs_TgSvc y) ctx i) w = (Err e, w') \<Longrightarrow>
    status_Code (libs y) e = codes_NotFound \<Longrightarrow> tgs w i = None \<and> tgs w' = tgs w"
  by (simp add: tg_cleanup_laws_def)

lemma tg_law_page: "tg_cleanup_laws y tgs \<Longrightarrow>
    TgList (lbs_TgSvc y) ctx \<lparr>lr_FolderId = FolderID (cloudCtx y), lr_PageSize = 1000, lr_Filter = []\<rparr> w = (r, w') \<Longrightarrow>
    tgs w' = tgs w \<and> (\<forall>xs. r = Ok xs \<longrightarrow> fits_page (tgs w) \<longrightarrow> set xs = ran (tgs w))"
  by (simp add: tg_cleanup_laws_def)

lemma RemoveTGByID_removes:
  assumes "tg_service_laws y tgs" and "tg_cleanup_laws y tgs" and "RemoveTGByID y ctx i w = (Ok u, w')"
  shows "tgs w' = (tgs w)(i := None)"
proof -
  from assms(3) consider m where "OperationWaiter (cloudCtx y) ctx (TgDelete (lbs_TgSvc y) ctx i) w = (Ok m, w')"
    | e where "OperationWaiter (cloudCtx y) ctx (TgDelete (lbs_TgSvc y) ctx i) w = (Err e, w')"
        "status_Code (libs y) e = codes_NotFound"
    by (auto simp: RemoveTGByID_def skipNotFound_Ok_iff)
  then show ?thesis
  proof cases
    case 1
    with assms(1) show ?thesis by (rule tg_law_delete)
  next
    case 2
    from tg_law_missing [OF assms(2) this] show ?thesis by auto
  qed
qed

lemma cleanUp_removes:
  assumes laws: "tg_service_laws (LbSvc (yandexService cloud)) tgs" "tg_cleanup_laws (LbSvc (yandexService cloud)) tgs"
    and fair: "fair_orders (libs (yandexService cloud))"
    and few: "fits_page (tgs (world s))"
    and run: "cleanUpTargetGroups cloud ctx s = (Ok u, s')"
  shows "tgs (world s') i = (case tgs (world s) i of None \<Rightarrow> None
      | Some t \<Rightarrow> if strings_Contains (tg_Name t) (ClusterName (config cloud)) then None else Some t)"
    and "visited_nodes s' = Some {}"
proof -
  let ?y = "yandexService cloud" and ?cn = "ClusterName (config cloud)"
  let ?q = "\<lparr>lr_FolderId = FolderID (cloudCtx (LbSvc ?y)), lr_PageSize = 1000, lr_Filter = []\<rparr>"
  let ?mine = "filter (\<lambda>tg. strings_Contains (tg_Name tg) ?cn)"
  from run obtain xs w1 w2 where
    list: "TgList (lbs_TgSvc (LbSvc ?y)) ctx ?q (world s) = (Ok xs, w1)" and
    eg: "errgroup (\<lambda>ctx tg. RemoveTGByID (LbSvc ?y) ctx (tg_Id tg)) ctx None
        (go_schedule (libs ?y) (?mine xs) w1) w1 = (Ok None, w2)" and
    s': "world s' = w2" "visited_nodes s' = Some {}"
    by (auto simp: cleanUpTargetGroups_def GetTGsByClusterName_def bind_io_Ok_iff on_world_Ok_iff
        split: option.splits dest: setVisitedNodes_Ok)
  then show "visited_nodes s' = Some {}" by simp
  from tg_law_page [OF laws(2) list] few
  have w1: "tgs w1 = tgs (world s)" and xs: "set xs = ran (tgs (world s))" by simp_all
  have "tgs w2 = (\<lambda>i. if i \<in> tg_Id ` set (go_schedule (libs ?y) (?mine xs) w1) then None else tgs w1 i)"
    by (rule errgroup_None [OF eg]) (rule RemoveTGByID_removes [OF laws])
  then have w2: "tgs w2 i = (if i \<in> tg_Id ` {t \<in> ran (tgs (world s)). strings_Contains (tg_Name t) ?cn}
      then None else tgs (world s) i)"
    using go_schedule_set [OF fair] w1 xs by auto
  show "tgs (world s') i = (case tgs (world s) i of None \<Rightarrow> None
      | Some t \<Rightarrow> if strings_Contains (tg_Name t) ?cn then None else Some t)"
  proof (cases "tgs (world s) i")
    case (Some t)
    have "i \<in> tg_Id ` {t \<in> ran (tgs (world s)). strings_Contains (tg_Name t) ?cn} \<longleftrightarrow>
        strings_Contains (tg_Name t) ?cn"
      using Some tg_law_ids [OF laws(1)] by (force simp: ran_def image_iff)
    with w2 s' Some show ?thesis by auto
  qed (use w2 s' in auto)
qed

section \<open>A whole synchronisation\<close>

lemma SyncTGs_puts:
  assumes known: "nodes_known cloud inst nodes" "subnets_known cloud net"
    and ids: "\<forall>nd\<in>set nodes. n_ProviderID nd \<noteq> []"
    and new: "nodes \<noteq> []" "visited_nodes s = Some visited" "visited \<noteq> n_Name ` set nodes"
    and laws: "tg_service_laws (LbSvc (yandexService cloud)) tgs"
      "lists_sets (StringSet_List (libs (LbSvc (yandexService cloud))))" "fair_orders (libs (yandexService cloud))"
    and lister: "\<And>l w. tgs (snd (ServiceList (libs (yandexService cloud)) l w)) = tgs w"
    and cf: "\<forall>t\<in>ran (tgs (world s)). colon_free (tg_Targets t)"
      "\<forall>p\<in>set (syncPlan (ClusterName (config cloud)) net inst nodes). CHR '':'' \<notin> set (t_SubnetId (snd p))"
    and run: "SyncTGs cloud ctx nodes s = (Ok u, s')"
  shows "tg_groups tgs (world s') n =
      (case grouped (syncPlan (ClusterName (config cloud)) net inst nodes) n of
         Some ts \<Rightarrow> {set ts} | None \<Rightarrow> tg_groups tgs (world s) n)"
    and "visited_nodes s' = Some (n_Name ` set nodes)"
proof -
  from new(2) obtain ntgs where ntgs: "nodeTargetGroupSyncer s = Some ntgs" by (auto simp: visited_nodes_Some_iff)
  obtain q w where list: "ServiceList (libs (yandexService cloud)) (serviceLister ntgs) (world s) = (q, w)" by fastforce
  with lister [of "serviceLister ntgs" "world s"] have w: "tgs w = tgs (world s)" by simp
  let ?s = "s\<lparr>world := w\<rparr>"
  from run new(1) ntgs list have sync: "synchronizeNodesWithTargetGroups cloud ctx nodes ?s = (Ok u, s')"
    by (auto simp: SyncTGs_run split: outcome.splits)
  have new': "visited_nodes ?s = Some visited" using new(2) by simp
  have ready: "tg_ready (LbSvc (yandexService cloud)) tgs (world ?s)"
    using laws(1,2) cf(1) w by (simp add: tg_ready_def tgs_colon_free_def)
  note P = synchronize_puts [OF known ids new(1) new' new(3) ready laws(3) cf(2) sync]
  from P(2) show "visited_nodes s' = Some (n_Name ` set nodes)" .
  have "tg_groups tgs w n = tg_groups tgs (world s) n" by (simp add: tg_groups_def w)
  with P(1) [of n] show "tg_groups tgs (world s') n =
      (case grouped (syncPlan (ClusterName (config cloud)) net inst nodes) n of
         Some ts \<Rightarrow> {set ts} | None \<Rightarrow> tg_groups tgs (world s) n)"
    by (simp split: option.splits)
qed

lemma tg_groups_named: "named tg_Name (tgs w) n = {t} \<Longrightarrow> tg_groups tgs w n = {set (tg_Targets t)}"
  by (simp add: tg_groups_def)

section \<open>What the cleanup keeps\<close>

lemma keeps_on_world: "keeps I m \<Longrightarrow> keeps (\<lambda>s. I (world s)) (on_world m)"
  by (auto simp: keeps_def on_world_run)

text \<open>
  The cleanup deletes what one listing has answered; \<open>Q\<close> is what is known of the identifiers
  of the listed groups of the cluster.
\<close>

lemma keeps_errgroup_on:
  "(\<And>ctx x. x \<in> set xs \<Longrightarrow> keeps I (f ctx x)) \<Longrightarrow> keeps I (errgroup f ctx first xs)"
  by (induction xs arbitrary: ctx first) (auto split: sum.split intro!: keeps_bind keeps_attempt)

lemma keeps_cleanUp_known:
  assumes list: "\<And>ctx q. keeps I (TgList (lbs_TgSvc (LbSvc (yandexService yc))) ctx q)"
    and found: "\<And>w ctx q xs w' t. I w \<Longrightarrow> TgList (lbs_TgSvc (LbSvc (yandexService yc))) ctx q w = (Ok xs, w') \<Longrightarrow>
      t \<in> set xs \<Longrightarrow> strings_Contains (tg_Name t) (ClusterName (config yc)) \<Longrightarrow> Q (tg_Id t)"
    and delete: "\<And>ctx i. Q i \<Longrightarrow> keeps I (OperationWaiter (cloudCtx (LbSvc (yandexService yc))) ctx (TgDelete (lbs_TgSvc (LbSvc (yandexService yc))) ctx i))"
    and fair: "fair_orders (libs (yandexService yc))"
  shows "keeps (\<lambda>s. I (world s)) (cleanUpTargetGroups yc ctx)"
  unfolding cleanUpTargetGroups_def
proof (rule keeps_bind_known [where Q = "\<lambda>tgs. \<forall>t\<in>set tgs. Q (tg_Id t)"])
  have "keeps I (GetTGsByClusterName (LbSvc (yandexService yc)) ctx n)" for n
    unfolding GetTGsByClusterName_def by (intro keeps_bind list) simp
  then show "keeps (\<lambda>s. I (world s)) (on_world (GetTGsByClusterName (LbSvc (yandexService yc)) ctx (ClusterName (config yc))))"
    by (rule keeps_on_world)
next
  fix s tgs s'
  assume "I (world s)" and "on_world (GetTGsByClusterName (LbSvc (yandexService yc)) ctx (ClusterName (config yc))) s = (Ok tgs, s')"
  then show "\<forall>t\<in>set tgs. Q (tg_Id t)"
    by (auto simp: on_world_Ok_iff GetTGsByClusterName_def bind_io_Ok_iff intro: found)
next
  fix tgs :: "target_group list" assume Q: "\<forall>t\<in>set tgs. Q (tg_Id t)"
  have del: "keeps I (RemoveTGByID (LbSvc (yandexService yc)) ctx (tg_Id t))" if "t \<in> set tgs" for ctx t
    unfolding RemoveTGByID_def using that Q by (intro keeps_skipNotFound delete) simp
  have "keeps I (errgroup (\<lambda>ctx tg. RemoveTGByID (LbSvc (yandexService yc)) ctx (tg_Id tg)) ctx None
      (go_schedule (libs (yandexService yc)) tgs w))" for w
    by (rule keeps_errgroup_on) (use del go_schedule_set [OF fair] in blast)
  then have "keeps I (\<lambda>w. errgroup (\<lambda>ctx tg. RemoveTGByID (LbSvc (yandexService yc)) ctx (tg_Id tg)) ctx None
      (go_schedule (libs (yandexService yc)) tgs w) w)"
    by (simp add: keeps_def)
  then have "keeps (\<lambda>s. I (world s)) (on_world (\<lambda>w. errgroup (\<lambda>ctx tg. RemoveTGByID (LbSvc (yandexService yc)) ctx (tg_Id tg)) ctx None
      (go_schedule (libs (yandexService yc)) tgs w) w))"
    by (rule keeps_on_world)
  moreover have "keeps (\<lambda>s. I (world s)) (setVisitedNodes S)" for S by (simp add: keeps_def)
  ultimately show "keeps (\<lambda>s. I (world s)) (bind_io (on_world (\<lambda>w. errgroup (\<lambda>ctx tg. RemoveTGByID (LbSvc (yandexService yc)) ctx (tg_Id tg)) ctx None
      (go_schedule (libs (yandexService yc)) tgs w) w)) (\<lambda>first. case first of Some err \<Rightarrow> fail_io err | None \<Rightarrow> setVisitedNodes {}))"
    by (intro keeps_bind) (auto split: option.split)
qed

lemma keeps_cleanUp:
  assumes "\<And>ctx q. keeps I (TgList (lbs_TgSvc (LbSvc (yandexService yc))) ctx q)"
    and "\<And>ctx i. keeps I (OperationWaiter (cloudCtx (LbSvc (yandexService yc))) ctx (TgDelete (lbs_TgSvc (LbSvc (yandexService yc))) ctx i))"
    and "fair_orders (libs (yandexService yc))"
  shows "keeps (\<lambda>s. I (world s)) (cleanUpTargetGroups yc ctx)"
  by (rule keeps_cleanUp_known [where Q = "\<lambda>_. True"]) (use assms in auto)

end
