(* ===== verification/LoadBalancerCtl.thy ===== *)
theory LoadBalancerCtl
  imports LbService TgSyncer
begin

text \<open>
  \<open>pkg/cloudprovider/yandex/load_balancer.go\<close>: the provider's \<open>LoadBalancer\<close> interface.
  A Service is turned into a load balancer's name, listeners, health check and target
  group; the operations call the target group syncer and the load balancer service.
\<close>

section \<open>Annotations and parameters\<close>

definition targetGroupNetworkIdAnnotation :: string where
  "targetGroupNetworkIdAnnotation = ''yandex.cpi.flant.com/target-group-network-id''"

definition externalLoadBalancerAnnotation :: string where
  "externalLoadBalancerAnnotation = ''yandex.cpi.flant.com/loadbalancer-external''"

definition listenerSubnetIdAnnotation :: string where
  "listenerSubnetIdAnnotation = ''yandex.cpi.flant.com/listener-subnet-id''"

definition listenerAddressIPv4 :: string where
  "listenerAddressIPv4 = ''yandex.cpi.flant.com/listener-address-ipv4''"

definition healthcheckIntervalSeconds :: string where
  "healthcheckIntervalSeconds = ''yandex.cpi.flant.com/healthcheck-interval-seconds''"

definition healthcheckTimeoutSeconds :: string where
  "healthcheckTimeoutSeconds = ''yandex.cpi.flant.com/healthcheck-timeout-seconds''"

definition healthcheckUnhealthyThreshold :: string where
  "healthcheckUnhealthyThreshold = ''yandex.cpi.flant.com/healthcheck-unhealthy-threshold''"

definition healthcheckHealthyThreshold :: string where
  "healthcheckHealthyThreshold = ''yandex.cpi.flant.com/healthcheck-healthy-threshold''"

definition nodesHealthCheckPath :: string where
  "nodesHealthCheckPath = ''/healthz''"

definition lbNodesHealthCheckPort :: int32 where
  "lbNodesHealthCheckPort = 10256"

text \<open>A lookup in a Go map answers the zero value for a key that is not there.\<close>

fun kubeToYandexServiceProtoMapping :: "v1_protocol \<Rightarrow> listener_protocol" where
  "kubeToYandexServiceProtoMapping ProtocolTCP = Listener_TCP"
| "kubeToYandexServiceProtoMapping ProtocolUDP = Listener_UDP"
| "kubeToYandexServiceProtoMapping (ProtocolOther _) = Listener_PROTOCOL_UNSPECIFIED"

text \<open>Go's \<open>int\<close> has 64 bits on the platforms the program is built for.\<close>

record loadBalancerParameters =
  p_targetGroupNetworkID :: string
  p_targetGroupNamePrefix :: string
  p_listenerSubnetID :: string
  p_listenerAddressIPv4 :: string
  p_internal :: bool
  p_healthcheckIntervalSeconds :: int64
  p_healthcheckTimeoutSeconds :: int64
  p_healthcheckUnhealthyThreshold :: int64
  p_healthcheckHealthyThreshold :: int64

definition zero_parameters :: loadBalancerParameters where
  "zero_parameters =
     \<lparr>p_targetGroupNetworkID = [], p_targetGroupNamePrefix = [], p_listenerSubnetID = [],
      p_listenerAddressIPv4 = [], p_internal = False,
      p_healthcheckIntervalSeconds = 0, p_healthcheckTimeoutSeconds = 0,
      p_healthcheckUnhealthyThreshold = 0, p_healthcheckHealthyThreshold = 0\<rparr>"

definition tryAnnotationValueToInt :: "string \<Rightarrow> string \<Rightarrow> int64 outcome" where
  "tryAnnotationValueToInt name value =
     (case strconv_Atoi value of
        Ok v \<Rightarrow> Ok v
      | Err err \<Rightarrow> Err (ErrAnnotationInt name value err)
      | Abort p \<Rightarrow> Abort p)"

text \<open>\<open>if value, ok := annotations[name]; ok { field, err = tryAnnotationValueToInt(name, value) }\<close>\<close>

definition intAnnotation :: "service \<Rightarrow> string \<Rightarrow> (int64 \<Rightarrow> loadBalancerParameters) \<Rightarrow>
    loadBalancerParameters \<Rightarrow> loadBalancerParameters outcome" where
  "intAnnotation svc name set_field unset =
     (case s_Annotations svc name of
        None \<Rightarrow> Ok unset
      | Some value \<Rightarrow> bind_outcome (tryAnnotationValueToInt name value) (\<lambda>v. Ok (set_field v)))"

definition getLoadBalancerParameters ::
  "'w Cloud \<Rightarrow> service \<Rightarrow> loadBalancerParameters outcome" where
  "getLoadBalancerParameters yc svc =
     (let p = zero_parameters;
          p = (case s_Annotations svc listenerSubnetIdAnnotation of
                 Some value \<Rightarrow> p\<lparr>p_internal := True, p_listenerSubnetID := value\<rparr>
               | None \<Rightarrow>
                   if length (lbListenerSubnetID (config yc)) \<noteq> 0
                   then p\<lparr>p_listenerSubnetID := lbListenerSubnetID (config yc),
                          p_internal := (s_Annotations svc externalLoadBalancerAnnotation = None)\<rparr>
                   else p);
          p = (case s_Annotations svc targetGroupNetworkIdAnnotation of
                 Some value \<Rightarrow> p\<lparr>p_targetGroupNetworkID := value\<rparr>
               | None \<Rightarrow>
                   if length (lbTgNetworkID (config yc)) \<noteq> 0
                   then p\<lparr>p_targetGroupNetworkID := lbTgNetworkID (config yc)\<rparr> else p);
          p = (case s_Annotations svc listenerAddressIPv4 of
                 Some value \<Rightarrow> p\<lparr>p_listenerAddressIPv4 := value\<rparr> | None \<Rightarrow> p);
          p = (case s_Annotations svc customTargetGroupNamePrefixAnnotation of
                 Some value \<Rightarrow> p\<lparr>p_targetGroupNamePrefix := value\<rparr> | None \<Rightarrow> p)
      in
      bind_outcome (intAnnotation svc healthcheckIntervalSeconds
        (\<lambda>v. p\<lparr>p_healthcheckIntervalSeconds := v\<rparr>) p) (\<lambda>p.
      bind_outcome (intAnnotation svc healthcheckTimeoutSeconds
        (\<lambda>v. p\<lparr>p_healthcheckTimeoutSeconds := v\<rparr>) p) (\<lambda>p.
      bind_outcome (intAnnotation svc healthcheckHealthyThreshold
        (\<lambda>v. p\<lparr>p_healthcheckHealthyThreshold := v\<rparr>) p) (\<lambda>p.
      intAnnotation svc healthcheckUnhealthyThreshold
        (\<lambda>v. p\<lparr>p_healthcheckUnhealthyThreshold := v\<rparr>) p))))"

section \<open>Names, listeners and health checks\<close>

definition defaultLoadBalancerName :: "service \<Rightarrow> string" where
  "defaultLoadBalancerName svc =
     (let ret = ''a'' @ s_UID svc;
          ret = strings_RemoveAll ret (CHR ''-'')
      in if length ret > 32 then take 32 ret else ret)"

definition listenerAddress :: "loadBalancerParameters \<Rightarrow> address_spec" where
  "listenerAddress lbParams =
     (let (addr, version) =
        (if length (p_listenerAddressIPv4 lbParams) > 0
         then (p_listenerAddressIPv4 lbParams, IPV4) else ([], IP_VERSION_UNSPECIFIED))
      in if p_internal lbParams
         then ListenerSpec_InternalAddressSpec
           \<lparr>ia_Address = addr, ia_SubnetId = p_listenerSubnetID lbParams, ia_IpVersion = version\<rparr>
         else ListenerSpec_ExternalAddressSpec \<lparr>ea_Address = addr, ea_IpVersion = version\<rparr>)"

definition listenerSpecOf :: "loadBalancerParameters \<Rightarrow> nat \<times> service_port \<Rightarrow> listener_spec" where
  "listenerSpecOf lbParams ip =
     (let (index, svcPort) = ip;
          listenerName = (if length (sp_Name svcPort) = 0
            then ''listener-'' @ strconv_Itoa (int index) else sp_Name svcPort)
      in \<lparr>ls_Name = listenerName, ls_Port = scast (sp_Port svcPort),
          ls_Protocol = kubeToYandexServiceProtoMapping (sp_Protocol svcPort),
          ls_TargetPort = scast (sp_NodePort svcPort), ls_Address = listenerAddress lbParams\<rparr>)"

definition listenerSpecsOf :: "loadBalancerParameters \<Rightarrow> service \<Rightarrow> listener_spec list" where
  "listenerSpecsOf lbParams svc = map (listenerSpecOf lbParams) (enumerate 0 (s_Ports svc))"

definition healthCheckOf :: "'w YandexCloudAPI \<Rightarrow> loadBalancerParameters \<Rightarrow> service \<Rightarrow> health_check" where
  "healthCheckOf y lbParams svc =
     (let (hcPath, hcPort) =
        (if RequestsOnlyLocalTraffic (libs y) svc then GetServiceHealthCheckPathPort (libs y) svc
         else (nodesHealthCheckPath, lbNodesHealthCheckPort));
          h = \<lparr>hc_Name = ''kube-health-check'', hc_Interval = Some 2, hc_Timeout = Some 1,
               hc_UnhealthyThreshold = 2, hc_HealthyThreshold = 2,
               hc_HttpOptions = Some \<lparr>ho_Port = scast hcPort, ho_Path = hcPath\<rparr>\<rparr>;
          h = (if 0 <s p_healthcheckIntervalSeconds lbParams
               then h\<lparr>hc_Interval := Some (p_healthcheckIntervalSeconds lbParams)\<rparr> else h);
          h = (if 0 <s p_healthcheckTimeoutSeconds lbParams
               then h\<lparr>hc_Timeout := Some (p_healthcheckTimeoutSeconds lbParams)\<rparr> else h);
          h = (if 0 <s p_healthcheckUnhealthyThreshold lbParams
               then h\<lparr>hc_UnhealthyThreshold := p_healthcheckUnhealthyThreshold lbParams\<rparr> else h);
          h = (if 0 <s p_healthcheckHealthyThreshold lbParams
               then h\<lparr>hc_HealthyThreshold := p_healthcheckHealthyThreshold lbParams\<rparr> else h)
      in h)"

definition tgNameOf :: "'w Cloud \<Rightarrow> loadBalancerParameters \<Rightarrow> string" where
  "tgNameOf yc lbParams =
     p_targetGroupNamePrefix lbParams @ ClusterName (config yc) @ p_targetGroupNetworkID lbParams"

section \<open>The interface LoadBalancer\<close>

definition ensureLB :: "'w Cloud \<Rightarrow> ctx \<Rightarrow> service \<Rightarrow> node list \<Rightarrow> ('w, lb_status) io" where
  "ensureLB yc ctx svc nodes =
     (if length (s_Ports svc) > 10 then fail_io ErrTooManyPorts
      else if length nodes = 0 then fail_io ErrNoNodes
      else
        let lbName = defaultLoadBalancerName svc in
        case getLoadBalancerParameters yc svc of
          Abort p \<Rightarrow> lift_outcome (Abort p)
        | Err err \<Rightarrow> fail_io (ErrParameters err)
        | Ok lbParams \<Rightarrow>
            let listenerSpecs = listenerSpecsOf lbParams svc;
                healthChecks = [healthCheckOf (yandexService yc) lbParams svc];
                tgName = tgNameOf yc lbParams in
            bind_io (GetTgByName (LbSvc (yandexService yc)) ctx tgName) (\<lambda>tg.
            case tg of
              None \<Rightarrow> fail_io (ErrTGMissing tgName)
            | Some tg \<Rightarrow>
                bind_io (CreateOrUpdateLB (LbSvc (yandexService yc)) ctx lbName listenerSpecs
                    [\<lparr>at_TargetGroupId = tg_Id tg, at_HealthChecks = healthChecks\<rparr>]) (\<lambda>externalIP.
                return_io \<lparr>st_Ingress = [externalIP]\<rparr>)))"

definition EnsureLoadBalancer ::
  "'w Cloud \<Rightarrow> ctx \<Rightarrow> service \<Rightarrow> node list \<Rightarrow> ('w cloud_state, lb_status) io" where
  "EnsureLoadBalancer yc ctx svc nodes =
     bind_io (SyncTGs yc ctx nodes) (\<lambda>_. on_world (ensureLB yc ctx svc nodes))"

definition UpdateLoadBalancer ::
  "'w Cloud \<Rightarrow> ctx \<Rightarrow> service \<Rightarrow> node list \<Rightarrow> ('w cloud_state, unit) io" where
  "UpdateLoadBalancer yc ctx svc nodes =
     bind_io (SyncTGs yc ctx nodes) (\<lambda>_.
     bind_io (on_world (ensureLB yc ctx svc nodes)) (\<lambda>_. return_io ()))"

definition EnsureLoadBalancerDeleted ::
  "'w Cloud \<Rightarrow> ctx \<Rightarrow> service \<Rightarrow> ('w cloud_state, unit) io" where
  "EnsureLoadBalancerDeleted yc ctx svc =
     bind_io (on_world (RemoveLBByName (LbSvc (yandexService yc)) ctx (defaultLoadBalancerName svc))) (\<lambda>_.
     SyncTGs yc ctx [])"

definition ingressOf :: "'w YandexCloudAPI \<Rightarrow> listener \<Rightarrow> string" where
  "ingressOf y l =
     strings_ToLower (Listener_Protocol_name (libs y) (l_Protocol l)) @ ''://'' @ l_Address l @
     '':'' @ strconv_Itoa (sint (l_Port l))"

text \<open>The answer is the status and whether the load balancer exists.\<close>

definition GetLoadBalancer :: "'w Cloud \<Rightarrow> ctx \<Rightarrow> service \<Rightarrow> ('w, lb_status \<times> bool) io" where
  "GetLoadBalancer yc ctx svc =
     bind_io (GetLbByName (LbSvc (yandexService yc)) ctx (defaultLoadBalancerName svc)) (\<lambda>lb.
     case lb of
       None \<Rightarrow> return_io (\<lparr>st_Ingress = []\<rparr>, False)
     | Some lb \<Rightarrow>
         return_io (\<lparr>st_Ingress = map (ingressOf (yandexService yc)) (lb_Listeners lb)\<rparr>, True))"

definition GetLoadBalancerName :: "'w Cloud \<Rightarrow> service \<Rightarrow> string" where
  "GetLoadBalancerName yc svc = defaultLoadBalancerName svc"

section \<open>Names\<close>

text \<open>The characters of a UID that reach the name.\<close>

definition stripped_uid :: "service \<Rightarrow> string" where
  "stripped_uid svc = strings_RemoveAll (s_UID svc) (CHR ''-'')"

lemma lb_name_eq: "defaultLoadBalancerName svc = CHR ''a'' # take 31 (stripped_uid svc)"
  by (simp add: defaultLoadBalancerName_def stripped_uid_def strings_RemoveAll_def Let_def numeral_eq_Suc)

lemma lb_name_props:
  "length (defaultLoadBalancerName svc) \<le> 32" "defaultLoadBalancerName svc \<noteq> []"
  "CHR ''-'' \<notin> set (defaultLoadBalancerName svc)"
  by (auto simp: lb_name_eq stripped_uid_def strings_RemoveAll_def dest: in_set_takeD)

section \<open>The listeners of a valid service\<close>

text \<open>
  What Kubernetes validates of a Service: protocol and port are distinct, and when there
  is more than one port every port has a name of its own. (SCTP aside, which the cloud
  does not have.)
\<close>

definition valid_ports :: "service_port list \<Rightarrow> bool" where
  "valid_ports ports \<longleftrightarrow>
     distinct (map (\<lambda>p. (sp_Protocol p, sp_Port p)) ports) \<and>
     list_all (\<lambda>p. sp_Protocol p \<in> {ProtocolTCP, ProtocolUDP}) ports \<and>
     (length ports > 1 \<longrightarrow> list_all (\<lambda>p. sp_Name p \<noteq> []) ports \<and> distinct (map sp_Name ports))"

lemma scast_int32_inj: "(scast (a :: int32) :: int64) = scast b \<longleftrightarrow> a = b"
proof
  assume eq: "(scast a :: int64) = scast b"
  show "a = b"
  proof (rule bit_word_eqI)
    fix n assume n: "n < LENGTH(32)"
    from eq have "bit (scast a :: int64) n = bit (scast b :: int64) n" by simp
    with n show "bit a n = bit b n" by (simp add: bit_signed_iff)
  qed
qed simp

lemma specs_of_names:
  "list_all (\<lambda>p. sp_Name p \<noteq> []) ports \<Longrightarrow>
     map ls_Name (map (listenerSpecOf prm) (enumerate k ports)) = map sp_Name ports"
  by (induction ports arbitrary: k) (auto simp: listenerSpecOf_def Let_def)

definition port_key :: "service_port \<Rightarrow> listener_protocol \<times> int64 \<times> int64" where
  "port_key p = (kubeToYandexServiceProtoMapping (sp_Protocol p), scast (sp_Port p), scast (sp_NodePort p))"

lemma specs_of_keys: "map ls_key (map (listenerSpecOf prm) (enumerate k ports)) = map port_key ports"
  by (induction ports arbitrary: k) (auto simp: listenerSpecOf_def Let_def ls_key_def port_key_def)

lemma protocol_mapping_inj:
  "a \<in> {ProtocolTCP, ProtocolUDP} \<Longrightarrow> b \<in> {ProtocolTCP, ProtocolUDP} \<Longrightarrow>
     kubeToYandexServiceProtoMapping a = kubeToYandexServiceProtoMapping b \<longleftrightarrow> a = b"
  by auto

lemma port_keys_distinct: "valid_ports ports \<Longrightarrow> distinct (map port_key ports)"
proof -
  assume v: "valid_ports ports"
  have "sp_Protocol p = sp_Protocol q \<and> sp_Port p = sp_Port q"
    if "p \<in> set ports" "q \<in> set ports" "port_key p = port_key q" for p q
    using that v protocol_mapping_inj [of "sp_Protocol p" "sp_Protocol q"]
    by (auto simp: valid_ports_def list_all_iff port_key_def scast_int32_inj)
  then have "inj_on port_key (set ports)"
    using v by (intro inj_onI) (auto simp: valid_ports_def intro: distinct_map_eq)
  moreover from v have "distinct ports" by (auto simp: valid_ports_def distinct_map)
  ultimately show ?thesis by (simp add: distinct_map)
qed

lemma listenerSpecs_wf:
  assumes "valid_ports (s_Ports svc)"
  shows "specs_wf (listenerSpecsOf prm svc)"
proof -
  have "distinct (map ls_Name (listenerSpecsOf prm svc))"
  proof (cases "length (s_Ports svc) > 1")
    case True
    with assms specs_of_names [of "s_Ports svc" prm 0] show ?thesis
      by (simp add: valid_ports_def listenerSpecsOf_def)
  next
    case False
    then have "length (listenerSpecsOf prm svc) \<le> 1" by (simp add: listenerSpecsOf_def)
    then show ?thesis by (cases "listenerSpecsOf prm svc") auto
  qed
  moreover have "distinct (map ls_key (listenerSpecsOf prm svc))"
    using port_keys_distinct [OF assms] specs_of_keys [of prm 0 "s_Ports svc"]
    by (simp add: listenerSpecsOf_def)
  ultimately show ?thesis by (simp add: specs_wf_def)
qed

lemma listenerSpecs_type:
  assumes "s_Ports svc \<noteq> []"
  shows "nlbTypeOf (listenerSpecsOf prm svc) = (if p_internal prm then NLB_INTERNAL else NLB_EXTERNAL)"
proof (cases "p_internal prm")
  case True
  with assms show ?thesis
    by (cases "s_Ports svc")
      (auto simp: listenerSpecsOf_def listenerSpecOf_def listenerAddress_def Let_def)
next
  case False
  have "nlbTypeOf (map (listenerSpecOf prm) (enumerate k ps)) = NLB_EXTERNAL" for k ps
    using False by (induction ps arbitrary: k) (auto simp: listenerSpecOf_def listenerAddress_def Let_def)
  with False show ?thesis by (simp add: listenerSpecsOf_def)
qed

lemma healthCheck_http: "hc_HttpOptions (healthCheckOf y prm svc) \<noteq> None"
  by (simp add: healthCheckOf_def Let_def split: prod.split)

lemma attached_one_wf: "attached_wf [\<lparr>at_TargetGroupId = i, at_HealthChecks = [healthCheckOf y prm svc]\<rparr>]"
  using healthCheck_http by (auto simp: attached_wf_def checkable_def)

section \<open>Runs of ensureLB\<close>

text \<open>What \<open>ensureLB\<close> asks the load balancer service for.\<close>

definition wanted_target_group :: "'w Cloud \<Rightarrow> loadBalancerParameters \<Rightarrow> service \<Rightarrow> string \<Rightarrow>
    attached_target_group list" where
  "wanted_target_group yc prm svc tgId =
     [\<lparr>at_TargetGroupId = tgId, at_HealthChecks = [healthCheckOf (yandexService yc) prm svc]\<rparr>]"

lemma wanted_target_group_wf: "attached_wf (wanted_target_group yc prm svc i)"
  unfolding wanted_target_group_def by (rule attached_one_wf)

lemma ensureLB_run:
  assumes "length (s_Ports svc) \<le> 10" and "nodes \<noteq> []" and "getLoadBalancerParameters yc svc = Ok prm"
  shows "ensureLB yc ctx svc nodes =
    bind_io (GetTgByName (LbSvc (yandexService yc)) ctx (tgNameOf yc prm)) (\<lambda>tg.
      case tg of
        None \<Rightarrow> fail_io (ErrTGMissing (tgNameOf yc prm))
      | Some tg \<Rightarrow>
          bind_io (CreateOrUpdateLB (LbSvc (yandexService yc)) ctx (defaultLoadBalancerName svc)
              (listenerSpecsOf prm svc) (wanted_target_group yc prm svc (tg_Id tg)))
            (\<lambda>externalIP. return_io \<lparr>st_Ingress = [externalIP]\<rparr>))"
  using assms unfolding ensureLB_def wanted_target_group_def by (simp add: Let_def)

lemma ensureLB_Ok:
  assumes "ensureLB yc ctx svc nodes w = (Ok st, w')"
  obtains prm tg w1 addr where "length (s_Ports svc) \<le> 10" "nodes \<noteq> []"
    "getLoadBalancerParameters yc svc = Ok prm"
    "GetTgByName (LbSvc (yandexService yc)) ctx (tgNameOf yc prm) w = (Ok (Some tg), w1)"
    "CreateOrUpdateLB (LbSvc (yandexService yc)) ctx (defaultLoadBalancerName svc) (listenerSpecsOf prm svc)
       (wanted_target_group yc prm svc (tg_Id tg)) w1 = (Ok addr, w')"
    "st = \<lparr>st_Ingress = [addr]\<rparr>"
proof -
  from assms have guards: "length (s_Ports svc) \<le> 10" "nodes \<noteq> []"
    by (auto simp: ensureLB_def split: if_splits)
  with assms obtain prm where prm: "getLoadBalancerParameters yc svc = Ok prm"
    by (auto simp: ensureLB_def Let_def split: if_splits outcome.splits)
  from assms obtain tg w1 addr where
    "GetTgByName (LbSvc (yandexService yc)) ctx (tgNameOf yc prm) w = (Ok (Some tg), w1)"
    "CreateOrUpdateLB (LbSvc (yandexService yc)) ctx (defaultLoadBalancerName svc) (listenerSpecsOf prm svc)
       (wanted_target_group yc prm svc (tg_Id tg)) w1 = (Ok addr, w')"
    "st = \<lparr>st_Ingress = [addr]\<rparr>"
    by (auto simp: ensureLB_run [OF guards prm] bind_io_Ok_iff split: option.splits)
  with guards prm show thesis by (rule that)
qed

lemma ensureLB_puts:
  assumes laws: "lb_service_laws (LbSvc (yandexService yc)) lbs" "tg_service_laws (LbSvc (yandexService yc)) tgs"
    and frame: "\<And>ctx n. keeps (\<lambda>w. lbs w = v) (TgList (lbs_TgSvc (LbSvc (yandexService yc))) ctx
        (name_query (LbSvc (yandexService yc)) n))" "lbs w = v"
    and ports: "valid_ports (s_Ports svc)"
    and run: "ensureLB yc ctx svc nodes w = (Ok st, w')"
  shows "\<exists>prm tg addr. getLoadBalancerParameters yc svc = Ok prm \<and>
    named tg_Name (tgs w) (tgNameOf yc prm) = {tg} \<and>
    lb_put lbs (defaultLoadBalancerName svc) (listenerSpecsOf prm svc)
      (wanted_target_group yc prm svc (tg_Id tg)) w addr w' \<and>
    st = \<lparr>st_Ingress = [addr]\<rparr>"
proof -
  from run obtain prm tg w1 addr where
    prm: "getLoadBalancerParameters yc svc = Ok prm" and
    get: "GetTgByName (LbSvc (yandexService yc)) ctx (tgNameOf yc prm) w = (Ok (Some tg), w1)" and
    put: "CreateOrUpdateLB (LbSvc (yandexService yc)) ctx (defaultLoadBalancerName svc) (listenerSpecsOf prm svc)
       (wanted_target_group yc prm svc (tg_Id tg)) w1 = (Ok addr, w')" and
    st: "st = \<lparr>st_Ingress = [addr]\<rparr>"
    by (rule ensureLB_Ok)
  have tg: "named tg_Name (tgs w) (tgNameOf yc prm) = {tg}"
    using tg_lookup.find_named(2) [OF tg_law_list [OF laws(2)] tg_law_many [OF laws(2)] get] by simp
  have "keeps (\<lambda>w. lbs w = v) (GetTgByName (LbSvc (yandexService yc)) ctx (tgNameOf yc prm))"
    by (rule tg_lookup.keeps_find) (rule frame)
  with get frame(2) have same: "lbs w1 = lbs w" by (auto dest: keepsD)
  have "lb_put lbs (defaultLoadBalancerName svc) (listenerSpecsOf prm svc)
      (wanted_target_group yc prm svc (tg_Id tg)) w1 addr w'"
    by (rule CreateOrUpdateLB_puts [OF laws(1) listenerSpecs_wf [OF ports] wanted_target_group_wf put])
  then have "lb_put lbs (defaultLoadBalancerName svc) (listenerSpecsOf prm svc)
      (wanted_target_group yc prm svc (tg_Id tg)) w addr w'"
    unfolding lb_put_before [where lbs = lbs, OF same] .
  with prm tg st show ?thesis by blast
qed

text \<open>
  A second run, when the load balancer is as wanted, is three listings: no request that
  changes anything.
\<close>

lemma ensureLB_stable:
  assumes guards: "length (s_Ports svc) \<le> 10" "nodes \<noteq> []" "getLoadBalancerParameters yc svc = Ok prm"
    and tg: "GetTgByName (LbSvc (yandexService yc)) ctx (tgNameOf yc prm) w = (Ok (Some tg), w1)"
    and lb: "GetLbByName (LbSvc (yandexService yc)) ctx (defaultLoadBalancerName svc) w1 = (Ok (Some c), w2)"
    and ports: "valid_ports (s_Ports svc)"
    and m: "lb_matches c (listenerSpecsOf prm svc) (wanted_target_group yc prm svc (tg_Id tg))"
  shows "ensureLB yc ctx svc nodes w =
    (bind_outcome (firstAddress c) (\<lambda>a. Ok \<lparr>st_Ingress = [a]\<rparr>), w2)"
proof -
  from m have ty: "lb_Type c = nlbTypeOf (listenerSpecsOf prm svc)" by (simp add: lb_matches_def)
  have "CreateOrUpdateLB (LbSvc (yandexService yc)) ctx (defaultLoadBalancerName svc) (listenerSpecsOf prm svc)
       (wanted_target_group yc prm svc (tg_Id tg)) w1 = (firstAddress c, w2)"
    using CreateOrUpdateLB_update [OF lb ty]
      updateLB_stable [OF listenerSpecs_wf [OF ports] wanted_target_group_wf m] by simp
  with tg show ?thesis
    by (cases "firstAddress c") (simp_all add: ensureLB_run [OF guards] bind_io_OkI bind_io_def)
qed

text \<open>What the health check of a service is, field by field.\<close>

lemma healthCheck_fields:
  "hc_Name (healthCheckOf y prm svc) = ''kube-health-check''"
  "hc_Interval (healthCheckOf y prm svc) =
     Some (if 0 <s p_healthcheckIntervalSeconds prm then p_healthcheckIntervalSeconds prm else 2)"
  "hc_Timeout (healthCheckOf y prm svc) =
     Some (if 0 <s p_healthcheckTimeoutSeconds prm then p_healthcheckTimeoutSeconds prm else 1)"
  "hc_UnhealthyThreshold (healthCheckOf y prm svc) =
     (if 0 <s p_healthcheckUnhealthyThreshold prm then p_healthcheckUnhealthyThreshold prm else 2)"
  "hc_HealthyThreshold (healthCheckOf y prm svc) =
     (if 0 <s p_healthcheckHealthyThreshold prm then p_healthcheckHealthyThreshold prm else 2)"
  "hc_HttpOptions (healthCheckOf y prm svc) = Some
     (if RequestsOnlyLocalTraffic (libs y) svc
      then \<lparr>ho_Port = scast (snd (GetServiceHealthCheckPathPort (libs y) svc)), ho_Path = fst (GetServiceHealthCheckPathPort (libs y) svc)\<rparr>
      else \<lparr>ho_Port = 10256, ho_Path = ''/healthz''\<rparr>)"
  by (simp_all add: healthCheckOf_def Let_def nodesHealthCheckPath_def lbNodesHealthCheckPort_def split: prod.split)

text \<open>A load balancer that is as the service wants it, in terms of the service.\<close>

lemma single_attached:
  assumes "lb_wf c" and "lb_AttachedTargetGroups c \<noteq> []"
    and "\<And>a. a \<in> set (lb_AttachedTargetGroups c) \<Longrightarrow> at_TargetGroupId a = i"
  shows "\<exists>a. lb_AttachedTargetGroups c = [a] \<and> at_TargetGroupId a = i"
proof (cases "lb_AttachedTargetGroups c")
  case (Cons a as)
  have a: "at_TargetGroupId a = i" using assms(3) [of a] Cons by simp
  have "as = []"
  proof (cases as)
    case (Cons b bs)
    have "at_TargetGroupId b = i" using assms(3) [of b] \<open>lb_AttachedTargetGroups c = a # as\<close> Cons by simp
    with a assms(1) \<open>lb_AttachedTargetGroups c = a # as\<close> Cons show ?thesis by (simp add: lb_wf_def)
  qed
  with Cons a show ?thesis by simp
qed (use assms in simp)

lemma matches_service:
  assumes m: "lb_matches c (listenerSpecsOf prm svc) (wanted_target_group yc prm svc i)"
    and wf: "lb_wf c" and addr: "firstAddress c = Ok addr"
  shows "lb_Type c = (if p_internal prm then NLB_INTERNAL else NLB_EXTERNAL)"
    and "l_key ` set (lb_Listeners c) = port_key ` set (s_Ports svc)"
    and "\<exists>a h hs. lb_AttachedTargetGroups c = [a] \<and> at_TargetGroupId a = i \<and> at_HealthChecks a = h # hs \<and>
      health_check_same h (healthCheckOf (yandexService yc) prm svc)"
proof -
  have "map ls_key (listenerSpecsOf prm svc) = map port_key (s_Ports svc)"
    by (simp only: listenerSpecsOf_def specs_of_keys)
  then have "ls_key ` set (listenerSpecsOf prm svc) = port_key ` set (s_Ports svc)"
    by (metis list.set_map)
  with m show keys: "l_key ` set (lb_Listeners c) = port_key ` set (s_Ports svc)" by (simp add: lb_matches_def)
  from addr have "lb_Listeners c \<noteq> []" by (auto simp: firstAddress_def)
  with keys have "s_Ports svc \<noteq> []" by auto
  with listenerSpecs_type [OF this, of prm] m
  show "lb_Type c = (if p_internal prm then NLB_INTERNAL else NLB_EXTERNAL)" by (simp add: lb_matches_def)
  let ?e = "\<lparr>at_TargetGroupId = i, at_HealthChecks = [healthCheckOf (yandexService yc) prm svc]\<rparr>"
  from m have same: "\<exists>a\<in>set (lb_AttachedTargetGroups c). attached_same a ?e"
    "\<And>a. a \<in> set (lb_AttachedTargetGroups c) \<Longrightarrow> attached_same a ?e"
    by (auto simp: lb_matches_def wanted_target_group_def)
  then obtain a where "lb_AttachedTargetGroups c = [a]" "at_TargetGroupId a = i"
    using single_attached [OF wf, of i] by (fastforce dest: attached_same_id)
  with same(2) [of a] show "\<exists>a h hs. lb_AttachedTargetGroups c = [a] \<and> at_TargetGroupId a = i \<and> at_HealthChecks a = h # hs \<and>
      health_check_same h (healthCheckOf (yandexService yc) prm svc)"
    by (auto simp: attached_same_def)
qed

section \<open>Removing a load balancer\<close>

text \<open>A deletion that fails with \<open>NotFound\<close> found nothing.\<close>

definition lb_delete_laws :: "'w LoadBalancerService \<Rightarrow> ('w \<Rightarrow> string \<rightharpoonup> nlb) \<Rightarrow> bool" where
  "lb_delete_laws y lbs \<longleftrightarrow>
     (\<forall>ctx i w e w'. OperationWaiter (cloudCtx y) ctx (LbDelete (lbs_LbSvc y) ctx i) w = (Err e, w') \<longrightarrow>
        status_Code (libs y) e = codes_NotFound \<longrightarrow> lbs w i = None \<and> lbs w' = lbs w)"

lemma RemoveLBByName_removes:
  assumes laws: "lb_service_laws y lbs" "lb_delete_laws y lbs"
    and run: "RemoveLBByName y ctx n w = (Ok u, w')"
  shows "named lb_Name (lbs w') m = (if m = n then {} else named lb_Name (lbs w) m)"
proof -
  from run obtain r w1 where get: "GetLbByName y ctx n w = (Ok r, w1)"
    and rest: "(case r of None \<Rightarrow> return_io () | Some lb \<Rightarrow>
      skipNotFound y (OperationWaiter (cloudCtx y) ctx (LbDelete (lbs_LbSvc y) ctx (lb_Id lb)))) w1 = (Ok u, w')"
    by (auto simp: RemoveLBByName_def bind_io_Ok_iff)
  note F = lb_lookup.find_named [OF lb_law_list [OF laws(1)] lb_law_many [OF laws(1)] get]
  from F(1) have v1: "lbs w1 = lbs w" .
  note ids = lb_law_ids [OF laws(1)]
  show ?thesis
  proof (cases r)
    case None
    with F(2) rest v1 show ?thesis by auto
  next
    case (Some c)
    with F(2) v1 have one: "named lb_Name (lbs w1) n = {c}" by simp
    have at: "lbs w1 (lb_Id c) = Some c" by (rule named_sing_lookup(1) [OF one]) (rule ids)
    have "lbs w' = (lbs w1)(lb_Id c := None)"
      using rest Some lb_law_delete [OF laws(1)] laws(2) at
      by (fastforce simp: skipNotFound_Ok_iff lb_delete_laws_def)
    moreover note D = named_delete [OF one at, where idof = lb_Id]
    have "named lb_Name ((lbs w1)(lb_Id c := None)) n = {}" by (rule D(1)) (rule ids)
    moreover have "named lb_Name ((lbs w1)(lb_Id c := None)) m = named lb_Name (lbs w1) m" if "m \<noteq> n"
      by (rule D(2)) (use ids that in auto)
    ultimately show ?thesis using v1 by auto
  qed
qed

section \<open>Ensuring a load balancer, from the nodes to the listeners\<close>

lemma keeps_ensureLB:
  assumes "\<And>ctx n. keeps I (TgList (lbs_TgSvc (LbSvc (yandexService yc))) ctx (name_query (LbSvc (yandexService yc)) n))"
    and "lb_requests_keep (LbSvc (yandexService yc)) I"
  shows "keeps I (ensureLB yc ctx svc nodes)"
  unfolding ensureLB_def Let_def
  by (intro keeps_if keeps_fail)
    (auto split: outcome.split option.split
      intro!: keeps_bind keeps_CreateOrUpdateLB tg_lookup.keeps_find assms)

lemma tg_law_list_keeps:
  "tg_service_laws y tgs \<Longrightarrow> keeps (\<lambda>w. tgs w = v) (TgList (lbs_TgSvc y) ctx (name_query y n))"
  using tg_law_list [of y tgs ctx n] by (auto simp: answers_named_def intro!: keepsI)

lemma EnsureLoadBalancer_puts:
  assumes known: "nodes_known yc inst nodes" "subnets_known yc net"
    and ids: "\<forall>nd\<in>set nodes. n_ProviderID nd \<noteq> []"
    and new: "visited_nodes s = Some visited" "visited \<noteq> n_Name ` set nodes"
    and laws: "tg_service_laws (LbSvc (yandexService yc)) tgs" "lb_service_laws (LbSvc (yandexService yc)) lbs"
      "lists_sets (StringSet_List (libs (LbSvc (yandexService yc))))" "fair_orders (libs (yandexService yc))"
    and frames: "\<And>l w. tgs (snd (ServiceList (libs (yandexService yc)) l w)) = tgs w"
      "\<And>v. lb_requests_keep (LbSvc (yandexService yc)) (\<lambda>w. tgs w = v)"
      "\<And>ctx q w. lbs (snd (TgList (lbs_TgSvc (LbSvc (yandexService yc))) ctx q w)) = lbs w"
    and cf: "\<forall>t\<in>ran (tgs (world s)). colon_free (tg_Targets t)"
      "\<forall>p\<in>set (syncPlan (ClusterName (config yc)) net inst nodes). CHR '':'' \<notin> set (t_SubnetId (snd p))"
    and ports: "valid_ports (s_Ports svc)"
    and run: "EnsureLoadBalancer yc ctx svc nodes s = (Ok st, s')"
  shows "\<exists>prm c t addr. getLoadBalancerParameters yc svc = Ok prm \<and>
    named lb_Name (lbs (world s')) (defaultLoadBalancerName svc) = {c} \<and>
    lb_matches c (listenerSpecsOf prm svc) (wanted_target_group yc prm svc (tg_Id t)) \<and>
    firstAddress c = Ok addr \<and> st = \<lparr>st_Ingress = [addr]\<rparr> \<and>
    named tg_Name (tgs (world s')) (tgNameOf yc prm) = {t} \<and>
    (\<forall>ts. grouped (syncPlan (ClusterName (config yc)) net inst nodes) (tgNameOf yc prm) = Some ts \<longrightarrow>
       set (tg_Targets t) = set ts)"
proof -
  let ?plan = "grouped (syncPlan (ClusterName (config yc)) net inst nodes)"
  from run obtain s1 w' where sync: "SyncTGs yc ctx nodes s = (Ok (), s1)"
    and ens: "ensureLB yc ctx svc nodes (world s1) = (Ok st, w')" and s': "world s' = w'"
    by (auto simp: EnsureLoadBalancer_def bind_io_Ok_iff on_world_Ok_iff)
  from ens have ne: "nodes \<noteq> []" by (auto elim: ensureLB_Ok)
  note groups = SyncTGs_puts(1) [OF known ids ne new laws(1,3,4) frames(1) cf sync]
  have lbf: "keeps (\<lambda>w. lbs w = v) (TgList (lbs_TgSvc (LbSvc (yandexService yc))) ctx (name_query (LbSvc (yandexService yc)) n))"
    for v ctx n using frames(3) by (simp add: keeps_def)
  from ensureLB_puts [OF laws(2,1) lbf refl ports ens] obtain prm t addr where
    prm: "getLoadBalancerParameters yc svc = Ok prm" and
    t: "named tg_Name (tgs (world s1)) (tgNameOf yc prm) = {t}" and
    put: "lb_put lbs (defaultLoadBalancerName svc) (listenerSpecsOf prm svc)
      (wanted_target_group yc prm svc (tg_Id t)) (world s1) addr w'" and
    st: "st = \<lparr>st_Ingress = [addr]\<rparr>" by blast
  have "keeps (\<lambda>w. tgs w = tgs (world s1)) (ensureLB yc ctx svc nodes)"
    by (intro keeps_ensureLB tg_law_list_keeps [OF laws(1)] frames(2))
  with ens have same: "tgs w' = tgs (world s1)" by (auto dest: keepsD)
  have "set (tg_Targets t) = set ts" if "?plan (tgNameOf yc prm) = Some ts" for ts
    using groups [of "tgNameOf yc prm"] tg_groups_named [where tgs = tgs, OF t] that by simp
  with prm t put st same s' show ?thesis unfolding lb_put_def by (metis (no_types, lifting))
qed

section \<open>The name of the target group\<close>

text \<open>
  The syncer names a group by the node's annotation, \<open>ensureLB\<close> looks it up by the
  service's.
\<close>

lemma tgKey_prefix:
  "n_Annotations nd customTargetGroupNamePrefixAnnotation = Some v \<Longrightarrow>
     tgKey cluster nd net = take 36 v @ cluster @ net"
  by (simp add: tgKey_def truncateAnnotationValue_def Let_def)

lemma tgKey_plain:
  "n_Annotations nd customTargetGroupNamePrefixAnnotation = None \<Longrightarrow> tgKey cluster nd net = cluster @ net"
  by (simp add: tgKey_def Let_def)

lemma take_prefix_iff: "take k v @ x = v @ x \<longleftrightarrow> length v \<le> k"
  by (metis append_same_eq length_take min_def take_all_iff nle_le)

section \<open>Parameters\<close>

text \<open>The parameters as a function of the annotations, the health check's numbers given.\<close>

definition annotation_int :: "service \<Rightarrow> string \<Rightarrow> int64 outcome" where
  "annotation_int svc name =
     (case s_Annotations svc name of None \<Rightarrow> Ok 0 | Some v \<Rightarrow> tryAnnotationValueToInt name v)"

definition annotation_or :: "service \<Rightarrow> string \<Rightarrow> string \<Rightarrow> string" where
  "annotation_or svc name dflt = (case s_Annotations svc name of None \<Rightarrow> dflt | Some v \<Rightarrow> v)"

definition parameters_of :: "'w Cloud \<Rightarrow> service \<Rightarrow> int64 \<Rightarrow> int64 \<Rightarrow> int64 \<Rightarrow> int64 \<Rightarrow> loadBalancerParameters" where
  "parameters_of yc svc interval timeout healthy unhealthy =
     \<lparr>p_targetGroupNetworkID = annotation_or svc targetGroupNetworkIdAnnotation (lbTgNetworkID (config yc)),
      p_targetGroupNamePrefix = annotation_or svc customTargetGroupNamePrefixAnnotation [],
      p_listenerSubnetID = annotation_or svc listenerSubnetIdAnnotation (lbListenerSubnetID (config yc)),
      p_listenerAddressIPv4 = annotation_or svc listenerAddressIPv4 [],
      p_internal = (s_Annotations svc listenerSubnetIdAnnotation \<noteq> None \<or>
        lbListenerSubnetID (config yc) \<noteq> [] \<and> s_Annotations svc externalLoadBalancerAnnotation = None),
      p_healthcheckIntervalSeconds = interval, p_healthcheckTimeoutSeconds = timeout,
      p_healthcheckUnhealthyThreshold = unhealthy, p_healthcheckHealthyThreshold = healthy\<rparr>"

lemma intAnnotation_eq:
  "set_field 0 = unset \<Longrightarrow>
     intAnnotation svc name set_field unset = bind_outcome (annotation_int svc name) (\<lambda>v. Ok (set_field v))"
  by (auto simp: intAnnotation_def annotation_int_def split: option.split)

lemma getLoadBalancerParameters_run:
  "getLoadBalancerParameters yc svc =
     bind_outcome (annotation_int svc healthcheckIntervalSeconds) (\<lambda>i.
     bind_outcome (annotation_int svc healthcheckTimeoutSeconds) (\<lambda>t.
     bind_outcome (annotation_int svc healthcheckHealthyThreshold) (\<lambda>h.
     bind_outcome (annotation_int svc healthcheckUnhealthyThreshold) (\<lambda>u.
     Ok (parameters_of yc svc i t h u)))))"
proof -
  have base: "(let p = zero_parameters;
         p = (case s_Annotations svc listenerSubnetIdAnnotation of
                Some value \<Rightarrow> p\<lparr>p_internal := True, p_listenerSubnetID := value\<rparr>
              | None \<Rightarrow>
                  if length (lbListenerSubnetID (config yc)) \<noteq> 0
                  then p\<lparr>p_listenerSubnetID := lbListenerSubnetID (config yc),
                         p_internal := (s_Annotations svc externalLoadBalancerAnnotation = None)\<rparr>
                  else p);
         p = (case s_Annotations svc targetGroupNetworkIdAnnotation of
                Some value \<Rightarrow> p\<lparr>p_targetGroupNetworkID := value\<rparr>
              | None \<Rightarrow>
                  if length (lbTgNetworkID (config yc)) \<noteq> 0
                  then p\<lparr>p_targetGroupNetworkID := lbTgNetworkID (config yc)\<rparr> else p);
         p = (case s_Annotations svc listenerAddressIPv4 of
                Some value \<Rightarrow> p\<lparr>p_listenerAddressIPv4 := value\<rparr> | None \<Rightarrow> p)
     in (case s_Annotations svc customTargetGroupNamePrefixAnnotation of
                Some value \<Rightarrow> p\<lparr>p_targetGroupNamePrefix := value\<rparr> | None \<Rightarrow> p))
     = parameters_of yc svc 0 0 0 0"
    unfolding Let_def zero_parameters_def parameters_of_def annotation_or_def
    by (cases "s_Annotations svc listenerSubnetIdAnnotation"; cases "s_Annotations svc targetGroupNetworkIdAnnotation";
        cases "s_Annotations svc listenerAddressIPv4"; cases "s_Annotations svc customTargetGroupNamePrefixAnnotation") auto
  have fields:
    "(parameters_of yc svc 0 0 0 0)\<lparr>p_healthcheckIntervalSeconds := i\<rparr> = parameters_of yc svc i 0 0 0"
    "(parameters_of yc svc i 0 0 0)\<lparr>p_healthcheckTimeoutSeconds := t\<rparr> = parameters_of yc svc i t 0 0"
    "(parameters_of yc svc i t 0 0)\<lparr>p_healthcheckHealthyThreshold := h\<rparr> = parameters_of yc svc i t h 0"
    "(parameters_of yc svc i t h 0)\<lparr>p_healthcheckUnhealthyThreshold := u\<rparr> = parameters_of yc svc i t h u"
    for i t h u by (simp_all add: parameters_of_def)
  show ?thesis
    using base
    by (simp add: getLoadBalancerParameters_def Let_def intAnnotation_eq fields bind_outcome_assoc)
qed

lemma getLoadBalancerParameters_not_Abort: "getLoadBalancerParameters yc svc \<noteq> Abort p"
proof -
  have "annotation_int svc name \<noteq> Abort p" for name
    by (auto simp: annotation_int_def tryAnnotationValueToInt_def Atoi_not_Abort split: option.split outcome.split)
  then show ?thesis by (auto simp: getLoadBalancerParameters_run bind_outcome_Abort_iff)
qed

lemma parameters_prefix:
  "getLoadBalancerParameters yc svc = Ok prm \<Longrightarrow>
     p_targetGroupNamePrefix prm = annotation_or svc customTargetGroupNamePrefixAnnotation []"
  by (auto simp: getLoadBalancerParameters_run bind_outcome_Ok_iff parameters_of_def)

text \<open>C30: 
  The parameters of a load balancer are read off the annotations and the configuration:
  the call succeeds exactly when each of the four health check annotations is absent (its
  value is then 0) or parses as an integer, and then the subnet, network, address and
  prefix are the annotation's value or the default, and the load balancer is internal when
  the subnet is annotated, or configured and the service not marked external. It never
  aborts.
\<close>

theorem parameters_spec:
  "(getLoadBalancerParameters yc svc = Ok prm \<longleftrightarrow>
     (\<exists>i t h u. prm = parameters_of yc svc i t h u \<and>
        annotation_int svc healthcheckIntervalSeconds = Ok i \<and> annotation_int svc healthcheckTimeoutSeconds = Ok t \<and>
        annotation_int svc healthcheckHealthyThreshold = Ok h \<and> annotation_int svc healthcheckUnhealthyThreshold = Ok u)) \<and>
   (\<forall>p. getLoadBalancerParameters yc svc \<noteq> Abort p)"
  by (auto simp: getLoadBalancerParameters_not_Abort) (auto simp: getLoadBalancerParameters_run bind_outcome_Ok_iff)

text \<open>
  Annotation values are read at the width of the platform's int: a printed integer is
  read back unchanged within 64 bits, and outside of them it is the error that names the
  annotation and the value, never a wrapped number.
\<close>

theorem annotation_int_spec:
  "tryAnnotationValueToInt name (strconv_Itoa i) =
     (if - (2 ^ 63) \<le> i \<and> i < 2 ^ 63 then Ok (word_of_int i)
      else Err (ErrAnnotationInt name (strconv_Itoa i) (ErrNumRange (strconv_Itoa i))))"
  by (simp add: tryAnnotationValueToInt_def Atoi_Itoa Atoi_Itoa_range)

text \<open>
  Whatever the annotations say, the health check that is sent has a positive interval,
  timeout and thresholds (zero and negative values fall back to the defaults) and is an
  HTTP check, so the comparison with the cloud's one never dereferences nil.
\<close>

theorem health_check_positive:
  "0 <s GetSeconds (hc_Interval (healthCheckOf y prm svc)) \<and>
   0 <s GetSeconds (hc_Timeout (healthCheckOf y prm svc)) \<and>
   0 <s hc_UnhealthyThreshold (healthCheckOf y prm svc) \<and>
   0 <s hc_HealthyThreshold (healthCheckOf y prm svc) \<and>
   hc_HttpOptions (healthCheckOf y prm svc) \<noteq> None"
proof -
  have "(0 :: int64) <s 1" "(0 :: int64) <s 2" by (simp_all add: word_sless_alt)
  then show ?thesis by (simp add: healthCheckOf_def Let_def GetSeconds_def split: prod.split)
qed

text \<open>C32: 
  The name of a service's load balancer has at most 32 bytes, starts with a letter and
  holds no dash, and two services share it exactly when the first 31 characters of their
  dashless UIDs agree: a UUID has 32 hexadecimal digits, so the last one is not in the name.
\<close>

theorem defaultLoadBalancerName_bounds:
  "length (defaultLoadBalancerName svc) \<le> 32 \<and> hd (defaultLoadBalancerName svc) = CHR ''a'' \<and>
   CHR ''-'' \<notin> set (defaultLoadBalancerName svc) \<and>
   (defaultLoadBalancerName svc = defaultLoadBalancerName svc' \<longleftrightarrow>
      take 31 (strings_RemoveAll (s_UID svc) (CHR ''-'')) = take 31 (strings_RemoveAll (s_UID svc') (CHR ''-'')))"
  using lb_name_props [of svc] by (simp add: lb_name_eq stripped_uid_def)

section \<open>Deleting a load balancer\<close>

lemma keeps_RemoveLBByName: "lb_requests_keep y I \<Longrightarrow> keeps I (RemoveLBByName y ctx n)"
  unfolding RemoveLBByName_def
  by (intro keeps_bind keeps_GetLbByName)
    (auto simp: lb_requests_keep_def split: option.split intro!: keeps_skipNotFound)

text \<open>What the target groups are after the syncer was called without nodes.\<close>

definition groups_after_delete :: "string \<Rightarrow> service list \<Rightarrow> (string \<rightharpoonup> target_group) \<Rightarrow> (string \<rightharpoonup> target_group)" where
  "groups_after_delete cluster svcs v =
     (if activeLoadBalancerServicesExist svcs then v
      else (\<lambda>i. case v i of None \<Rightarrow> None
         | Some t \<Rightarrow> if strings_Contains (tg_Name t) cluster then None else Some t))"

text \<open>The lister answers the services and touches nothing else.\<close>

definition lister_laws :: "'w YandexCloudAPI \<Rightarrow> ('w \<Rightarrow> service list) \<Rightarrow> ('w \<Rightarrow> string \<rightharpoonup> target_group) \<Rightarrow>
    ('w \<Rightarrow> string \<rightharpoonup> nlb) \<Rightarrow> bool" where
  "lister_laws y svcs tgs lbs \<longleftrightarrow>
     (\<forall>l w r w'. ServiceList (libs y) l w = (r, w') \<longrightarrow>
        tgs w' = tgs w \<and> lbs w' = lbs w \<and> (\<forall>ss. r = Ok ss \<longrightarrow> ss = svcs w)) \<and>
     (\<forall>v. lb_requests_keep (LbSvc y) (\<lambda>w. tgs w = v)) \<and> (\<forall>v. lb_requests_keep (LbSvc y) (\<lambda>w. svcs w = v)) \<and>
     (\<forall>v ctx q. keeps (\<lambda>w. lbs w = v) (TgList (lbs_TgSvc (LbSvc y)) ctx q)) \<and>
     (\<forall>v ctx i. keeps (\<lambda>w. lbs w = v) (OperationWaiter (cloudCtx (LbSvc y)) ctx (TgDelete (lbs_TgSvc (LbSvc y)) ctx i)))"

lemma SyncTGs_no_nodes:
  assumes laws: "tg_service_laws (LbSvc (yandexService yc)) tgs" "tg_cleanup_laws (LbSvc (yandexService yc)) tgs"
      "fair_orders (libs (yandexService yc))" "lister_laws (yandexService yc) svcs tgs lbs"
    and few: "fits_page (tgs (world s))"
    and run: "SyncTGs yc ctx [] s = (Ok u, s')"
  shows "tgs (world s') = groups_after_delete (ClusterName (config yc)) (svcs (world s)) (tgs (world s))"
    and "lbs (world s') = lbs (world s)"
proof -
  let ?y = "yandexService yc"
  from run obtain ntgs where ntgs: "nodeTargetGroupSyncer s = Some ntgs" by (auto simp: SyncTGs_run split: option.splits)
  obtain r w where l: "ServiceList (libs ?y) (serviceLister ntgs) (world s) = (r, w)" by fastforce
  with laws(4) have w: "tgs w = tgs (world s)" "lbs w = lbs (world s)"
    and r: "r = Ok ss \<Longrightarrow> ss = svcs (world s)" for ss by (simp_all add: lister_laws_def)
  from run ntgs l r have rest: "(if activeLoadBalancerServicesExist (svcs (world s))
      then synchronizeNodesWithTargetGroups yc ctx [] (s\<lparr>world := w\<rparr>)
      else cleanUpTargetGroups yc ctx (s\<lparr>world := w\<rparr>)) = (Ok u, s')"
    by (auto simp: SyncTGs_run split: option.splits outcome.splits if_splits)
  have "tgs (world s') = groups_after_delete (ClusterName (config yc)) (svcs (world s)) (tgs (world s)) \<and>
    lbs (world s') = lbs (world s)"
  proof (cases "activeLoadBalancerServicesExist (svcs (world s))")
    case True
    with rest w show ?thesis
      by (auto simp: groups_after_delete_def synchronizeNodesWithTargetGroups_def)
  next
    case False
    with rest have clean: "cleanUpTargetGroups yc ctx (s\<lparr>world := w\<rparr>) = (Ok u, s')" by simp
    have few': "fits_page (tgs (world (s\<lparr>world := w\<rparr>)))" using few w by simp
    have "keeps (\<lambda>s. lbs (world s) = lbs w) (cleanUpTargetGroups yc ctx)"
      by (rule keeps_cleanUp) (use laws(3,4) in \<open>simp_all add: lister_laws_def\<close>)
    from keepsD [OF this _ clean] have "lbs (world s') = lbs w" by simp
    with cleanUp_removes(1) [OF laws(1-3) few' clean] w False show ?thesis
      by (simp add: groups_after_delete_def fun_eq_iff)
  qed
  then show "tgs (world s') = groups_after_delete (ClusterName (config yc)) (svcs (world s)) (tgs (world s))"
    and "lbs (world s') = lbs (world s)" by simp_all
qed

lemma EnsureLoadBalancerDeleted_run:
  assumes laws: "lb_service_laws (LbSvc (yandexService yc)) lbs" "lb_delete_laws (LbSvc (yandexService yc)) lbs"
      "tg_service_laws (LbSvc (yandexService yc)) tgs" "tg_cleanup_laws (LbSvc (yandexService yc)) tgs"
      "fair_orders (libs (yandexService yc))" "lister_laws (yandexService yc) svcs tgs lbs"
    and few: "fits_page (tgs (world s))"
    and run: "EnsureLoadBalancerDeleted yc ctx svc s = (Ok u, s')"
  shows "named lb_Name (lbs (world s')) m =
      (if m = defaultLoadBalancerName svc then {} else named lb_Name (lbs (world s)) m)"
    and "tgs (world s') = groups_after_delete (ClusterName (config yc)) (svcs (world s)) (tgs (world s))"
proof -
  let ?y = "yandexService yc"
  from run obtain w1 where rem: "RemoveLBByName (LbSvc ?y) ctx (defaultLoadBalancerName svc) (world s) = (Ok (), w1)"
    and sync: "SyncTGs yc ctx [] (s\<lparr>world := w1\<rparr>) = (Ok u, s')"
    by (auto simp: EnsureLoadBalancerDeleted_def bind_io_Ok_iff on_world_Ok_iff)
  have "keeps (\<lambda>w. tgs w = tgs (world s)) (RemoveLBByName (LbSvc ?y) ctx (defaultLoadBalancerName svc))"
    and "keeps (\<lambda>w. svcs w = svcs (world s)) (RemoveLBByName (LbSvc ?y) ctx (defaultLoadBalancerName svc))"
    using laws(6) by (auto intro!: keeps_RemoveLBByName simp: lister_laws_def)
  with rem have same: "tgs w1 = tgs (world s)" "svcs w1 = svcs (world s)" by (auto dest: keepsD)
  note S = SyncTGs_no_nodes [OF laws(3-6) _ sync]
  show "tgs (world s') = groups_after_delete (ClusterName (config yc)) (svcs (world s)) (tgs (world s))"
    using S(1) few same by simp
  show "named lb_Name (lbs (world s')) m =
      (if m = defaultLoadBalancerName svc then {} else named lb_Name (lbs (world s)) m)"
    using RemoveLBByName_removes [OF laws(1,2) rem, of m] S(2) few same by simp
qed

end
