(* ===== verification/Mutex.thy ===== *)
theory Mutex
  imports Main
begin

text \<open>
  A lock that several calls share, as an interface: what each step of a call promises of
  the lock, and what follows for all of them. The program has two such locks, the flag of
  the route operations (tried, never waited for) and the mutex of the target group syncer
  (waited for); the theories \<open>RouteLock\<close> and \<open>SyncLock\<close> interpret it with their steps.
\<close>

text \<open>The lock is held exactly when some call is inside, and then only one is.\<close>

definition exclusive :: "bool \<Rightarrow> (nat \<Rightarrow> bool) \<Rightarrow> bool" where
  "exclusive held inside \<longleftrightarrow> (held \<longleftrightarrow> (\<exists>p. inside p)) \<and> (\<forall>p q. inside p \<longrightarrow> inside q \<longrightarrow> p = q)"

lemma exclusive_free: "(\<And>p. \<not> inside p) \<Longrightarrow> exclusive False inside"
  by (simp add: exclusive_def)

lemma exclusive_held: "exclusive held inside \<Longrightarrow> inside p \<Longrightarrow> held"
  by (auto simp: exclusive_def)

lemma exclusive_alone: "exclusive held inside \<Longrightarrow> inside p \<Longrightarrow> inside q \<Longrightarrow> q = p"
  by (auto simp: exclusive_def)

lemma exclusive_unheld: "exclusive False inside \<Longrightarrow> \<not> inside p"
  by (auto simp: exclusive_def)

locale shared_lock =
  fixes step :: "nat \<Rightarrow> 's \<Rightarrow> 's \<Rightarrow> bool"
    and lock :: "'s \<Rightarrow> bool"
    and inside :: "'s \<Rightarrow> nat \<Rightarrow> bool"
  assumes others: "step p s s' \<Longrightarrow> q \<noteq> p \<Longrightarrow> inside s' q = inside s q"
    and enter: "step p s s' \<Longrightarrow> \<not> inside s p \<Longrightarrow> inside s' p \<Longrightarrow> \<not> lock s \<and> lock s'"
    and leave: "step p s s' \<Longrightarrow> inside s p \<Longrightarrow> \<not> inside s' p \<Longrightarrow> \<not> lock s'"
    and stay: "step p s s' \<Longrightarrow> inside s' p = inside s p \<Longrightarrow> lock s' = lock s"
begin

lemma exclusive_step:
  assumes "step p s s'" and "exclusive (lock s) (inside s)"
  shows "exclusive (lock s') (inside s')"
proof (cases "inside s' p = inside s p")
  case True
  have "inside s' q = inside s q" for q using others [OF assms(1)] True by (cases "q = p") auto
  then have "inside s' = inside s" by (rule ext)
  with stay [OF assms(1) True] assms(2) show ?thesis by simp
next
  case False
  note O = others [OF assms(1)]
  show ?thesis
  proof (cases "inside s p")
    case True
    with False have out: "\<not> inside s' p" by simp
    then have "\<not> lock s'" by (rule leave [OF assms(1) True])
    have "\<not> inside s' q" for q
      using O [of q] exclusive_alone [OF assms(2) True, of q] out by (cases "q = p") auto
    with \<open>\<not> lock s'\<close> show ?thesis by (simp add: exclusive_def)
  next
    case outside: False
    with False have ins: "inside s' p" by simp
    from enter [OF assms(1) outside ins] have "\<not> lock s" "lock s'" by simp_all
    with assms(2) have "\<not> inside s q" for q by (simp add: exclusive_def)
    then have "inside s' q \<longleftrightarrow> q = p" for q
      using O [of q] ins by (cases "q = p") auto
    with \<open>lock s'\<close> show ?thesis by (simp add: exclusive_def)
  qed
qed

text \<open>While a call is inside, the steps of the others neither enter nor free the lock.\<close>

lemma others_outside:
  assumes "exclusive (lock s) (inside s)" and "inside s p" and "step q s s'" and "q \<noteq> p"
  shows "\<not> inside s q" and "\<not> inside s' q" and "lock s'"
proof -
  from exclusive_held [OF assms(1,2)] have held: "lock s" .
  from exclusive_alone [OF assms(1,2)] assms(4) show out: "\<not> inside s q" by blast
  with enter [OF assms(3)] held show out': "\<not> inside s' q" by blast
  with out stay [OF assms(3)] held show "lock s'" by simp
qed

end

end
