(* ===== verification/Routes.thy ===== *)
theory Routes
  imports Instances
begin

text \<open>
  \<open>pkg/cloudprovider/yandex/routes.go\<close>: the static routes of the cluster's route table.
  The table holds routes of others (without the program's label) and one route per node;
  every operation reads the whole table, filters it, and writes it back, under a lock
  that a call does not wait for.
\<close>

section \<open>Filtering the table\<close>

definition cpiNodeRoleLabel :: string where
  "cpiNodeRoleLabel = ''yandex.cpi.flant.com/'' @ ''node-role''"

datatype routeFilterTermType = routeFilterAddOrUpdate | routeFilterRemove

record routeFilterTerm =
  termType :: routeFilterTermType
  ft_nodeName :: string
  ft_destinationCIDR :: string
  ft_nextHop :: string

text \<open>The inner loop over the terms: what happens to one labelled route.\<close>

datatype route_fate = Keep | Drop | Replace static_route

definition filtered_route :: "routeFilterTerm \<Rightarrow> (string \<rightharpoonup> string) \<Rightarrow> static_route" where
  "filtered_route t labels =
     \<lparr>sr_Destination = DestinationPrefix (ft_destinationCIDR t),
      sr_NextHop = NextHopAddress (ft_nextHop t), sr_Labels = labels\<rparr>"

fun applyTerms :: "string \<Rightarrow> static_route \<Rightarrow> routeFilterTerm list \<Rightarrow> route_fate" where
  "applyTerms nodeName existing [] = Keep"
| "applyTerms nodeName existing (t # ts) =
     (if nodeName \<noteq> ft_nodeName t then applyTerms nodeName existing ts
      else case termType t of
        routeFilterAddOrUpdate \<Rightarrow> Replace (filtered_route t (sr_Labels existing))
      | routeFilterRemove \<Rightarrow> Drop)"

text \<open>The first loop: the routes kept so far and the set of the nodes updated.\<close>

fun filterExisting :: "routeFilterTerm list \<Rightarrow> static_route list \<Rightarrow> string set \<Rightarrow> static_route list \<Rightarrow>
    string set \<times> static_route list" where
  "filterExisting terms [] updated ret = (updated, ret)"
| "filterExisting terms (r # rs) updated ret =
     (case sr_Labels r cpiNodeRoleLabel of
        None \<Rightarrow> filterExisting terms rs updated (ret @ [r])
      | Some nodeName \<Rightarrow>
          (case applyTerms nodeName r terms of
             Replace r' \<Rightarrow> filterExisting terms rs (insert nodeName updated) (ret @ [r'])
           | Drop \<Rightarrow> filterExisting terms rs updated ret
           | Keep \<Rightarrow> filterExisting terms rs updated (ret @ [r])))"

text \<open>The second loop: a route for each node that had none.\<close>

fun addMissing :: "routeFilterTerm list \<Rightarrow> string set \<Rightarrow> static_route list \<Rightarrow> static_route list" where
  "addMissing [] updated ret = ret"
| "addMissing (t # ts) updated ret =
     (if termType t = routeFilterAddOrUpdate \<and> ft_nodeName t \<notin> updated
      then addMissing ts updated (ret @ [filtered_route t [cpiNodeRoleLabel \<mapsto> ft_nodeName t]])
      else addMissing ts updated ret)"

definition filterStaticRoutes :: "static_route list \<Rightarrow> routeFilterTerm list \<Rightarrow> static_route list" where
  "filterStaticRoutes staticRoutes filterTerms =
     (let (nodeNamesUpdatedSet, ret) = filterExisting filterTerms staticRoutes {} []
      in addMissing filterTerms nodeNamesUpdatedSet ret)"

section \<open>The operations\<close>

text \<open>
  \<open>routeAPILock.TryLock()\<close> with the deferred \<open>Unlock\<close>, which runs on every way out, a
  panic included.
\<close>

definition withRouteLock :: "('w cloud_state, 'a) io \<Rightarrow> ('w cloud_state, 'a) io" where
  "withRouteLock m =
     (\<lambda>s. if routeAPILock s then (Err ErrRouteAPILocked, s)
          else case m (s\<lparr>routeAPILock := True\<rparr>) of (r, s') \<Rightarrow> (r, s'\<lparr>routeAPILock := False\<rparr>))"

text \<open>\<open>staticRoute.Destination.(*vpc.StaticRoute_DestinationPrefix).DestinationPrefix\<close>\<close>

fun destinationPrefix :: "static_route \<Rightarrow> string outcome" where
  "destinationPrefix r =
     (case sr_Destination r of DestinationPrefix p \<Rightarrow> Ok p | DestinationOther \<Rightarrow> Abort TypeAssertion)"

fun cpiRoutes :: "static_route list \<Rightarrow> kube_route list \<Rightarrow> kube_route list outcome" where
  "cpiRoutes [] acc = Ok acc"
| "cpiRoutes (r # rs) acc =
     (case sr_Labels r cpiNodeRoleLabel of
        None \<Rightarrow> cpiRoutes rs acc
      | Some nodeName \<Rightarrow>
          bind_outcome (destinationPrefix r) (\<lambda>p.
          cpiRoutes rs (acc @ [\<lparr>r_Name = nodeName, r_TargetNode = nodeName, r_DestinationCIDR = p\<rparr>])))"

definition ListRoutes :: "'w Cloud \<Rightarrow> ctx \<Rightarrow> ('w cloud_state, kube_route list) io" where
  "ListRoutes yc ctx = withRouteLock (on_world (
     bind_io (RouteTableGet (RouteTableSvc (VPCSvc (yandexService yc))) ctx (RouteTableID (config yc))) (\<lambda>staticRoutes.
     lift_outcome (cpiRoutes staticRoutes []))))"

definition routeTableUpdate :: "'w Cloud \<Rightarrow> static_route list \<Rightarrow> update_route_table_request" where
  "routeTableUpdate yc newStaticRoutes =
     \<lparr>ur_RouteTableId = RouteTableID (config yc), ur_UpdateMask = [''static_routes''],
      ur_StaticRoutes = newStaticRoutes\<rparr>"

fun firstInternalIP :: "node_address list \<Rightarrow> string" where
  "firstInternalIP [] = []"
| "firstInternalIP (a # as) = (if na_Type a = NodeInternalIP then na_Address a else firstInternalIP as)"

definition CreateRoute :: "'w Cloud \<Rightarrow> ctx \<Rightarrow> kube_route \<Rightarrow> ('w cloud_state, unit) io" where
  "CreateRoute yc ctx route = withRouteLock (on_world (
     bind_io (RouteTableGet (RouteTableSvc (VPCSvc (yandexService yc))) ctx (RouteTableID (config yc))) (\<lambda>rt.
     bind_io (NodeAddresses yc ctx (r_TargetNode route)) (\<lambda>addresses.
     let nextHop = firstInternalIP addresses in
     if length nextHop = 0 then fail_io (ErrNoInternalIP (r_TargetNode route))
     else
       let newStaticRoutes = filterStaticRoutes rt
             [\<lparr>termType = routeFilterAddOrUpdate, ft_nodeName = r_TargetNode route,
               ft_destinationCIDR = r_DestinationCIDR route, ft_nextHop = nextHop\<rparr>] in
       bind_io (api_OperationWaiter (yandexService yc) ctx
         (RouteTableUpdate (RouteTableSvc (VPCSvc (yandexService yc))) ctx (routeTableUpdate yc newStaticRoutes))) (\<lambda>_.
       return_io ())))))"

definition DeleteRoute :: "'w Cloud \<Rightarrow> ctx \<Rightarrow> kube_route \<Rightarrow> ('w cloud_state, unit) io" where
  "DeleteRoute yc ctx route = withRouteLock (on_world (
     bind_io (RouteTableGet (RouteTableSvc (VPCSvc (yandexService yc))) ctx (RouteTableID (config yc))) (\<lambda>rt.
     let newStaticRoutes = filterStaticRoutes rt
           [\<lparr>termType = routeFilterRemove, ft_nodeName = r_TargetNode route,
             ft_destinationCIDR = [], ft_nextHop = []\<rparr>] in
     bind_io (api_OperationWaiter (yandexService yc) ctx
       (RouteTableUpdate (RouteTableSvc (VPCSvc (yandexService yc))) ctx (routeTableUpdate yc newStaticRoutes))) (\<lambda>_.
     return_io ()))))"

section \<open>The contract of a locked operation\<close>

text \<open>
  An operation under the lock: it refuses at once when the lock is held, and whatever it
  does otherwise, the lock is free afterwards and the target group syncer untouched.
\<close>

locale locked_operation =
  fixes op :: "('w cloud_state, 'a) io"
  assumes refused: "routeAPILock s \<Longrightarrow> op s = (Err ErrRouteAPILocked, s)"
    and released: "\<not> routeAPILock s \<Longrightarrow> op s = (r, s') \<Longrightarrow>
      \<not> routeAPILock s' \<and> nodeTargetGroupSyncer s' = nodeTargetGroupSyncer s"
begin

lemma lock_unchanged: "op s = (r, s') \<Longrightarrow> routeAPILock s' = routeAPILock s"
  using refused [of s] released [of s r s'] by (cases "routeAPILock s") auto

lemma syncer_unchanged: "op s = (r, s') \<Longrightarrow> nodeTargetGroupSyncer s' = nodeTargetGroupSyncer s"
  using refused [of s] released [of s r s'] by (cases "routeAPILock s") auto

lemma keeps_free: "keeps (\<lambda>s. \<not> routeAPILock s) op"
  by (auto intro!: keepsI dest: released)

end

lemma withRouteLock_world:
  "withRouteLock (on_world m) s =
     (if routeAPILock s then (Err ErrRouteAPILocked, s)
      else (fst (m (world s)), s\<lparr>world := snd (m (world s))\<rparr>))"
  by (cases s) (simp add: withRouteLock_def on_world_run)

lemma withRouteLock_locked: "locked_operation (withRouteLock (on_world m))"
  by unfold_locales (auto simp: withRouteLock_world)

interpretation list_routes: locked_operation "ListRoutes yc ctx" for yc ctx
  unfolding ListRoutes_def by (rule withRouteLock_locked)

interpretation create_route: locked_operation "CreateRoute yc ctx route" for yc ctx route
  unfolding CreateRoute_def by (rule withRouteLock_locked)

interpretation delete_route: locked_operation "DeleteRoute yc ctx route" for yc ctx route
  unfolding DeleteRoute_def by (rule withRouteLock_locked)

section \<open>What filtering does\<close>

text \<open>The node a route belongs to; the routes of others have none.\<close>

abbreviation route_node :: "static_route \<Rightarrow> string option" where
  "route_node r \<equiv> sr_Labels r cpiNodeRoleLabel"

definition fate :: "routeFilterTerm list \<Rightarrow> static_route \<Rightarrow> static_route list" where
  "fate terms r =
     (case route_node r of None \<Rightarrow> [r]
      | Some n \<Rightarrow> (case applyTerms n r terms of Keep \<Rightarrow> [r] | Drop \<Rightarrow> [] | Replace r' \<Rightarrow> [r']))"

definition is_replaced :: "routeFilterTerm list \<Rightarrow> static_route \<Rightarrow> bool" where
  "is_replaced terms r =
     (case route_node r of None \<Rightarrow> False
      | Some n \<Rightarrow> (case applyTerms n r terms of Replace _ \<Rightarrow> True | _ \<Rightarrow> False))"

definition replaced_nodes :: "routeFilterTerm list \<Rightarrow> static_route list \<Rightarrow> string set" where
  "replaced_nodes terms rs = (\<lambda>r. the (route_node r)) ` set (filter (is_replaced terms) rs)"

lemma filterExisting_eq:
  "filterExisting terms rs updated ret =
     (updated \<union> replaced_nodes terms rs,
      ret @ concat (map (fate terms) rs))"
  by (induction rs arbitrary: updated ret)
    (auto simp: fate_def is_replaced_def replaced_nodes_def split: option.split route_fate.split)

lemma addMissing_eq:
  "addMissing ts updated ret =
     ret @ map (\<lambda>t. filtered_route t [cpiNodeRoleLabel \<mapsto> ft_nodeName t])
       (filter (\<lambda>t. termType t = routeFilterAddOrUpdate \<and> ft_nodeName t \<notin> updated) ts)"
  by (induction ts arbitrary: ret) auto

lemma filterStaticRoutes_eq:
  "filterStaticRoutes rs ts =
     concat (map (fate ts) rs) @
     map (\<lambda>t. filtered_route t [cpiNodeRoleLabel \<mapsto> ft_nodeName t])
       (filter (\<lambda>t. termType t = routeFilterAddOrUpdate \<and>
          ft_nodeName t \<notin> replaced_nodes ts rs) ts)"
  by (simp add: filterStaticRoutes_def filterExisting_eq addMissing_eq)

text \<open>The two uses: one term that adds or updates, and one that removes.\<close>

definition put_term :: "string \<Rightarrow> string \<Rightarrow> string \<Rightarrow> routeFilterTerm" where
  "put_term n cidr hop =
     \<lparr>termType = routeFilterAddOrUpdate, ft_nodeName = n, ft_destinationCIDR = cidr, ft_nextHop = hop\<rparr>"

definition drop_term :: "string \<Rightarrow> routeFilterTerm" where
  "drop_term n =
     \<lparr>termType = routeFilterRemove, ft_nodeName = n, ft_destinationCIDR = [], ft_nextHop = []\<rparr>"

lemma term_simps [simp]:
  "termType (put_term n c h) = routeFilterAddOrUpdate" "ft_nodeName (put_term n c h) = n"
  "ft_destinationCIDR (put_term n c h) = c" "ft_nextHop (put_term n c h) = h"
  "termType (drop_term n) = routeFilterRemove" "ft_nodeName (drop_term n) = n"
  by (simp_all add: put_term_def drop_term_def)

lemma route_node_filtered [simp]: "route_node (filtered_route t m) = m cpiNodeRoleLabel"
  by (simp add: filtered_route_def)

lemma put_eq:
  "filterStaticRoutes rs [put_term n c h] =
     map (\<lambda>r. if route_node r = Some n then filtered_route (put_term n c h) (sr_Labels r) else r) rs @
     (if \<exists>r\<in>set rs. route_node r = Some n then []
      else [filtered_route (put_term n c h) [cpiNodeRoleLabel \<mapsto> n]])"
proof -
  have "concat (map (fate [put_term n c h]) rs) =
      map (\<lambda>r. if route_node r = Some n then filtered_route (put_term n c h) (sr_Labels r) else r) rs"
    by (induction rs) (auto simp: fate_def split: option.split)
  moreover have "n \<in> replaced_nodes [put_term n c h] rs \<longleftrightarrow>
      (\<exists>r\<in>set rs. route_node r = Some n)"
    by (auto simp: is_replaced_def replaced_nodes_def image_iff split: option.splits if_splits)
  ultimately show ?thesis by (simp add: filterStaticRoutes_eq)
qed

lemma drop_eq: "filterStaticRoutes rs [drop_term n] = filter (\<lambda>r. route_node r \<noteq> Some n) rs"
proof -
  have "concat (map (fate [drop_term n]) rs) = filter (\<lambda>r. route_node r \<noteq> Some n) rs"
    by (induction rs) (auto simp: fate_def split: option.split)
  then show ?thesis by (simp add: filterStaticRoutes_eq)
qed

lemma CreateRoute_run:
  "CreateRoute yc ctx route = withRouteLock (on_world (
     bind_io (RouteTableGet (RouteTableSvc (VPCSvc (yandexService yc))) ctx (RouteTableID (config yc))) (\<lambda>rt.
     bind_io (NodeAddresses yc ctx (r_TargetNode route)) (\<lambda>addresses.
     if firstInternalIP addresses = [] then fail_io (ErrNoInternalIP (r_TargetNode route))
     else bind_io (api_OperationWaiter (yandexService yc) ctx
         (RouteTableUpdate (RouteTableSvc (VPCSvc (yandexService yc))) ctx (routeTableUpdate yc
           (filterStaticRoutes rt
             [put_term (r_TargetNode route) (r_DestinationCIDR route) (firstInternalIP addresses)]))))
         (\<lambda>_. return_io ())))))"
  unfolding CreateRoute_def put_term_def Let_def length_0_conv by (rule refl)

lemma DeleteRoute_run:
  "DeleteRoute yc ctx route = withRouteLock (on_world (
     bind_io (RouteTableGet (RouteTableSvc (VPCSvc (yandexService yc))) ctx (RouteTableID (config yc))) (\<lambda>rt.
     bind_io (api_OperationWaiter (yandexService yc) ctx
         (RouteTableUpdate (RouteTableSvc (VPCSvc (yandexService yc))) ctx (routeTableUpdate yc
           (filterStaticRoutes rt [drop_term (r_TargetNode route)]))))
         (\<lambda>_. return_io ()))))"
  unfolding DeleteRoute_def drop_term_def Let_def by (rule refl)

section \<open>Properties of the table\<close>

lemma put_present: "\<exists>r\<in>set (filterStaticRoutes rs [put_term n c h]). route_node r = Some n"
proof (cases "\<exists>r\<in>set rs. route_node r = Some n")
  case True
  then obtain r where r: "r \<in> set rs" "route_node r = Some n" by blast
  then have "filtered_route (put_term n c h) (sr_Labels r) \<in> set (filterStaticRoutes rs [put_term n c h])"
    by (force simp: put_eq)
  with r(2) show ?thesis by (intro bexI) simp_all
next
  case False
  then show ?thesis by (simp add: put_eq)
qed

lemma put_others:
  "filter (\<lambda>r. route_node r \<noteq> Some n) (filterStaticRoutes rs [put_term n c h]) =
     filter (\<lambda>r. route_node r \<noteq> Some n) rs"
proof -
  have "filter (\<lambda>r. route_node r \<noteq> Some n)
      (map (\<lambda>r. if route_node r = Some n then filtered_route (put_term n c h) (sr_Labels r) else r) rs) =
      filter (\<lambda>r. route_node r \<noteq> Some n) rs"
    by (induction rs) auto
  then show ?thesis by (simp add: put_eq)
qed

text \<open>
  Adding or updating a node's route: the routes of all others stay as they are, in their
  order, and every route of the node (there is at least one) now has the given
  destination and next hop.
\<close>

theorem put_route_effect:
  "filter (\<lambda>r. route_node r \<noteq> Some n) (filterStaticRoutes rs [put_term n c h]) =
     filter (\<lambda>r. route_node r \<noteq> Some n) rs \<and>
   (\<lambda>r. (sr_Destination r, sr_NextHop r)) `
       {r \<in> set (filterStaticRoutes rs [put_term n c h]). route_node r = Some n} =
     {(DestinationPrefix c, NextHopAddress h)}"
proof
  let ?rs = "filterStaticRoutes rs [put_term n c h]"
  have "(sr_Destination r, sr_NextHop r) = (DestinationPrefix c, NextHopAddress h)"
    if "r \<in> set ?rs" "route_node r = Some n" for r
    using that by (auto simp: put_eq filtered_route_def split: if_splits)
  moreover have "\<exists>r\<in>set ?rs. route_node r = Some n"
    by (rule put_present)
  ultimately show "(\<lambda>r. (sr_Destination r, sr_NextHop r)) ` {r \<in> set ?rs. route_node r = Some n} =
     {(DestinationPrefix c, NextHopAddress h)}"
    by (auto simp: image_iff)
qed (rule put_others)

text \<open>
  The algebra of the table's updates. A second update of a node replaces the first one
  (also when it has another destination: one route per node), a removal undoes an update,
  and operations on different nodes do not interfere.
\<close>

theorem table_updates_compose:
  "filterStaticRoutes (filterStaticRoutes rs [put_term n c h]) [put_term n c' h'] =
     filterStaticRoutes rs [put_term n c' h'] \<and>
   filterStaticRoutes (filterStaticRoutes rs [put_term n c h]) [drop_term n] =
     filterStaticRoutes rs [drop_term n] \<and>
   (m = n \<or> filterStaticRoutes (filterStaticRoutes rs [put_term n c h]) [drop_term m] =
     filterStaticRoutes (filterStaticRoutes rs [drop_term m]) [put_term n c h])"
proof (intro conjI)
  let ?f = "\<lambda>r. if route_node r = Some n then filtered_route (put_term n c h) (sr_Labels r) else r"
  have some: "(\<exists>r\<in>set (filterStaticRoutes rs [put_term n c h]). route_node r = Some n) = True"
    using put_present by blast
  have labels: "sr_Labels (?f r) = sr_Labels r" for r by (simp add: filtered_route_def)
  show "filterStaticRoutes (filterStaticRoutes rs [put_term n c h]) [put_term n c' h'] =
     filterStaticRoutes rs [put_term n c' h']"
    unfolding put_eq [of "filterStaticRoutes rs [put_term n c h]"] some
    by (auto simp: put_eq filtered_route_def)
  show "filterStaticRoutes (filterStaticRoutes rs [put_term n c h]) [drop_term n] =
     filterStaticRoutes rs [drop_term n]"
    using put_others [of n rs c h] by (simp add: drop_eq)
  show "m = n \<or> filterStaticRoutes (filterStaticRoutes rs [put_term n c h]) [drop_term m] =
     filterStaticRoutes (filterStaticRoutes rs [drop_term m]) [put_term n c h]"
  proof (cases "m = n")
    case False
    then have "filter (\<lambda>r. route_node r \<noteq> Some m) (map ?f rs) = map ?f (filter (\<lambda>r. route_node r \<noteq> Some m) rs)"
      by (induction rs) (auto simp: filtered_route_def)
    with False show ?thesis by (auto simp: put_eq drop_eq)
  qed simp
qed

section \<open>Reading back\<close>

text \<open>What \<open>ListRoutes\<close> answers for a table whose labelled routes all have a prefix.\<close>

definition kube_route_of :: "static_route \<Rightarrow> kube_route" where
  "kube_route_of r =
     \<lparr>r_Name = the (route_node r), r_TargetNode = the (route_node r),
      r_DestinationCIDR = (case sr_Destination r of DestinationPrefix p \<Rightarrow> p | DestinationOther \<Rightarrow> [])\<rparr>"

definition readable :: "static_route \<Rightarrow> bool" where
  "readable r \<longleftrightarrow> (route_node r \<noteq> None \<longrightarrow> sr_Destination r \<noteq> DestinationOther)"

lemma cpiRoutes_Ok_iff:
  "cpiRoutes rs acc = Ok ks \<longleftrightarrow>
     list_all readable rs \<and> ks = acc @ map kube_route_of (filter (\<lambda>r. route_node r \<noteq> None) rs)"
  by (induction rs arbitrary: acc)
    (auto simp: readable_def kube_route_of_def split: option.split route_destination.split)

lemma cpiRoutes_Abort_iff:
  "cpiRoutes rs acc = Abort a \<longleftrightarrow> a = TypeAssertion \<and> \<not> list_all readable rs"
  by (induction rs arbitrary: acc) (auto simp: readable_def split: option.split route_destination.split)

text \<open>The answer, route by route.\<close>

lemma cpiRoutes_answer:
  "if \<exists>x\<in>set rs. sr_Labels x cpiNodeRoleLabel \<noteq> None \<and> sr_Destination x = DestinationOther
   then cpiRoutes rs [] = Abort TypeAssertion
   else \<exists>ks. cpiRoutes rs [] = Ok ks \<and>
     list_all2 (\<lambda>x k. sr_Labels x cpiNodeRoleLabel = Some (r_TargetNode k) \<and> r_Name k = r_TargetNode k \<and>
         sr_Destination x = DestinationPrefix (r_DestinationCIDR k))
       (filter (\<lambda>x. sr_Labels x cpiNodeRoleLabel \<noteq> None) rs) ks"
proof (cases "list_all readable rs")
  case True
  then have "list_all2 (\<lambda>x k. route_node x = Some (r_TargetNode k) \<and> r_Name k = r_TargetNode k \<and>
      sr_Destination x = DestinationPrefix (r_DestinationCIDR k))
    (filter (\<lambda>x. route_node x \<noteq> None) rs) (map kube_route_of (filter (\<lambda>x. route_node x \<noteq> None) rs))"
    by (induction rs) (auto simp: readable_def kube_route_of_def split: route_destination.split)
  with True show ?thesis by (auto simp: list_all_iff readable_def cpiRoutes_Ok_iff)
next
  case False
  then show ?thesis by (auto simp: cpiRoutes_Abort_iff list_all_iff readable_def)
qed

lemma readable_put: "list_all readable rs \<Longrightarrow> list_all readable (filterStaticRoutes rs [put_term n c h])"
  by (auto simp: put_eq list_all_iff readable_def filtered_route_def)

lemma cpiRoutes_put:
  assumes "cpiRoutes (filterStaticRoutes rs [put_term n c h]) [] = Ok ks"
  shows "{k \<in> set ks. r_TargetNode k = n} = {\<lparr>r_Name = n, r_TargetNode = n, r_DestinationCIDR = c\<rparr>}"
proof -
  define x :: kube_route where "x = \<lparr>r_Name = n, r_TargetNode = n, r_DestinationCIDR = c\<rparr>"
  let ?rs = "filterStaticRoutes rs [put_term n c h]"
  from assms have ks: "set ks = kube_route_of ` {r \<in> set ?rs. route_node r \<noteq> None}"
    by (auto simp: cpiRoutes_Ok_iff)
  have one: "kube_route_of r = x" if "r \<in> set ?rs" "route_node r = Some n" for r
    using that by (auto simp: put_eq kube_route_of_def filtered_route_def x_def split: if_splits)
  obtain r where r: "r \<in> set ?rs" "route_node r = Some n" using put_present by blast
  then have "kube_route_of r \<in> set ks" unfolding ks by (intro imageI) simp
  with one [OF r] have "x \<in> set ks" by simp
  moreover have "r_TargetNode x = n" by (simp add: x_def)
  moreover have "k = x" if k: "k \<in> set ks" "r_TargetNode k = n" for k
  proof -
    from k(1) ks obtain r where r: "r \<in> set ?rs" "route_node r \<noteq> None" "k = kube_route_of r" by auto
    with k(2) have "route_node r = Some n" by (auto simp: kube_route_of_def)
    with one r show ?thesis by simp
  qed
  ultimately have "{k \<in> set ks. r_TargetNode k = n} = {x}" by blast
  then show ?thesis by (simp only: x_def)
qed

end
