(* ===== verification/RouteLock.thy ===== *)
theory RouteLock
  imports Mutex Routes
begin

text \<open>
  The route operations called from several goroutines at once. \<open>ListRoutes\<close>,
  \<open>CreateRoute\<close> and \<open>DeleteRoute\<close> of \<open>routes.go\<close> each try the lock, read the table,
  compute, write the table back and unlock; here these are separate steps that
  interleave. The theory shows that no update is lost, that the lock is not leaked and no
  call waits for another, and what a whole call of \<open>Routes\<close> does as a sequence of these
  steps.
\<close>

section \<open>Calls in progress\<close>

datatype route_request = ReqList | ReqPut string string | ReqDrop string

text \<open>The term that the call filters with; the next hop is read while the lock is held.\<close>

fun request_term :: "route_request \<Rightarrow> routeFilterTerm \<Rightarrow> bool" where
  "request_term ReqList t = False"
| "request_term (ReqPut n cidr) t = (t = put_term n cidr (ft_nextHop t) \<and> ft_nextHop t \<noteq> [])"
| "request_term (ReqDrop n) t = (t = drop_term n)"

datatype route_phase =
    Called route_request
  | Locked route_request
  | HasRead route_request "static_route list"
  | Returned
  | Refused

record route_system =
  rs_lock :: bool
  rs_table :: "static_route list"
  rs_phase :: "nat \<Rightarrow> route_phase"
  rs_log :: "(nat \<times> routeFilterTerm) list"

text \<open>
  One step of call \<open>p\<close>. \<open>written\<close>: the update takes effect; the call returns (without
  error, or with one when the answer was lost). \<open>failed\<close>: an error on the way, from the
  instance lookup or from an update that did not take effect; the deferred unlock runs.
  An update takes effect before its call unlocks, or not at all. The code waits for the
  operation, but where that wait itself fails (a cancelled context) it unlocks while the
  cloud may still be working: an effect after the unlock is not represented here.
\<close>

inductive route_step :: "nat \<Rightarrow> route_system \<Rightarrow> route_system \<Rightarrow> bool" where
  refused: "rs_phase s p = Called q \<Longrightarrow> rs_lock s \<Longrightarrow>
    route_step p s (s\<lparr>rs_phase := (rs_phase s)(p := Refused)\<rparr>)"
| acquired: "rs_phase s p = Called q \<Longrightarrow> \<not> rs_lock s \<Longrightarrow>
    route_step p s (s\<lparr>rs_lock := True, rs_phase := (rs_phase s)(p := Locked q)\<rparr>)"
| read: "rs_phase s p = Locked q \<Longrightarrow>
    route_step p s (s\<lparr>rs_phase := (rs_phase s)(p := HasRead q (rs_table s))\<rparr>)"
| listed: "rs_phase s p = HasRead ReqList rs \<Longrightarrow>
    route_step p s (s\<lparr>rs_lock := False, rs_phase := (rs_phase s)(p := Returned)\<rparr>)"
| written: "rs_phase s p = HasRead q rs \<Longrightarrow> request_term q t \<Longrightarrow>
    route_step p s (s\<lparr>rs_lock := False, rs_table := filterStaticRoutes rs [t],
      rs_phase := (rs_phase s)(p := Returned), rs_log := rs_log s @ [(p, t)]\<rparr>)"
| failed: "rs_phase s p = Locked q \<or> rs_phase s p = HasRead q rs \<Longrightarrow>
    route_step p s (s\<lparr>rs_lock := False, rs_phase := (rs_phase s)(p := Returned)\<rparr>)"

inductive_cases route_stepE: "route_step p s s'"

text \<open>The start: the lock is free, nothing is written, every call is still to be made.\<close>

definition route_start :: "static_route list \<Rightarrow> (nat \<Rightarrow> route_request) \<Rightarrow> route_system" where
  "route_start table calls =
     \<lparr>rs_lock = False, rs_table = table, rs_phase = (\<lambda>p. Called (calls p)), rs_log = []\<rparr>"

inductive route_reach :: "route_system \<Rightarrow> route_system \<Rightarrow> bool" for s0 where
  start: "route_reach s0 s0"
| more: "route_reach s0 s \<Longrightarrow> route_step p s s' \<Longrightarrow> route_reach s0 s'"

lemma route_reach_trans: "route_reach a b \<Longrightarrow> route_reach b c \<Longrightarrow> route_reach a c"
  by (rotate_tac, induction rule: route_reach.induct) (auto intro: route_reach.more)

text \<open>A run of the system, with the calls that make the steps.\<close>

inductive route_path :: "nat list \<Rightarrow> route_system \<Rightarrow> route_system \<Rightarrow> bool" where
  path_end: "route_path [] s s"
| path_step: "route_step p s s1 \<Longrightarrow> route_path ps s1 s2 \<Longrightarrow> route_path (p # ps) s s2"

inductive_simps route_path_simps [simp]: "route_path [] s s'" "route_path (p # ps) s s'"

section \<open>The invariant\<close>

definition holds_lock :: "route_phase \<Rightarrow> bool" where
  "holds_lock ph = (case ph of Locked _ \<Rightarrow> True | HasRead _ _ \<Rightarrow> True | _ \<Rightarrow> False)"

definition replay :: "static_route list \<Rightarrow> (nat \<times> routeFilterTerm) list \<Rightarrow> static_route list" where
  "replay table ts = foldl (\<lambda>rs pt. filterStaticRoutes rs [snd pt]) table ts"

lemma replay_simps [simp]:
  "replay table [] = table" "replay table (ts @ [(p, t)]) = filterStaticRoutes (replay table ts) [t]"
  by (simp_all add: replay_def)

text \<open>
  The lock is held exactly when one call, and no other, is between locking and unlocking;
  what that call has read is still the table; and the table is the result of the writes
  one after the other.
\<close>

lemma holds_lock_simps [simp]:
  "\<not> holds_lock (Called q)" "holds_lock (Locked q)" "holds_lock (HasRead q rs)"
  "\<not> holds_lock Returned" "\<not> holds_lock Refused"
  by (simp_all add: holds_lock_def)

interpretation route_mutex: shared_lock route_step rs_lock "\<lambda>s p. holds_lock (rs_phase s p)"
proof
  fix p q s s'
  assume step: "route_step p s s'"
  show "holds_lock (rs_phase s' q) = holds_lock (rs_phase s q)" if "q \<noteq> p" using step that by cases auto
  show "\<not> rs_lock s \<and> rs_lock s'" if "\<not> holds_lock (rs_phase s p)" "holds_lock (rs_phase s' p)"
    using step that by cases auto
  show "\<not> rs_lock s'" if "holds_lock (rs_phase s p)" "\<not> holds_lock (rs_phase s' p)"
    using step that by cases auto
  show "rs_lock s' = rs_lock s" if "holds_lock (rs_phase s' p) = holds_lock (rs_phase s p)"
    using step that by cases auto
qed

definition route_inv :: "static_route list \<Rightarrow> route_system \<Rightarrow> bool" where
  "route_inv table s \<longleftrightarrow>
     exclusive (rs_lock s) (\<lambda>p. holds_lock (rs_phase s p)) \<and>
     (\<forall>p q rs. rs_phase s p = HasRead q rs \<longrightarrow> rs = rs_table s) \<and>
     rs_table s = replay table (rs_log s)"

lemma route_inv_start: "route_inv table (route_start table calls)"
  by (simp add: route_inv_def route_start_def exclusive_free)

lemma route_inv_unlocked:
  assumes "exclusive (rs_lock s) (\<lambda>p. holds_lock (rs_phase s p))" and "\<not> rs_lock s"
    and "rs_table s = replay table (rs_log s)"
  shows "route_inv table s"
proof -
  have "\<not> holds_lock (rs_phase s q)" for q using assms(1,2) by (simp add: exclusive_def)
  then have "rs_phase s q \<noteq> HasRead c rs" for q c rs by (metis holds_lock_simps(3))
  with assms show ?thesis by (simp add: route_inv_def)
qed

lemma route_inv_step:
  assumes step: "route_step p s s'" and inv: "route_inv table s"
  shows "route_inv table s'"
proof -
  have X: "exclusive (rs_lock s') (\<lambda>p. holds_lock (rs_phase s' p))"
    by (rule route_mutex.exclusive_step [OF step]) (use inv in \<open>simp add: route_inv_def\<close>)
  from inv have reads: "\<And>q c rs. rs_phase s q = HasRead c rs \<Longrightarrow> rs = rs_table s"
    and tab: "rs_table s = replay table (rs_log s)"
    by (auto simp: route_inv_def)
  from step reads tab have tab': "rs_table s' = replay table (rs_log s')" by cases auto
  show ?thesis
  proof (cases "rs_lock s'")
    case True
    from step True reads have "rs = rs_table s'" if "rs_phase s' q = HasRead c rs" for q c rs
      using that by cases (auto split: if_splits)
    with X tab' show ?thesis by (simp add: route_inv_def)
  qed (use route_inv_unlocked [OF X _ tab'] in blast)
qed

lemma route_inv_reach:
  assumes "route_reach (route_start table calls) s"
  shows "route_inv table s"
  using assms
  by (induction rule: route_reach.induct) (auto intro: route_inv_start route_inv_step)

text \<open>
  Each write in the log is the write of one call, that has returned, and asked for it.
\<close>

fun phase_request :: "route_phase \<Rightarrow> route_request option" where
  "phase_request (Called q) = Some q"
| "phase_request (Locked q) = Some q"
| "phase_request (HasRead q rs) = Some q"
| "phase_request Returned = None"
| "phase_request Refused = None"

definition log_inv :: "(nat \<Rightarrow> route_request) \<Rightarrow> route_system \<Rightarrow> bool" where
  "log_inv calls s \<longleftrightarrow>
     (\<forall>p. phase_request (rs_phase s p) = None \<or> phase_request (rs_phase s p) = Some (calls p)) \<and>
     distinct (map fst (rs_log s)) \<and>
     (\<forall>(p, t)\<in>set (rs_log s). rs_phase s p = Returned \<and> request_term (calls p) t)"

lemma log_inv_start: "log_inv calls (route_start table calls)"
  by (simp add: log_inv_def route_start_def)

lemma log_inv_frame:
  assumes "log_inv calls s" and "rs_log s' = rs_log s"
    and "rs_phase s' = (rs_phase s)(p := ph)" and "rs_phase s p \<noteq> Returned"
    and "phase_request ph = None \<or> phase_request ph = phase_request (rs_phase s p)"
  shows "log_inv calls s'"
  using assms by (auto simp: log_inv_def)

lemma log_inv_step:
  assumes "route_step p s s'" and inv: "log_inv calls s"
  shows "log_inv calls s'"
  using assms(1)
proof cases
  case (written q rs t)
  with inv have "q = calls p" by (force simp: log_inv_def dest: spec [of _ p])
  moreover from inv written have "p \<notin> fst ` set (rs_log s)" by (fastforce simp: log_inv_def)
  ultimately show ?thesis using inv written by (auto simp: log_inv_def)
qed (auto intro!: log_inv_frame [OF inv, where p = p])

lemma log_inv_reach:
  assumes "route_reach (route_start table calls) s"
  shows "log_inv calls s"
  using assms by (induction rule: route_reach.induct) (auto intro: log_inv_start log_inv_step)

section \<open>No call waits\<close>

fun phase_rank :: "route_phase \<Rightarrow> nat" where
  "phase_rank (Called q) = 3"
| "phase_rank (Locked q) = 2"
| "phase_rank (HasRead q rs) = 1"
| "phase_rank Returned = 0"
| "phase_rank Refused = 0"

lemma phase_rank_le: "phase_rank ph \<le> 3"
  by (cases ph) auto

lemma route_step_rank:
  "route_step p s s' \<Longrightarrow> phase_rank (rs_phase s' p) < phase_rank (rs_phase s p) \<and>
     (\<forall>q. q \<noteq> p \<longrightarrow> rs_phase s' q = rs_phase s q)"
  by (induction rule: route_step.induct) auto

lemma route_step_enabled: "0 < phase_rank (rs_phase s p) \<Longrightarrow> \<exists>s'. route_step p s s'"
  by (cases "rs_phase s p"; cases "rs_lock s") (auto intro: route_step.intros)

section \<open>What no call touches\<close>

text \<open>The routes without the label are in the table, in their order, whatever is written.\<close>

lemma foreign_filter:
  "filter (\<lambda>r. route_node r = None) (filterStaticRoutes rs ts) = filter (\<lambda>r. route_node r = None) rs"
proof -
  have labelled: "route_node r' \<noteq> None"
    if "r' \<in> set (fate ts r)" "route_node r = Some n" for r r' n
  proof -
    have "applyTerms n r us = Replace x \<Longrightarrow> route_node x = Some n" for us x
      using that(2) by (induction us) (auto split: if_splits routeFilterTermType.splits)
    with that show ?thesis by (auto simp: fate_def split: route_fate.splits)
  qed
  have "filter (\<lambda>r. route_node r = None) (concat (map (fate ts) rs)) = filter (\<lambda>r. route_node r = None) rs"
  proof (induction rs)
    case (Cons r rs)
    have "filter (\<lambda>r. route_node r = None) (fate ts r) = (if route_node r = None then [r] else [])"
      using labelled [of _ r] by (cases "route_node r") (auto simp: fate_def filter_empty_conv)
    with Cons.IH show ?case by simp
  qed simp
  then show ?thesis by (simp add: filterStaticRoutes_eq filter_empty_conv)
qed

lemma foreign_replay:
  "filter (\<lambda>r. route_node r = None) (replay table ts) = filter (\<lambda>r. route_node r = None) table"
  by (induction ts rule: rev_induct) (auto simp: foreign_filter)

section \<open>A whole call as steps\<close>

text \<open>
  What the operations rely on of the route table's service: reading answers the table,
  and an update either takes effect as a whole, or fails and leaves the table alone, or
  takes effect and fails all the same (the answer was lost). Looking up a node's
  addresses does not touch the table.
\<close>

definition route_laws :: "'w Cloud \<Rightarrow> ('w \<Rightarrow> static_route list) \<Rightarrow> bool" where
  "route_laws yc table \<longleftrightarrow>
     (\<forall>ctx w r w'. RouteTableGet (RouteTableSvc (VPCSvc (yandexService yc))) ctx (RouteTableID (config yc)) w = (r, w') \<longrightarrow>
        table w' = table w \<and> (\<forall>rs. r = Ok rs \<longrightarrow> rs = table w)) \<and>
     (\<forall>ctx rs w r w'. api_OperationWaiter (yandexService yc) ctx
          (RouteTableUpdate (RouteTableSvc (VPCSvc (yandexService yc))) ctx (routeTableUpdate yc rs)) w = (r, w') \<longrightarrow>
        table w' = rs \<or> (\<forall>m. r \<noteq> Ok m) \<and> table w' = table w) \<and>
     (\<forall>ctx q w. table (snd (InstanceList (InstanceSvc (ComputeSvc (yandexService yc))) ctx q w)) = table w) \<and>
     (\<forall>ctx i w. table (snd (SubnetGet (SubnetSvc (VPCSvc (yandexService yc))) ctx i w)) = table w)"

lemma route_law_get: "route_laws yc table \<Longrightarrow>
    RouteTableGet (RouteTableSvc (VPCSvc (yandexService yc))) ctx (RouteTableID (config yc)) w = (r, w') \<Longrightarrow>
    table w' = table w \<and> (\<forall>rs. r = Ok rs \<longrightarrow> rs = table w)"
  unfolding route_laws_def by blast

lemma route_law_update: "route_laws yc table \<Longrightarrow>
    api_OperationWaiter (yandexService yc) ctx
      (RouteTableUpdate (RouteTableSvc (VPCSvc (yandexService yc))) ctx (routeTableUpdate yc rs)) w = (r, w') \<Longrightarrow>
    table w' = rs \<or> (\<forall>m. r \<noteq> Ok m) \<and> table w' = table w"
  unfolding route_laws_def by blast

lemma route_law_addresses:
  assumes "route_laws yc table" and "NodeAddresses yc ctx n w = (r, w')"
  shows "table w' = table w"
proof -
  have "keeps (\<lambda>v. table v = table w) (NodeAddresses yc ctx n)"
    using assms(1) by (intro keeps_NodeAddresses) (auto simp: route_laws_def keeps_def)
  with assms(2) show ?thesis by (auto dest: keepsD)
qed

text \<open>A write, by what the cloud answered: it took effect, or it did not and the call fails.\<close>

definition writes_or_fails :: "('w \<Rightarrow> static_route list) \<Rightarrow> routeFilterTerm \<Rightarrow> 'w \<Rightarrow> unit outcome \<Rightarrow> 'w \<Rightarrow> bool" where
  "writes_or_fails table t w r w' \<longleftrightarrow>
     table w' = filterStaticRoutes (table w) [t] \<or> r \<noteq> Ok () \<and> table w' = table w"

lemma update_writes:
  assumes laws: "route_laws yc table"
    and run: "bind_io (api_OperationWaiter (yandexService yc) ctx
      (RouteTableUpdate (RouteTableSvc (VPCSvc (yandexService yc))) ctx (routeTableUpdate yc
        (filterStaticRoutes (table w) [t])))) (\<lambda>_. return_io ()) w = (r, w')"
  shows "writes_or_fails table t w r w'"
proof -
  obtain x v where upd: "api_OperationWaiter (yandexService yc) ctx
      (RouteTableUpdate (RouteTableSvc (VPCSvc (yandexService yc))) ctx (routeTableUpdate yc
        (filterStaticRoutes (table w) [t]))) w = (x, v)" by fastforce
  with run have v: "v = w'" and r: "r = Ok () \<Longrightarrow> \<exists>m. x = Ok m"
    by (auto simp: bind_io_def split: outcome.splits)
  from route_law_update [OF laws upd] v r show ?thesis unfolding writes_or_fails_def by blast
qed

lemma CreateRoute_writes:
  assumes laws: "route_laws yc table" and free: "\<not> routeAPILock s"
    and run: "CreateRoute yc ctx route s = (r, s')"
  shows "(\<exists>as w1 w2. NodeAddresses yc ctx (r_TargetNode route) w1 = (Ok as, w2) \<and> firstInternalIP as \<noteq> [] \<and>
      writes_or_fails table (put_term (r_TargetNode route) (r_DestinationCIDR route) (firstInternalIP as)) (world s) r (world s')) \<or>
    r \<noteq> Ok () \<and> table (world s') = table (world s)"
proof -
  let ?y = "yandexService yc"
  obtain q1 w1 where get: "RouteTableGet (RouteTableSvc (VPCSvc ?y)) ctx (RouteTableID (config yc)) (world s) = (q1, w1)"
    by fastforce
  from route_law_get [OF laws get] have w1: "table w1 = table (world s)"
    and rt: "q1 = Ok rt \<Longrightarrow> rt = table w1" for rt by auto
  obtain q2 w2 where addr: "NodeAddresses yc ctx (r_TargetNode route) w1 = (q2, w2)" by fastforce
  from route_law_addresses [OF laws addr] w1 have w2: "table w2 = table (world s)" by simp
  show ?thesis
  proof (cases q1)
    case rt': (Ok rt)
    show ?thesis
    proof (cases q2)
      case as: (Ok as)
      show ?thesis
      proof (cases "firstInternalIP as = []")
        case True
        with run free get rt' addr as w2 show ?thesis
          by (auto simp: CreateRoute_run withRouteLock_world bind_io_OkI)
      next
        case False
        let ?t = "put_term (r_TargetNode route) (r_DestinationCIDR route) (firstInternalIP as)"
        from run free get rt' addr as False rt w1 w2
        have upd: "bind_io (api_OperationWaiter ?y ctx (RouteTableUpdate (RouteTableSvc (VPCSvc ?y)) ctx (routeTableUpdate yc
            (filterStaticRoutes (table w2) [?t])))) (\<lambda>_. return_io ()) w2 = (r, world s')"
          by (auto simp: CreateRoute_run withRouteLock_world bind_io_OkI)
        from update_writes [OF laws upd] w2 have "writes_or_fails table ?t (world s) r (world s')"
          by (simp add: writes_or_fails_def)
        with addr as False show ?thesis by blast
      qed
    qed (use run free get rt' addr w2 in
      \<open>auto simp: CreateRoute_run withRouteLock_world bind_io_OkI bind_io_ErrI bind_io_AbortI\<close>)
  qed (use run free get w1 in
    \<open>auto simp: CreateRoute_run withRouteLock_world bind_io_ErrI bind_io_AbortI\<close>)
qed

lemma DeleteRoute_writes:
  assumes laws: "route_laws yc table" and free: "\<not> routeAPILock s"
    and run: "DeleteRoute yc ctx route s = (r, s')"
  shows "writes_or_fails table (drop_term (r_TargetNode route)) (world s) r (world s')"
proof -
  let ?y = "yandexService yc"
  obtain q1 w1 where get: "RouteTableGet (RouteTableSvc (VPCSvc ?y)) ctx (RouteTableID (config yc)) (world s) = (q1, w1)"
    by fastforce
  from route_law_get [OF laws get] have w1: "table w1 = table (world s)"
    and rt: "q1 = Ok rt \<Longrightarrow> rt = table w1" for rt by auto
  show ?thesis
  proof (cases q1)
    case rt': (Ok rt)
    let ?t = "drop_term (r_TargetNode route)"
    from run free get rt' rt w1
    have upd: "bind_io (api_OperationWaiter ?y ctx (RouteTableUpdate (RouteTableSvc (VPCSvc ?y)) ctx (routeTableUpdate yc
        (filterStaticRoutes (table w1) [?t])))) (\<lambda>_. return_io ()) w1 = (r, world s')"
      by (auto simp: DeleteRoute_run withRouteLock_world bind_io_OkI)
    from update_writes [OF laws upd] w1 show ?thesis by (simp add: writes_or_fails_def)
  qed (use run free get w1 in
    \<open>auto simp: DeleteRoute_run withRouteLock_world bind_io_ErrI bind_io_AbortI writes_or_fails_def\<close>)
qed

lemma ListRoutes_reads:
  assumes laws: "route_laws yc table" and run: "ListRoutes yc ctx s = (Ok ks, s')"
  shows "cpiRoutes (table (world s)) [] = Ok ks"
proof -
  from run obtain rs w where get: "RouteTableGet (RouteTableSvc (VPCSvc (yandexService yc))) ctx (RouteTableID (config yc)) (world s) = (Ok rs, w)"
    and "cpiRoutes rs [] = Ok ks"
    by (auto simp: ListRoutes_def withRouteLock_world bind_io_def split: if_splits prod.splits outcome.splits)
  with route_law_get [OF laws get] show ?thesis by simp
qed

text \<open>
  A call alone is a run of the system: refused while the lock is held; otherwise it takes the
  lock, reads, and writes or fails.
\<close>

abbreviation ended :: "nat \<Rightarrow> route_phase \<Rightarrow> route_system \<Rightarrow> route_system" where
  "ended p ph c \<equiv> c\<lparr>rs_phase := (rs_phase c)(p := ph)\<rparr>"

abbreviation after_write :: "nat \<Rightarrow> routeFilterTerm \<Rightarrow> route_system \<Rightarrow> route_system" where
  "after_write p t c \<equiv> c\<lparr>rs_table := filterStaticRoutes (rs_table c) [t],
     rs_phase := (rs_phase c)(p := Returned), rs_log := rs_log c @ [(p, t)]\<rparr>"

lemma refused_path: "rs_phase c p = Called q \<Longrightarrow> rs_lock c \<Longrightarrow> route_path [p] c (ended p Refused c)"
  by (simp add: route_step.refused)

lemma reading_path:
  assumes call: "rs_phase c p = Called q" and free: "\<not> rs_lock c"
    and last: "route_step p (c\<lparr>rs_lock := True, rs_phase := (rs_phase c)(p := HasRead q (rs_table c))\<rparr>) c'"
  shows "route_path [p, p, p] c c'"
proof -
  let ?c1 = "c\<lparr>rs_lock := True, rs_phase := (rs_phase c)(p := Locked q)\<rparr>"
  let ?c2 = "?c1\<lparr>rs_phase := (rs_phase ?c1)(p := HasRead q (rs_table ?c1))\<rparr>"
  have "route_step p c ?c1" by (rule route_step.acquired [OF call free])
  moreover have "route_step p ?c1 ?c2" by (rule route_step.read) simp
  moreover have "route_step p ?c2 c'" using last by simp
  ultimately show ?thesis by (auto intro: route_path.intros)
qed

lemma failed_path:
  assumes "rs_phase c p = Called q" and "\<not> rs_lock c"
  shows "route_path [p, p, p] c (ended p Returned c)"
proof (rule reading_path [OF assms])
  let ?c = "c\<lparr>rs_lock := True, rs_phase := (rs_phase c)(p := HasRead q (rs_table c))\<rparr>"
  have "route_step p ?c (?c\<lparr>rs_lock := False, rs_phase := (rs_phase ?c)(p := Returned)\<rparr>)"
    by (rule route_step.failed [where q = q and rs = "rs_table c"]) simp
  moreover have "?c\<lparr>rs_lock := False, rs_phase := (rs_phase ?c)(p := Returned)\<rparr> = ended p Returned c"
    using assms(2) by simp
  ultimately show "route_step p ?c (ended p Returned c)" by simp
qed

lemma written_path:
  assumes "rs_phase c p = Called q" and "\<not> rs_lock c" and "request_term q t"
  shows "route_path [p, p, p] c (after_write p t c)"
proof (rule reading_path [OF assms(1,2)])
  let ?c = "c\<lparr>rs_lock := True, rs_phase := (rs_phase c)(p := HasRead q (rs_table c))\<rparr>"
  have "route_step p ?c (?c\<lparr>rs_lock := False, rs_table := filterStaticRoutes (rs_table c) [t],
      rs_phase := (rs_phase ?c)(p := Returned), rs_log := rs_log ?c @ [(p, t)]\<rparr>)"
    by (rule route_step.written [OF _ assms(3)]) simp
  moreover have "?c\<lparr>rs_lock := False, rs_table := filterStaticRoutes (rs_table c) [t],
      rs_phase := (rs_phase ?c)(p := Returned), rs_log := rs_log ?c @ [(p, t)]\<rparr> = after_write p t c"
    using assms(2) by simp
  ultimately show "route_step p ?c (after_write p t c)" by simp
qed

lemma listed_path:
  assumes "rs_phase c p = Called ReqList" and "\<not> rs_lock c"
  shows "route_path [p, p, p] c (ended p Returned c)"
proof (rule reading_path [OF assms])
  let ?c = "c\<lparr>rs_lock := True, rs_phase := (rs_phase c)(p := HasRead ReqList (rs_table c))\<rparr>"
  have "route_step p ?c (?c\<lparr>rs_lock := False, rs_phase := (rs_phase ?c)(p := Returned)\<rparr>)"
    by (rule route_step.listed [where rs = "rs_table c"]) simp
  moreover have "?c\<lparr>rs_lock := False, rs_phase := (rs_phase ?c)(p := Returned)\<rparr> = ended p Returned c"
    using assms(2) by simp
  ultimately show "route_step p ?c (ended p Returned c)" by simp
qed

lemma write_steps:
  assumes "rs_phase c p = Called q" and "\<not> rs_lock c" and "request_term q t" and "rs_table c = table w"
    and "writes_or_fails table t w r w'"
  shows "table w' = filterStaticRoutes (table w) [t] \<and> route_path [p, p, p] c (after_write p t c) \<or>
    r \<noteq> Ok () \<and> table w' = table w \<and> route_path [p, p, p] c (ended p Returned c)"
  using assms written_path [OF assms(1-3)] failed_path [OF assms(1,2)] by (auto simp: writes_or_fails_def)

section \<open>Properties\<close>

text \<open>A run of two calls: the second one finds the lock held.\<close>

definition two_calls :: "nat \<Rightarrow> route_request" where
  "two_calls p = (if p = 0 then ReqPut ''n1'' ''10.1.0.0/24'' else ReqDrop ''n2'')"

lemma two_calls_run:
  "\<exists>s. route_reach (route_start table two_calls) s \<and> rs_phase s 1 = Refused \<and> rs_phase s 0 = Returned \<and>
     rs_log s = [(0, put_term ''n1'' ''10.1.0.0/24'' ''10.0.0.1'')]"
proof -
  let ?q = "ReqPut ''n1'' ''10.1.0.0/24''" and ?t = "put_term ''n1'' ''10.1.0.0/24'' ''10.0.0.1''"
  let ?s0 = "route_start table two_calls"
  let ?s1 = "?s0\<lparr>rs_lock := True, rs_phase := (rs_phase ?s0)(0 := Locked ?q)\<rparr>"
  let ?s2 = "?s1\<lparr>rs_phase := (rs_phase ?s1)(1 := Refused)\<rparr>"
  let ?s3 = "?s2\<lparr>rs_phase := (rs_phase ?s2)(0 := HasRead ?q (rs_table ?s2))\<rparr>"
  let ?s4 = "?s3\<lparr>rs_lock := False, rs_table := filterStaticRoutes (rs_table ?s2) [?t],
      rs_phase := (rs_phase ?s3)(0 := Returned), rs_log := rs_log ?s3 @ [(0, ?t)]\<rparr>"
  have 1: "route_step 0 ?s0 ?s1" by (rule route_step.acquired) (simp_all add: route_start_def two_calls_def)
  have 2: "route_step 1 ?s1 ?s2"
    by (rule route_step.refused [where q = "ReqDrop ''n2''"]) (simp_all add: route_start_def two_calls_def)
  have 3: "route_step 0 ?s2 ?s3" by (rule route_step.read) simp
  have 4: "route_step 0 ?s3 ?s4" by (rule route_step.written [where q = ?q]) simp_all
  have "route_reach ?s0 ?s4" by (rule more [OF more [OF more [OF more [OF start 1] 2] 3] 4])
  then show ?thesis by (intro exI [of _ ?s4]) (simp add: route_start_def)
qed

text \<open>
  Mutual exclusion of the route operations: in every state that concurrent calls can
  reach, the lock is held exactly when a call is between its locking and its unlocking,
  at most one call is, and what that call has read is still the table.
\<close>

theorem route_calls_exclusive:
  assumes "route_reach (route_start table calls) s"
  shows "(rs_lock s \<longleftrightarrow> (\<exists>p. holds_lock (rs_phase s p))) \<and>
    (\<forall>p q. holds_lock (rs_phase s p) \<longrightarrow> holds_lock (rs_phase s q) \<longrightarrow> p = q) \<and>
    (\<forall>p q rs. rs_phase s p = HasRead q rs \<longrightarrow> rs = rs_table s)"
  using route_inv_reach [OF assms] unfolding route_inv_def exclusive_def by blast

theorem route_calls_exclusive_witness:
  "\<exists>s. route_reach (route_start [] two_calls) s \<and> rs_phase s 1 = Refused \<and>
     (rs_lock s \<longleftrightarrow> (\<exists>p. holds_lock (rs_phase s p)))"
  using two_calls_run [of "[]"] route_calls_exclusive [of "[]" two_calls] by blast

text \<open>C9: 
  No update is lost: after any interleaving the table is the result of the successful
  writes one after the other, each of them made by one call and asked for by it, and the
  routes that carry no label of the program are those of the start, in their order. (An
  update takes effect before its call unlocks or not at all; one whose wait failed and
  that takes effect later is outside the steps.)
\<close>

theorem no_route_update_lost:
  assumes "route_reach (route_start table calls) s"
  shows "rs_table s = foldl (\<lambda>rs pt. filterStaticRoutes rs [snd pt]) table (rs_log s) \<and>
    distinct (map fst (rs_log s)) \<and>
    (\<forall>(p, t)\<in>set (rs_log s). rs_phase s p = Returned \<and> request_term (calls p) t) \<and>
    filter (\<lambda>r. route_node r = None) (rs_table s) = filter (\<lambda>r. route_node r = None) table"
proof -
  from route_inv_reach [OF assms] have tab: "rs_table s = replay table (rs_log s)"
    by (simp add: route_inv_def)
  then have "filter (\<lambda>r. route_node r = None) (rs_table s) = filter (\<lambda>r. route_node r = None) table"
    by (simp add: foreign_replay)
  with tab log_inv_reach [OF assms] show ?thesis unfolding log_inv_def replay_def by blast
qed

theorem no_route_update_lost_witness:
  "\<exists>s. route_reach (route_start [] two_calls) s \<and> rs_phase s 1 = Refused \<and>
     rs_table s = filterStaticRoutes [] [put_term ''n1'' ''10.1.0.0/24'' ''10.0.0.1'']"
proof -
  obtain s where s: "route_reach (route_start [] two_calls) s" "rs_phase s 1 = Refused"
    "rs_log s = [(0, put_term ''n1'' ''10.1.0.0/24'' ''10.0.0.1'')]"
    using two_calls_run [of "[]"] by blast
  with no_route_update_lost [OF s(1)] show ?thesis by auto
qed

text \<open>
  No call waits for another one: a call that has not returned can always make a step,
  whatever the others do, and each of its steps brings it nearer to its end (at most
  three steps), while it leaves the progress of all others alone.
\<close>

theorem route_calls_progress:
  "(0 < phase_rank (rs_phase s p) \<longrightarrow> (\<exists>s'. route_step p s s')) \<and> phase_rank (rs_phase s p) \<le> 3 \<and>
   (\<forall>s'. route_step p s s' \<longrightarrow> phase_rank (rs_phase s' p) < phase_rank (rs_phase s p) \<and>
      (\<forall>q. q \<noteq> p \<longrightarrow> rs_phase s' q = rs_phase s q))"
  using route_step_enabled [of s p] route_step_rank [of p s] phase_rank_le [of "rs_phase s p"] by blast

theorem route_calls_progress_witness:
  "\<exists>s'. route_step 0 (route_start [] two_calls) s'"
  using route_calls_progress [of "route_start [] two_calls" 0] by (simp add: route_start_def)

lemma route_path_count:
  "route_path ps s s' \<Longrightarrow> count_list ps p \<le> phase_rank (rs_phase s p)"
proof (induction rule: route_path.induct)
  case (path_step q s s1 ps s2)
  with route_step_rank [of q s s1] show ?case by (cases "q = p") auto
qed simp

text \<open>C22: 
  The route lock is never leaked: in every state that concurrent calls can reach, a call is
  refused only while another one is between its locking and its unlocking; and a call that
  is still to be made can get its write through in at most four steps, after the end of the
  one that holds the lock, if any, and leaves the lock free.
\<close>

theorem route_lock_not_leaked:
  assumes "route_reach (route_start table calls) s"
  shows "(\<forall>p s'. route_step p s s' \<longrightarrow> rs_phase s' p = Refused \<longrightarrow> (\<exists>k. k \<noteq> p \<and> holds_lock (rs_phase s k))) \<and>
    (\<forall>p q t. rs_phase s p = Called q \<longrightarrow> request_term q t \<longrightarrow>
       (\<exists>ps s'. route_path ps s s' \<and> length ps \<le> 4 \<and> rs_phase s' p = Returned \<and> \<not> rs_lock s' \<and>
          rs_log s' = rs_log s @ [(p, t)] \<and> rs_table s' = filterStaticRoutes (rs_table s) [t]))"
proof (intro conjI allI impI)
  from route_inv_reach [OF assms] have X: "exclusive (rs_lock s) (\<lambda>p. holds_lock (rs_phase s p))"
    by (simp add: route_inv_def)
  fix p
  show "\<exists>k. k \<noteq> p \<and> holds_lock (rs_phase s k)" if "route_step p s s'" "rs_phase s' p = Refused" for s'
  proof -
    from that have ph: "\<not> holds_lock (rs_phase s p)" and "rs_lock s" by (cases, auto)+
    with X obtain k where k: "holds_lock (rs_phase s k)" unfolding exclusive_def by blast
    with ph have "k \<noteq> p" by blast
    with k show ?thesis by blast
  qed
  fix q t assume call: "rs_phase s p = Called q" and t: "request_term q t"
  show "\<exists>ps s'. route_path ps s s' \<and> length ps \<le> 4 \<and> rs_phase s' p = Returned \<and> \<not> rs_lock s' \<and>
      rs_log s' = rs_log s @ [(p, t)] \<and> rs_table s' = filterStaticRoutes (rs_table s) [t]"
  proof (cases "rs_lock s")
    case True
    with X obtain k where k: "holds_lock (rs_phase s k)" by (auto simp: exclusive_def)
    with call have "k \<noteq> p" by auto
    let ?s = "s\<lparr>rs_lock := False, rs_phase := (rs_phase s)(k := Returned)\<rparr>"
    have fin: "route_step k s ?s" using k by (cases "rs_phase s k") (auto intro: route_step.failed)
    from call \<open>k \<noteq> p\<close> have "rs_phase ?s p = Called q" by simp
    from written_path [OF this _ t] fin have "route_path [k, p, p, p] s (after_write p t ?s)"
      by (auto intro: route_path.intros)
    then show ?thesis by (intro exI conjI, assumption) simp_all
  next
    case False
    from written_path [OF call False t] show ?thesis using False by (intro exI conjI) (assumption, simp_all)
  qed
qed

theorem route_lock_not_leaked_witness:
  "\<exists>ps s'. route_path ps (route_start [] two_calls) s' \<and> rs_phase s' 1 = Returned \<and> rs_log s' = [(1, drop_term ''n2'')]"
proof -
  have call: "rs_phase (route_start [] two_calls) 1 = Called (ReqDrop ''n2'')" and t: "request_term (ReqDrop ''n2'') (drop_term ''n2'')"
    by (simp_all add: route_start_def two_calls_def)
  have "rs_log (route_start [] two_calls) = []" by (simp add: route_start_def)
  with conjunct2 [OF route_lock_not_leaked [OF route_reach.start [of "route_start [] two_calls"]], rule_format, OF call t]
  show ?thesis by fastforce
qed

end
