(* ===== verification/Isolation.thy ===== *)
theory Isolation
  imports LoadBalancerCtl RouteLock
begin

text \<open>
  What the provider never touches. The other theories say what a call that succeeds has
  done; this one says what every call leaves alone, however it ends: an error at any
  request, a panic, a restart of the process. Requests are only known to stay on their
  object, and the invariants are those of every state that a sequence of calls of the
  provider's interfaces can reach.
\<close>

section \<open>Requests with any outcome\<close>

text \<open>
  A request that stays on the object with identifier \<open>i\<close>
  (it may remove it, but not rename or revive it); one that at most adds one object, named
  \<open>n\<close>. A request that fails may have taken effect all the same.
\<close>

definition confined :: "('w \<Rightarrow> string \<rightharpoonup> 'x) \<Rightarrow> ('x \<Rightarrow> string) \<Rightarrow> ('w, 'a) io \<Rightarrow> string \<Rightarrow> bool" where
  "confined view nameof m i \<longleftrightarrow>
     (\<forall>w r w'. m w = (r, w') \<longrightarrow>
        (\<forall>j. j \<noteq> i \<longrightarrow> view w' j = view w j) \<and>
        (\<forall>x'. view w' i = Some x' \<longrightarrow> (\<exists>x. view w i = Some x \<and> nameof x' = nameof x)))"

definition adds_only :: "('w \<Rightarrow> string \<rightharpoonup> 'x) \<Rightarrow> ('x \<Rightarrow> string) \<Rightarrow> ('w, 'a) io \<Rightarrow> string \<Rightarrow> bool" where
  "adds_only view nameof m n \<longleftrightarrow>
     (\<forall>w r w'. m w = (r, w') \<longrightarrow>
        view w' = view w \<or> (\<exists>i x. view w i = None \<and> nameof x = n \<and> view w' = (view w)(i \<mapsto> x)))"

lemma confinedD:
  assumes "confined view nameof m i" and "m w = (r, w')"
  shows "j \<noteq> i \<Longrightarrow> view w' j = view w j"
    and "view w' i = Some x' \<Longrightarrow> \<exists>x. view w i = Some x \<and> nameof x' = nameof x"
  using assms unfolding confined_def by blast+

text \<open>
  The objects of others: those whose name is not \<open>mine\<close>. And the objects when each name
  is taken at most once.
\<close>

definition foreign :: "(string \<Rightarrow> bool) \<Rightarrow> ('x \<Rightarrow> string) \<Rightarrow> (string \<rightharpoonup> 'x) \<Rightarrow> (string \<rightharpoonup> 'x)" where
  "foreign mine nameof v = (\<lambda>i. case v i of None \<Rightarrow> None | Some x \<Rightarrow> if mine (nameof x) then None else Some x)"

definition unique_names :: "('x \<Rightarrow> string) \<Rightarrow> (string \<rightharpoonup> 'x) \<Rightarrow> bool" where
  "unique_names nameof v \<longleftrightarrow> (\<forall>i j x y. v i = Some x \<longrightarrow> v j = Some y \<longrightarrow> nameof x = nameof y \<longrightarrow> i = j)"

lemma foreign_Some_iff: "foreign mine nameof v i = Some x \<longleftrightarrow> v i = Some x \<and> \<not> mine (nameof x)"
  by (auto simp: foreign_def split: option.split)

text \<open>
  A statement \<open>P\<close> about the objects of a view that survives the creation of an object of
  ours under a free name, and any change of an object that keeps its name and whose
  identifier is \<open>Q\<close>, as those of our objects are.
\<close>

locale object_invariant =
  fixes mine :: "string \<Rightarrow> bool" and nameof :: "'x \<Rightarrow> string"
    and P :: "(string \<rightharpoonup> 'x) \<Rightarrow> bool" and Q :: "string \<Rightarrow> bool"
  assumes new_mine: "P v \<Longrightarrow> mine (nameof x) \<Longrightarrow> named nameof v (nameof x) = {} \<Longrightarrow> v i = None \<Longrightarrow> P (v(i \<mapsto> x))"
    and change_known: "P v \<Longrightarrow> Q i \<Longrightarrow> (\<And>j. j \<noteq> i \<Longrightarrow> v' j = v j) \<Longrightarrow>
      (\<And>x'. v' i = Some x' \<Longrightarrow> \<exists>x. v i = Some x \<and> nameof x' = nameof x) \<Longrightarrow> P v'"
    and mine_known: "P v \<Longrightarrow> v i = Some x \<Longrightarrow> mine (nameof x) \<Longrightarrow> Q i"
begin

lemma keeps_confined: "confined view nameof m i \<Longrightarrow> Q i \<Longrightarrow> keeps (\<lambda>w. P (view w)) m"
proof (rule keepsI)
  fix w r w' assume c: "confined view nameof m i" and i: "Q i" and w: "P (view w)" and run: "m w = (r, w')"
  show "P (view w')" by (rule change_known [OF w i]) (use confinedD [OF c run] in auto)
qed

lemma adds_kept:
  assumes "adds_only view nameof m n" and "m w = (r, w')" and "mine n"
    and "named nameof (view w) n = {}" and "P (view w)"
  shows "P (view w')"
  using assms unfolding adds_only_def by (metis new_mine)

end

interpretation of_others: object_invariant mine nameof "\<lambda>v. foreign mine nameof v = F" "\<lambda>i. F i = None"
  for mine nameof F
proof
  fix v v' i
  assume F: "foreign mine nameof v = F" "F i = None" and same: "\<And>j. j \<noteq> i \<Longrightarrow> v' j = v j"
    and at: "\<And>x'. v' i = Some x' \<Longrightarrow> \<exists>x. v i = Some x \<and> nameof x' = nameof x"
  have "foreign mine nameof v' j = foreign mine nameof v j" for j
  proof (cases "j = i")
    case True
    with F at show ?thesis by (fastforce simp: foreign_def split: option.splits if_splits)
  qed (simp add: foreign_def same)
  with F(1) show "foreign mine nameof v' = F" by auto
next
  fix v x and i :: string
  assume F: "foreign mine nameof v = F" and new: "mine (nameof x)" "v i = None"
  from new show "foreign mine nameof (v(i \<mapsto> x)) = F" unfolding F [symmetric] by (auto simp: foreign_def)
next
  fix v x and i :: string
  assume F: "foreign mine nameof v = F" and at: "v i = Some x" "mine (nameof x)"
  from at show "F i = None" unfolding F [symmetric] by (simp add: foreign_def)
qed

interpretation with_unique_names: object_invariant mine nameof "unique_names nameof" "\<lambda>_. True"
  for mine nameof
proof
  fix v x and i :: string
  assume "unique_names nameof v" and "named nameof v (nameof x) = {}"
  then show "unique_names nameof (v(i \<mapsto> x))"
    by (fastforce simp: unique_names_def named_def ran_def split: if_splits)
next
  fix v v' i
  assume u: "unique_names nameof v" and same: "\<And>j. j \<noteq> i \<Longrightarrow> v' j = v j"
    and at: "\<And>x'. v' i = Some x' \<Longrightarrow> \<exists>x. v i = Some x \<and> nameof x' = nameof x"
  have "\<exists>x0. v j = Some x0 \<and> nameof x = nameof x0" if "v' j = Some x" for j x
    using that same at by (cases "j = i") auto
  with u show "unique_names nameof v'" unfolding unique_names_def by metis
qed simp

section \<open>What the services keep\<close>

text \<open>
  \<open>CreateOrUpdateTG\<close> keeps \<open>I\<close> when its listing does, the creation does after a listing that
  found nothing, and so do the changes of an object whose identifier is \<open>Q\<close>, as that of a
  found object is.
\<close>

definition found_nothing :: "'w LoadBalancerService \<Rightarrow> ('w, 'x option) io \<Rightarrow> 'w \<Rightarrow> 'w \<Rightarrow> bool" where
  "found_nothing y get w w1 \<longleftrightarrow>
     get w = (Ok None, w1) \<or> (\<exists>e. get w = (Err e, w1) \<and> status_Code (libs y) e = codes_NotFound)"

lemma lookup_cases [case_names absent some err abort]:
  assumes "get w = (q, w1)"
  obtains "found_nothing y get w w1" | t where "q = Ok (Some t)"
    | e where "q = Err e" "status_Code (libs y) e \<noteq> codes_NotFound" | p where "q = Abort p"
proof (cases q)
  case (Ok x)
  with assms that(1,2) show thesis by (cases x) (auto simp: found_nothing_def)
next
  case (Err e)
  with assms that(1,3) show thesis by (auto simp: found_nothing_def)
qed (rule that(4))

lemma keeps_CreateOrUpdateTG:
  assumes list: "keeps I (TgList (lbs_TgSvc y) ctx (name_query y n))"
    and found: "\<And>w t w'. I w \<Longrightarrow> GetTgByName y ctx n w = (Ok (Some t), w') \<Longrightarrow> Q (tg_Id t)"
    and create: "\<And>w w1 req r w2. I w \<Longrightarrow> found_nothing y (GetTgByName y ctx n) w w1 \<Longrightarrow> ct_Name req = n \<Longrightarrow>
      OperationWaiter (cloudCtx y) ctx (TgCreate (lbs_TgSvc y) ctx req) w1 = (r, w2) \<Longrightarrow> I w2"
    and add: "\<And>i xs. Q i \<Longrightarrow> keeps I (OperationWaiter (cloudCtx y) ctx (TgAddTargets (lbs_TgSvc y) ctx i xs))"
    and remove: "\<And>i xs. Q i \<Longrightarrow> keeps I (OperationWaiter (cloudCtx y) ctx (TgRemoveTargets (lbs_TgSvc y) ctx i xs))"
  shows "keeps I (CreateOrUpdateTG y ctx n ts)"
proof (rule keepsI)
  fix w r w' assume before: "I w" and run: "CreateOrUpdateTG y ctx n ts w = (r, w')"
  obtain q w1 where get: "GetTgByName y ctx n w = (q, w1)" by fastforce
  have keep: "keeps I (GetTgByName y ctx n)" by (rule tg_lookup.keeps_find) (rule list)
  with get before have w1: "I w1" by (auto dest: keepsD)
  from get show "I w'"
  proof (cases rule: lookup_cases [where y = y])
    case absent
    let ?rq = "\<lparr>ct_FolderId = FolderID (cloudCtx y), ct_Name = n, ct_RegionId = RegionID (cloudCtx y), ct_Targets = ts\<rparr>"
    obtain x w2 where c: "OperationWaiter (cloudCtx y) ctx (TgCreate (lbs_TgSvc y) ctx ?rq) w1 = (x, w2)" by fastforce
    have "I w2" by (rule create [OF before absent _ c]) simp
    moreover have "w' = w2"
      using run c CreateOrUpdateTG_absent [OF absent [unfolded found_nothing_def]]
      by (cases x) (auto simp: bind_io_def)
    ultimately show ?thesis by simp
  next
    case (some t)
    with found get before have t: "Q (tg_Id t)" by blast
    let ?d = "diffTargetGroupTargets (StringSet_List (libs y)) ts (tg_Targets t)"
    have "keeps I (bind_io (send_if_any (fst ?d) (OperationWaiter (cloudCtx y) ctx
            (TgAddTargets (lbs_TgSvc y) ctx (tg_Id t) (fst ?d))) False) (\<lambda>dirty.
          bind_io (send_if_any (snd ?d) (OperationWaiter (cloudCtx y) ctx
            (TgRemoveTargets (lbs_TgSvc y) ctx (tg_Id t) (snd ?d))) dirty) (\<lambda>dirty.
          bind_io (if dirty then GetTgByName y ctx n else return_io (Some t)) (\<lambda>tg'.
          lift_outcome (bind_outcome (deref tg') (\<lambda>t. Ok (tg_Id t)))))))"
      by (intro keeps_bind keeps_send_if_any add remove keeps_if keep keeps_lift keeps_return t)
    with w1 run get some show ?thesis
      by (auto simp: CreateOrUpdateTG_def bind_io_OkI attempt_io_OkI case_prod_unfold Let_def dest: keepsD)
  next
    case (err e)
    with run get w1 CreateOrUpdateTG_error show ?thesis by fastforce
  next
    case (abort p)
    with run get w1 show ?thesis by (simp add: CreateOrUpdateTG_def bind_io_AbortI attempt_io_AbortI)
  qed
qed

text \<open>The same for \<open>CreateOrUpdateLB\<close>, which may also delete the found object and create anew.\<close>

definition edits_kept :: "'w LoadBalancerService \<Rightarrow> ctx \<Rightarrow> ('w \<Rightarrow> bool) \<Rightarrow> string \<Rightarrow> bool" where
  "edits_kept y ctx I i \<longleftrightarrow>
     keeps I (OperationWaiter (cloudCtx y) ctx (LbDelete (lbs_LbSvc y) ctx i)) \<and>
     (\<forall>n. keeps I (OperationWaiter (cloudCtx y) ctx (LbRemoveListener (lbs_LbSvc y) ctx i n))) \<and>
     (\<forall>l. keeps I (OperationWaiter (cloudCtx y) ctx (LbAddListener (lbs_LbSvc y) ctx i l))) \<and>
     (\<forall>t. keeps I (OperationWaiter (cloudCtx y) ctx (LbDetachTargetGroup (lbs_LbSvc y) ctx i t))) \<and>
     (\<forall>t. keeps I (OperationWaiter (cloudCtx y) ctx (LbAttachTargetGroup (lbs_LbSvc y) ctx i t)))"

lemma createLB_world:
  assumes "createLB y ctx req w = (r, w')"
  obtains x where "OperationWaiter (cloudCtx y) ctx (LbCreate (lbs_LbSvc y) ctx req) w = (x, w')"
proof -
  obtain x v where x: "OperationWaiter (cloudCtx y) ctx (LbCreate (lbs_LbSvc y) ctx req) w = (x, v)" by fastforce
  with assms have "v = w'" by (cases x) (auto simp: createLB_def bind_io_def)
  with x that show thesis by blast
qed

lemma keeps_updateLB_edits:
  assumes get: "keeps I (GetLbByName y ctx n)" and edits: "edits_kept y ctx I (lb_Id c)"
  shows "keeps I (updateLB y ctx n specs atgs c)"
  unfolding updateLB_def
  by (auto split: prod.split intro!: keeps_bind keeps_for_each_dirty keeps_if get
      simp: edits [unfolded edits_kept_def])

lemma keeps_CreateOrUpdateLB_known:
  assumes list: "keeps I (LbList (lbs_LbSvc y) ctx (name_query y n))"
    and found: "\<And>w c w'. I w \<Longrightarrow> GetLbByName y ctx n w = (Ok (Some c), w') \<Longrightarrow> edits_kept y ctx I (lb_Id c)"
    and create: "\<And>w w1 req r w2. I w \<Longrightarrow> found_nothing y (GetLbByName y ctx n) w w1 \<Longrightarrow> cl_Name req = n \<Longrightarrow>
      OperationWaiter (cloudCtx y) ctx (LbCreate (lbs_LbSvc y) ctx req) w1 = (r, w2) \<Longrightarrow> I w2"
    and recreate: "\<And>w c w1 m w2 req r w3. I w \<Longrightarrow> GetLbByName y ctx n w = (Ok (Some c), w1) \<Longrightarrow>
      OperationWaiter (cloudCtx y) ctx (LbDelete (lbs_LbSvc y) ctx (lb_Id c)) w1 = (Ok m, w2) \<Longrightarrow> cl_Name req = n \<Longrightarrow>
      OperationWaiter (cloudCtx y) ctx (LbCreate (lbs_LbSvc y) ctx req) w2 = (r, w3) \<Longrightarrow> I w3"
  shows "keeps I (CreateOrUpdateLB y ctx n specs atgs)"
proof (rule keepsI)
  fix w r w' assume before: "I w" and run: "CreateOrUpdateLB y ctx n specs atgs w = (r, w')"
  let ?rq = "lb_create_request y n specs atgs"
  have name: "cl_Name ?rq = n" by (simp add: lb_create_request_def)
  obtain q w1 where get: "GetLbByName y ctx n w = (q, w1)" by fastforce
  have keep: "keeps I (GetLbByName y ctx n)" by (rule lb_lookup.keeps_find) (rule list)
  with get before have w1: "I w1" by (auto dest: keepsD)
  from get show "I w'"
  proof (cases rule: lookup_cases [where y = y])
    case absent
    from run have "createLB y ctx ?rq w1 = (r, w')"
      by (simp add: CreateOrUpdateLB_absent [OF absent [unfolded found_nothing_def]])
    then show ?thesis by (rule createLB_world) (rule create [OF before absent name])
  next
    case (some c)
    with get have get': "GetLbByName y ctx n w = (Ok (Some c), w1)" by simp
    note edits = found [OF before get']
    show ?thesis
    proof (cases "lb_Type c = nlbTypeOf specs")
      case True
      with run have "updateLB y ctx n specs atgs c w1 = (r, w')"
        by (simp add: CreateOrUpdateLB_update [OF get'])
      with keeps_updateLB_edits [OF keep edits] w1 show ?thesis by (blast dest: keepsD)
    next
      case False
      obtain d w2 where del: "OperationWaiter (cloudCtx y) ctx (LbDelete (lbs_LbSvc y) ctx (lb_Id c)) w1 = (d, w2)" by fastforce
      with edits w1 have w2: "I w2" by (auto simp: edits_kept_def dest: keepsD)
      note rc = run [unfolded CreateOrUpdateLB_recreate [OF get' False]]
      show ?thesis
      proof (cases d)
        case (Ok m)
        with rc del have "createLB y ctx ?rq w2 = (r, w')" by (simp add: bind_io_OkI)
        then show ?thesis
          by (rule createLB_world) (rule recreate [OF before get' _ name], use del Ok in simp)
      qed (use rc del w2 in \<open>simp_all add: bind_io_def\<close>)
    qed
  next
    case (err e)
    with run get w1 CreateOrUpdateLB_error show ?thesis by fastforce
  next
    case (abort p)
    with run get w1 show ?thesis by (simp add: CreateOrUpdateLB_def Let_def bind_io_AbortI attempt_io_AbortI)
  qed
qed

lemma keeps_RemoveLBByName_known:
  assumes "keeps I (LbList (lbs_LbSvc y) ctx (name_query y n))"
    and "\<And>w c w'. I w \<Longrightarrow> GetLbByName y ctx n w = (Ok (Some c), w') \<Longrightarrow> edits_kept y ctx I (lb_Id c)"
  shows "keeps I (RemoveLBByName y ctx n)"
  unfolding RemoveLBByName_def
proof (rule keeps_bind_known [where Q = "\<lambda>r. \<forall>c. r = Some c \<longrightarrow> edits_kept y ctx I (lb_Id c)"])
  show "keeps I (GetLbByName y ctx n)" by (rule lb_lookup.keeps_find) (rule assms(1))
qed (use assms(2) in \<open>auto simp: edits_kept_def split: option.split intro: keeps_skipNotFound\<close>)

section \<open>Calls of the provider\<close>

text \<open>
  The calls that the Kubernetes controllers make of the provider, of which only the effect
  counts here, and the restart of the process: after a crash the variables are those of a
  new process, and the cloud is what it was.
\<close>

datatype provider_call =
    CallInitialize
  | CallRestart
  | CallGetLoadBalancer service
  | CallEnsureLoadBalancer service "node list"
  | CallUpdateLoadBalancer service "node list"
  | CallEnsureLoadBalancerDeleted service
  | CallListRoutes
  | CallCreateRoute kube_route
  | CallDeleteRoute kube_route
  | CallNodeAddresses string
  | CallNodeAddressesByProviderID string
  | CallInstanceID string
  | CallInstanceExistsByProviderID string
  | CallInstanceShutdownByProviderID string
  | CallGetZoneByProviderID string
  | CallGetZoneByNodeName string

definition effect :: "('w, 'a) io \<Rightarrow> 'w \<Rightarrow> 'w" where
  "effect m w = snd (m w)"

fun perform :: "('w, 'cs, 'i) informer_api \<Rightarrow> 'w Cloud \<Rightarrow> ctx \<Rightarrow> provider_call \<Rightarrow>
    'w cloud_state \<Rightarrow> 'w cloud_state" where
  "perform k yc ctx CallInitialize = effect (Initialize k)"
| "perform k yc ctx CallRestart = (\<lambda>s. new_cloud_state (world s))"
| "perform k yc ctx (CallGetLoadBalancer svc) = effect (on_world (GetLoadBalancer yc ctx svc))"
| "perform k yc ctx (CallEnsureLoadBalancer svc nodes) = effect (EnsureLoadBalancer yc ctx svc nodes)"
| "perform k yc ctx (CallUpdateLoadBalancer svc nodes) = effect (UpdateLoadBalancer yc ctx svc nodes)"
| "perform k yc ctx (CallEnsureLoadBalancerDeleted svc) = effect (EnsureLoadBalancerDeleted yc ctx svc)"
| "perform k yc ctx CallListRoutes = effect (ListRoutes yc ctx)"
| "perform k yc ctx (CallCreateRoute route) = effect (CreateRoute yc ctx route)"
| "perform k yc ctx (CallDeleteRoute route) = effect (DeleteRoute yc ctx route)"
| "perform k yc ctx (CallNodeAddresses n) = effect (on_world (NodeAddresses yc ctx n))"
| "perform k yc ctx (CallNodeAddressesByProviderID p) = effect (on_world (NodeAddressesByProviderID yc ctx p))"
| "perform k yc ctx (CallInstanceID n) = effect (on_world (InstanceID yc ctx n))"
| "perform k yc ctx (CallInstanceExistsByProviderID p) = effect (on_world (InstanceExistsByProviderID yc ctx p))"
| "perform k yc ctx (CallInstanceShutdownByProviderID p) = effect (on_world (InstanceShutdownByProviderID yc ctx p))"
| "perform k yc ctx (CallGetZoneByProviderID p) = effect (on_world (GetZoneByProviderID yc ctx p))"
| "perform k yc ctx (CallGetZoneByNodeName n) = effect (on_world (GetZoneByNodeName yc ctx n))"

text \<open>The services whose load balancers a call is about; \<open>S\<close> are those of the cluster.\<close>

fun call_services :: "provider_call \<Rightarrow> service set" where
  "call_services (CallEnsureLoadBalancer svc nodes) = {svc}"
| "call_services (CallUpdateLoadBalancer svc nodes) = {svc}"
| "call_services (CallEnsureLoadBalancerDeleted svc) = {svc}"
| "call_services _ = {}"

inductive provider_reach :: "('w, 'cs, 'i) informer_api \<Rightarrow> 'w Cloud \<Rightarrow> service set \<Rightarrow>
    'w cloud_state \<Rightarrow> 'w cloud_state \<Rightarrow> bool" for k yc S s0 where
  provider_start: "provider_reach k yc S s0 s0"
| provider_call: "provider_reach k yc S s0 s \<Longrightarrow> call_services c \<subseteq> S \<Longrightarrow>
    provider_reach k yc S s0 (perform k yc ctx c s)"

lemma keeps_effect: "keeps I m \<Longrightarrow> I w \<Longrightarrow> I (effect m w)"
  by (simp add: keeps_def effect_def)

lemma keeps_on_world_effect: "keeps I m \<Longrightarrow> I (world s) \<Longrightarrow> I (world (effect (on_world m) s))"
  using keeps_effect [OF keeps_on_world] by blast

section \<open>Every group that the syncer writes is the cluster's\<close>

definition cluster_named :: "'w Cloud \<Rightarrow> string \<Rightarrow> bool" where
  "cluster_named yc n \<longleftrightarrow> strings_Contains n (ClusterName (config yc))"

lemma tgKey_cluster: "cluster_named yc (tgKey (ClusterName (config yc)) nd net)"
  using Contains_append [of "[]" "ClusterName (config yc)" net]
    Contains_append [of "truncateAnnotationValue v" "ClusterName (config yc)" net for v]
  by (simp add: cluster_named_def tgKey_def Let_def split: option.split)

lemma addInterfaces_names:
  "addInterfaces yc ctx nd ifaces mapping w = (Ok mapping', w') \<Longrightarrow>
     \<forall>n\<in>dom mapping. cluster_named yc n \<Longrightarrow> \<forall>n\<in>dom mapping'. cluster_named yc n"
proof (induction ifaces arbitrary: mapping w)
  case (Cons f fs)
  from Cons.prems(1) obtain net a w1 where
    rest: "addInterfaces yc ctx nd fs (appendTarget mapping (tgKey (ClusterName (config yc)) nd net)
      \<lparr>t_SubnetId = ni_SubnetId f, t_Address = a\<rparr>) w1 = (Ok mapping', w')"
    by (auto simp: bind_io_Ok_iff attempt_io_Ok_iff Let_def)
  show ?case
    by (rule Cons.IH [OF rest]) (use Cons.prems(2) tgKey_cluster in \<open>auto simp: appendTarget_def dom_def split: if_splits\<close>)
qed simp

lemma addInstances_names:
  "addInstances yc ctx insts mapping w = (Ok mapping', w') \<Longrightarrow>
     \<forall>n\<in>dom mapping. cluster_named yc n \<Longrightarrow> \<forall>n\<in>dom mapping'. cluster_named yc n"
proof (induction insts arbitrary: mapping w)
  case (Cons i insts)
  then obtain m w1 where "addInterfaces yc ctx (iw_Node i) (i_NetworkInterfaces (iw_Instance i)) mapping w = (Ok m, w1)"
    and rest: "addInstances yc ctx insts m w1 = (Ok mapping', w')" by (auto simp: bind_io_Ok_iff)
  from addInterfaces_names [OF this(1) Cons.prems(2)] show ?case by (rule Cons.IH [OF rest])
qed simp

lemma construct_names:
  "constructTgNameToTargetMap yc ctx insts w = (Ok mapping, w') \<Longrightarrow> n \<in> dom mapping \<Longrightarrow> cluster_named yc n"
  by (auto simp: constructTgNameToTargetMap_def bind_io_Ok_iff dest!: addInstances_names split: if_splits)

section \<open>Invariants of the provider\<close>

text \<open>The requests and calls that only read.\<close>

definition readings_keep :: "('w, 'cs, 'i) informer_api \<Rightarrow> 'w YandexCloudAPI \<Rightarrow> ('w \<Rightarrow> bool) \<Rightarrow> bool" where
  "readings_keep k y I \<longleftrightarrow>
     (\<forall>ctx q. keeps I (LbList (lbs_LbSvc (LbSvc y)) ctx q)) \<and> (\<forall>ctx q. keeps I (TgList (lbs_TgSvc (LbSvc y)) ctx q)) \<and>
     (\<forall>ctx q. keeps I (InstanceList (InstanceSvc (ComputeSvc y)) ctx q)) \<and> (\<forall>ctx i. keeps I (InstanceGet (InstanceSvc (ComputeSvc y)) ctx i)) \<and>
     (\<forall>ctx i. keeps I (SubnetGet (SubnetSvc (VPCSvc y)) ctx i)) \<and> (\<forall>ctx i. keeps I (RouteTableGet (RouteTableSvc (VPCSvc y)) ctx i)) \<and>
     (\<forall>l. keeps I (ServiceList (libs y) l)) \<and>
     (\<forall>n. keeps I (ClientOrDie k n)) \<and> (\<forall>i. keeps I (GoInformerRun k i)) \<and>
     (\<forall>i. keeps I (WaitForCacheSync k i))"

text \<open>
  A statement about the cloud that every call of the provider keeps: it is enough that the
  readings keep it, and the writing operations of the services when they are called on the
  names that the provider calls them on.
\<close>

locale provider_invariant =
  fixes k :: "('w, 'cs, 'i) informer_api" and yc :: "'w Cloud" and S :: "service set" and I :: "'w \<Rightarrow> bool"
  assumes readings: "readings_keep k (yandexService yc) I"
    and put_tg: "cluster_named yc n \<Longrightarrow> keeps I (CreateOrUpdateTG (LbSvc (yandexService yc)) ctx n ts)"
    and clean: "keeps (\<lambda>s. I (world s)) (cleanUpTargetGroups yc ctx)"
    and put_lb: "svc \<in> S \<Longrightarrow> keeps I (CreateOrUpdateLB (LbSvc (yandexService yc)) ctx (defaultLoadBalancerName svc) specs atgs)"
    and remove_lb: "svc \<in> S \<Longrightarrow> keeps I (RemoveLBByName (LbSvc (yandexService yc)) ctx (defaultLoadBalancerName svc))"
    and put_route: "keeps (\<lambda>s. I (world s)) (CreateRoute yc ctx route)"
    and drop_route: "keeps (\<lambda>s. I (world s)) (DeleteRoute yc ctx route)"
begin

lemmas reading = readings [unfolded readings_keep_def]

lemma syncer_vars [simp, intro]:
  "keeps (\<lambda>s. I (world s)) theSyncer" "keeps (\<lambda>s. I (world s)) (setVisitedNodes V)"
  "keeps (\<lambda>s. I (world s)) (setListers a b)"
  by (simp_all add: keeps_def theSyncer_def setListers_def)

lemma puts_mapping:
  assumes "\<forall>n\<in>dom mapping. cluster_named yc n"
  shows "keeps I (putMapping yc ctx mapping)"
proof -
  have "keeps I (foreach_io (\<lambda>tgName. case mapping tgName of None \<Rightarrow> return_io ()
      | Some targets \<Rightarrow> bind_io (CreateOrUpdateTG (LbSvc (yandexService yc)) ctx tgName targets) (\<lambda>_. return_io ())) ns)" for ns
    using assms by (intro keeps_foreach) (auto split: option.split intro!: keeps_bind put_tg)
  then show ?thesis by (simp add: putMapping_def keeps_def)
qed

lemma constructs: "keeps I (constructTgNameToTargetMap yc ctx insts)"
proof -
  have ifaces: "keeps I (addInterfaces yc ctx nd fs mapping)" for nd fs mapping
  proof (induction fs arbitrary: mapping)
    case (Cons f fs)
    then show ?case by (auto simp: reading Let_def intro!: keeps_bind keeps_attempt split: sum.split)
  qed simp
  have "keeps I (addInstances yc ctx insts mapping)" for mapping
    by (induction insts arbitrary: mapping) (auto intro!: keeps_bind ifaces)
  then show ?thesis unfolding constructTgNameToTargetMap_def by (intro keeps_bind) auto
qed

lemma synchronizes: "keeps (\<lambda>s. I (world s)) (synchronizeNodesWithTargetGroups yc ctx nodes)"
proof -
  have find: "keeps (\<lambda>s. I (world s)) (on_world (findInstances yc ctx nodes []))"
    by (intro keeps_on_world keeps_findInstances) (simp add: reading)
  have plan: "keeps (\<lambda>s. I (world s)) (bind_io (attempt_io (on_world (constructTgNameToTargetMap yc ctx insts))) (\<lambda>r.
      case r of Inl err \<Rightarrow> fail_io (ErrConstructMap err)
      | Inr mapping \<Rightarrow> bind_io (on_world (putMapping yc ctx mapping)) (\<lambda>_. setVisitedNodes V)))" for insts V
    by (rule keeps_bind_known [where Q = "\<lambda>r. \<forall>mapping. r = Inr mapping \<longrightarrow> (\<forall>n\<in>dom mapping. cluster_named yc n)"])
      (auto simp: attempt_io_Ok_iff on_world_Ok_iff split: sum.split dest: construct_names
        intro!: keeps_attempt keeps_bind keeps_on_world constructs puts_mapping)
  show ?thesis
    unfolding synchronizeNodesWithTargetGroups_def Let_def
    by (intro keeps_if keeps_return keeps_bind syncer_vars find plan)
qed

lemma syncs: "keeps (\<lambda>s. I (world s)) (SyncTGs yc ctx nodes)"
  unfolding SyncTGs_def
  by (auto intro!: keeps_bind keeps_attempt keeps_on_world keeps_if clean synchronizes
      simp: reading split: sum.split)

lemma ensures: "svc \<in> S \<Longrightarrow> keeps I (ensureLB yc ctx svc nodes)"
  unfolding ensureLB_def Let_def
  by (auto split: outcome.split option.split
      intro!: keeps_bind put_lb tg_lookup.keeps_find simp: reading)

lemma finds: "keeps I (getInstanceByNodeName yc ctx n)" "keeps I (getInstanceByProviderID yc ctx p)"
proof -
  show "keeps I (getInstanceByNodeName yc ctx n)" by (rule keeps_getInstanceByNodeName) (simp add: reading)
  show "keeps I (getInstanceByProviderID yc ctx p)"
    unfolding getInstanceByProviderID_def
    by (auto intro!: keeps_bind keeps_attempt instance_lookup.keeps_find simp: reading
        split: sum.split option.split prod.split)
qed

lemma asks: "keeps I (extractNodeAddresses yc ctx inst)"
  by (rule keeps_extractNodeAddresses) (simp add: reading)

lemma initializes: "keeps (\<lambda>s. I (world s)) (Initialize k)"
proof -
  have "keeps I (waitForCache k i)" for i
    unfolding waitForCache_def by (intro keeps_bind keeps_if keeps_lift keeps_return) (simp add: reading)
  then show ?thesis
    unfolding Initialize_def Let_def
    by (intro keeps_bind keeps_on_world syncer_vars) (simp_all add: reading)
qed

lemma lists_routes: "keeps (\<lambda>s. I (world s)) (ListRoutes yc ctx)"
proof -
  have "keeps I (bind_io (RouteTableGet (RouteTableSvc (VPCSvc (yandexService yc))) ctx i) (\<lambda>rs. lift_outcome (cpiRoutes rs [])))" for i
    by (intro keeps_bind keeps_lift) (simp add: reading)
  then show ?thesis by (simp add: keeps_def ListRoutes_def withRouteLock_world)
qed

lemma performs:
  assumes "call_services c \<subseteq> S" and "I (world s)"
  shows "I (world (perform k yc ctx c s))"
proof -
  have E: "keeps (\<lambda>s. I (world s)) m \<Longrightarrow> I (world (effect m s))" for m :: "('w cloud_state, 'x) io"
    using assms(2) by (simp add: keeps_def effect_def)
  have ensure: "keeps (\<lambda>s. I (world s)) (on_world (ensureLB yc ctx svc nodes))" if "svc \<in> S" for svc nodes
    by (intro keeps_on_world ensures that)
  show ?thesis
  proof (cases c)
    case (CallGetLoadBalancer svc)
    have "keeps I (GetLoadBalancer yc ctx svc)"
      unfolding GetLoadBalancer_def
      by (auto intro!: keeps_bind lb_lookup.keeps_find simp: reading split: option.split)
    with CallGetLoadBalancer show ?thesis by (simp add: E keeps_on_world)
  next
    case (CallInstanceExistsByProviderID p)
    have "keeps I (InstanceExistsByProviderID yc ctx p)"
      unfolding InstanceExistsByProviderID_def
      by (auto intro!: keeps_bind keeps_attempt finds split: sum.split)
    with CallInstanceExistsByProviderID show ?thesis by (simp add: E keeps_on_world)
  next
    case CallRestart
    with assms(2) show ?thesis by (simp add: new_cloud_state_def)
  qed (use assms(1) in \<open>auto intro!: E keeps_on_world keeps_bind initializes syncs ensure remove_lb lists_routes
      put_route drop_route finds asks addresses_by_name.op_keeps addresses_by_id.op_keeps id_by_name.op_keeps
      shutdown_by_id.op_keeps zone_by_id.op_keeps zone_by_name.op_keeps
      simp: EnsureLoadBalancer_def UpdateLoadBalancer_def EnsureLoadBalancerDeleted_def\<close>)
qed

lemma reachable: "provider_reach k yc S s0 s \<Longrightarrow> I (world s0) \<Longrightarrow> I (world s)"
  by (induction rule: provider_reach.induct) (auto intro: performs)

end

section \<open>What is relied on of the cloud\<close>

definition tg_requests_keep :: "'w LoadBalancerService \<Rightarrow> ('w \<Rightarrow> bool) \<Rightarrow> bool" where
  "tg_requests_keep y I \<longleftrightarrow>
     (\<forall>ctx req. keeps I (OperationWaiter (cloudCtx y) ctx (TgCreate (lbs_TgSvc y) ctx req))) \<and>
     (\<forall>ctx i ts. keeps I (OperationWaiter (cloudCtx y) ctx (TgAddTargets (lbs_TgSvc y) ctx i ts))) \<and>
     (\<forall>ctx i ts. keeps I (OperationWaiter (cloudCtx y) ctx (TgRemoveTargets (lbs_TgSvc y) ctx i ts))) \<and>
     (\<forall>ctx i. keeps I (OperationWaiter (cloudCtx y) ctx (TgDelete (lbs_TgSvc y) ctx i)))"

definition route_requests_keep :: "'w YandexCloudAPI \<Rightarrow> ('w \<Rightarrow> bool) \<Rightarrow> bool" where
  "route_requests_keep y I \<longleftrightarrow>
     (\<forall>ctx req. keeps I (api_OperationWaiter y ctx (RouteTableUpdate (RouteTableSvc (VPCSvc y)) ctx req)))"

text \<open>
  Beside what successful requests do (\<open>tg_service_laws\<close>): a request stays on its object
  whatever its outcome, a listing answers objects that are there, and requests about
  other things do not touch the target groups. The same for load balancers and routes.
\<close>

definition tg_frame_laws :: "('w, 'cs, 'i) informer_api \<Rightarrow> 'w YandexCloudAPI \<Rightarrow>
    ('w \<Rightarrow> string \<rightharpoonup> target_group) \<Rightarrow> bool" where
  "tg_frame_laws k y tgs \<longleftrightarrow>
     tg_service_laws (LbSvc y) tgs \<and> fair_orders (libs y) \<and>
     (\<forall>ctx req. adds_only tgs tg_Name (OperationWaiter (cloudCtx (LbSvc y)) ctx (TgCreate (lbs_TgSvc (LbSvc y)) ctx req)) (ct_Name req)) \<and>
     (\<forall>ctx i ts. confined tgs tg_Name (OperationWaiter (cloudCtx (LbSvc y)) ctx (TgAddTargets (lbs_TgSvc (LbSvc y)) ctx i ts)) i) \<and>
     (\<forall>ctx i ts. confined tgs tg_Name (OperationWaiter (cloudCtx (LbSvc y)) ctx (TgRemoveTargets (lbs_TgSvc (LbSvc y)) ctx i ts)) i) \<and>
     (\<forall>ctx i. confined tgs tg_Name (OperationWaiter (cloudCtx (LbSvc y)) ctx (TgDelete (lbs_TgSvc (LbSvc y)) ctx i)) i) \<and>
     (\<forall>ctx q w ts w'. TgList (lbs_TgSvc (LbSvc y)) ctx q w = (Ok ts, w') \<longrightarrow> set ts \<subseteq> ran (tgs w)) \<and>
     (\<forall>v. readings_keep k y (\<lambda>w. tgs w = v) \<and> lb_requests_keep (LbSvc y) (\<lambda>w. tgs w = v) \<and>
        route_requests_keep y (\<lambda>w. tgs w = v))"

definition lb_frame_laws :: "('w, 'cs, 'i) informer_api \<Rightarrow> 'w YandexCloudAPI \<Rightarrow> ('w \<Rightarrow> string \<rightharpoonup> nlb) \<Rightarrow> bool" where
  "lb_frame_laws k y lbs \<longleftrightarrow>
     lb_service_laws (LbSvc y) lbs \<and> fair_orders (libs y) \<and>
     (\<forall>ctx req. adds_only lbs lb_Name (OperationWaiter (cloudCtx (LbSvc y)) ctx (LbCreate (lbs_LbSvc (LbSvc y)) ctx req)) (cl_Name req)) \<and>
     (\<forall>ctx i. confined lbs lb_Name (OperationWaiter (cloudCtx (LbSvc y)) ctx (LbDelete (lbs_LbSvc (LbSvc y)) ctx i)) i) \<and>
     (\<forall>ctx i n. confined lbs lb_Name (OperationWaiter (cloudCtx (LbSvc y)) ctx (LbRemoveListener (lbs_LbSvc (LbSvc y)) ctx i n)) i) \<and>
     (\<forall>ctx i l. confined lbs lb_Name (OperationWaiter (cloudCtx (LbSvc y)) ctx (LbAddListener (lbs_LbSvc (LbSvc y)) ctx i l)) i) \<and>
     (\<forall>ctx i t. confined lbs lb_Name (OperationWaiter (cloudCtx (LbSvc y)) ctx (LbDetachTargetGroup (lbs_LbSvc (LbSvc y)) ctx i t)) i) \<and>
     (\<forall>ctx i t. confined lbs lb_Name (OperationWaiter (cloudCtx (LbSvc y)) ctx (LbAttachTargetGroup (lbs_LbSvc (LbSvc y)) ctx i t)) i) \<and>
     (\<forall>v. readings_keep k y (\<lambda>w. lbs w = v) \<and> tg_requests_keep (LbSvc y) (\<lambda>w. lbs w = v) \<and>
        route_requests_keep y (\<lambda>w. lbs w = v))"

definition route_frame_laws :: "('w, 'cs, 'i) informer_api \<Rightarrow> 'w Cloud \<Rightarrow> ('w \<Rightarrow> static_route list) \<Rightarrow> bool" where
  "route_frame_laws k yc table \<longleftrightarrow>
     route_laws yc table \<and> fair_orders (libs (yandexService yc)) \<and>
     (\<forall>v. readings_keep k (yandexService yc) (\<lambda>w. table w = v) \<and>
        lb_requests_keep (LbSvc (yandexService yc)) (\<lambda>w. table w = v) \<and>
        tg_requests_keep (LbSvc (yandexService yc)) (\<lambda>w. table w = v))"

text \<open>\<open>P\<close> of a view, in a cloud where the laws \<open>L\<close> hold.\<close>

definition lawful :: "bool \<Rightarrow> ('w \<Rightarrow> 'v) \<Rightarrow> ('v \<Rightarrow> bool) \<Rightarrow> 'w \<Rightarrow> bool" where
  "lawful L view P w \<longleftrightarrow> L \<and> P (view w)"

lemma keeps_lawful: "(L \<Longrightarrow> keeps (\<lambda>w. P (view w)) m) \<Longrightarrow> keeps (lawful L view P) m"
  by (auto simp: keeps_def lawful_def)

lemma lawful_readings:
  assumes "L \<Longrightarrow> \<forall>v. readings_keep k y (\<lambda>w. view w = v)"
  shows "readings_keep k y (lawful L view P)"
  using assms by (cases L) (simp_all add: readings_keep_def keeps_def lawful_def)

lemma lawful_lb_requests:
  assumes "L \<Longrightarrow> \<forall>v. lb_requests_keep (LbSvc y) (\<lambda>w. view w = v)"
  shows "lb_requests_keep (LbSvc y) (lawful L view P)"
  using assms by (cases L) (simp_all add: lb_requests_keep_def keeps_def lawful_def)

lemma lawful_tg_requests:
  assumes "L \<Longrightarrow> \<forall>v. tg_requests_keep (LbSvc y) (\<lambda>w. view w = v)"
  shows "tg_requests_keep (LbSvc y) (lawful L view P)"
  using assms by (cases L) (simp_all add: tg_requests_keep_def keeps_def lawful_def)

lemma lawful_route_requests:
  assumes "L \<Longrightarrow> \<forall>v. route_requests_keep y (\<lambda>w. view w = v)"
  shows "route_requests_keep y (lawful L view P)"
  using assms by (cases L) (simp_all add: route_requests_keep_def keeps_def lawful_def)

text \<open>The operations on target groups and routes keep what their requests keep.\<close>

lemma keeps_CreateOrUpdateTG_all:
  assumes "readings_keep k y I" and "tg_requests_keep (LbSvc y) I"
  shows "keeps I (CreateOrUpdateTG (LbSvc y) ctx n ts)"
proof -
  have list: "keeps I (TgList (lbs_TgSvc (LbSvc y)) ctx q)" for q using assms(1) by (simp add: readings_keep_def)
  show ?thesis
  proof (rule keeps_CreateOrUpdateTG [where Q = "\<lambda>_. True", OF list])
    fix w w1 req r w2
    assume "I w" and "found_nothing (LbSvc y) (GetTgByName (LbSvc y) ctx n) w w1"
      and create: "OperationWaiter (cloudCtx (LbSvc y)) ctx (TgCreate (lbs_TgSvc (LbSvc y)) ctx req) w1 = (r, w2)"
    moreover have "keeps I (GetTgByName (LbSvc y) ctx n)" by (rule tg_lookup.keeps_find) (rule list)
    ultimately have "I w1" by (auto simp: found_nothing_def dest: keepsD)
    with create assms(2) show "I w2" by (auto simp: tg_requests_keep_def dest: keepsD)
  qed (use assms(2) in \<open>auto simp: tg_requests_keep_def\<close>)
qed

lemma keeps_cleanUp_all:
  assumes "readings_keep k (yandexService yc) I" and "tg_requests_keep (LbSvc (yandexService yc)) I"
    and "fair_orders (libs (yandexService yc))"
  shows "keeps (\<lambda>s. I (world s)) (cleanUpTargetGroups yc ctx)"
  by (rule keeps_cleanUp) (use assms in \<open>auto simp: readings_keep_def tg_requests_keep_def\<close>)

lemma keeps_withRouteLock: "keeps I m \<Longrightarrow> keeps (\<lambda>s. I (world s)) (withRouteLock (on_world m))"
  by (simp add: keeps_def withRouteLock_world)

lemma keeps_route_operations:
  assumes r: "readings_keep k (yandexService yc) I" and u: "route_requests_keep (yandexService yc) I"
  shows "keeps (\<lambda>s. I (world s)) (CreateRoute yc ctx route)" and "keeps (\<lambda>s. I (world s)) (DeleteRoute yc ctx route)"
proof -
  have get: "keeps I (RouteTableGet (RouteTableSvc (VPCSvc (yandexService yc))) ctx i)" for i
    using r by (simp add: readings_keep_def)
  have addr: "keeps I (NodeAddresses yc ctx n)" for n
    by (rule keeps_NodeAddresses) (use r in \<open>simp_all add: readings_keep_def\<close>)
  have upd: "keeps I (api_OperationWaiter (yandexService yc) ctx (RouteTableUpdate (RouteTableSvc (VPCSvc (yandexService yc))) ctx req))" for req
    using u by (simp add: route_requests_keep_def)
  show "keeps (\<lambda>s. I (world s)) (CreateRoute yc ctx route)"
    unfolding CreateRoute_def Let_def by (intro keeps_withRouteLock keeps_bind keeps_if keeps_fail keeps_return get addr upd)
  show "keeps (\<lambda>s. I (world s)) (DeleteRoute yc ctx route)"
    unfolding DeleteRoute_def Let_def by (intro keeps_withRouteLock keeps_bind keeps_return get upd)
qed

section \<open>Target groups, load balancers and routes\<close>

text \<open>Statements about the target groups, under the laws.\<close>

locale group_invariant =
  object_invariant "cluster_named yc" tg_Name P Q
  for yc :: "'w Cloud" and P :: "(string \<rightharpoonup> target_group) \<Rightarrow> bool" and Q :: "string \<Rightarrow> bool" +
  fixes k :: "('w, 'cs, 'i) informer_api" and S :: "service set" and tgs :: "'w \<Rightarrow> string \<rightharpoonup> target_group"
begin

abbreviation (input) laws where "laws \<equiv> tg_frame_laws k (yandexService yc) tgs"
abbreviation (input) I where "I \<equiv> lawful laws tgs P"

lemma group_found:
  assumes laws and "GetTgByName (LbSvc (yandexService yc)) ctx n w = (Ok (Some t), w')"
  shows "tgs w (tg_Id t) = Some t" and "tg_Name t = n"
proof -
  from assms(1) have L: "tg_service_laws (LbSvc (yandexService yc)) tgs" by (simp add: tg_frame_laws_def)
  have "named tg_Name (tgs w) n = {t}"
    using tg_lookup.find_named(2) [OF tg_law_list [OF L] tg_law_many [OF L] assms(2)] by simp
  then show "tgs w (tg_Id t) = Some t" and "tg_Name t = n"
    using named_sing_lookup(1,2) [where idof = tg_Id] tg_law_ids [OF L] by metis+
qed

lemma group_not_found:
  assumes laws and "found_nothing (LbSvc (yandexService yc)) (GetTgByName (LbSvc (yandexService yc)) ctx n) w w1"
  shows "tgs w1 = tgs w" and "named tg_Name (tgs w) n = {}"
proof -
  from assms(1) have L: "tg_service_laws (LbSvc (yandexService yc)) tgs" by (simp add: tg_frame_laws_def)
  note F = tg_lookup.find_named [OF tg_law_list [OF L] tg_law_many [OF L]]
  from assms(2) show "tgs w1 = tgs w" and "named tg_Name (tgs w) n = {}"
    by (auto simp: found_nothing_def dest: F)
qed

lemma group_readings: "readings_keep k (yandexService yc) I"
  by (rule lawful_readings) (simp add: tg_frame_laws_def)

lemma group_list: "keeps I (TgList (lbs_TgSvc (LbSvc (yandexService yc))) ctx q)"
  using group_readings unfolding readings_keep_def by blast

lemma group_changes:
  assumes "Q i"
  shows "keeps I (OperationWaiter (cloudCtx (LbSvc (yandexService yc))) ctx (TgAddTargets (lbs_TgSvc (LbSvc (yandexService yc))) ctx i ts))"
    and "keeps I (OperationWaiter (cloudCtx (LbSvc (yandexService yc))) ctx (TgRemoveTargets (lbs_TgSvc (LbSvc (yandexService yc))) ctx i ts))"
    and "keeps I (OperationWaiter (cloudCtx (LbSvc (yandexService yc))) ctx (TgDelete (lbs_TgSvc (LbSvc (yandexService yc))) ctx i))"
  by (rule keeps_lawful, rule keeps_confined [OF _ assms], simp add: tg_frame_laws_def)+

lemma puts_group: "cluster_named yc n \<Longrightarrow> keeps I (CreateOrUpdateTG (LbSvc (yandexService yc)) ctx n ts)"
proof (rule keeps_CreateOrUpdateTG [where Q = Q, OF group_list])
  fix w t w'
  assume "cluster_named yc n" and "I w" and "GetTgByName (LbSvc (yandexService yc)) ctx n w = (Ok (Some t), w')"
  then show "Q (tg_Id t)" using mine_known group_found by (metis lawful_def)
next
  fix w w1 req r w2
  assume n: "cluster_named yc n" and w: "I w"
    and none: "found_nothing (LbSvc (yandexService yc)) (GetTgByName (LbSvc (yandexService yc)) ctx n) w w1"
    and req: "ct_Name req = n"
    and run: "OperationWaiter (cloudCtx (LbSvc (yandexService yc))) ctx (TgCreate (lbs_TgSvc (LbSvc (yandexService yc))) ctx req) w1 = (r, w2)"
  from w have laws and P: "P (tgs w)" by (simp_all add: lawful_def)
  from group_not_found [OF \<open>laws\<close> none] P have "P (tgs w1)" "named tg_Name (tgs w1) n = {}" by simp_all
  moreover have "adds_only tgs tg_Name (OperationWaiter (cloudCtx (LbSvc (yandexService yc))) ctx (TgCreate (lbs_TgSvc (LbSvc (yandexService yc))) ctx req)) n"
    using \<open>laws\<close> req by (auto simp: tg_frame_laws_def)
  ultimately have "P (tgs w2)"
    using adds_kept [where view = tgs and w = w1
        and m = "OperationWaiter (cloudCtx (LbSvc (yandexService yc))) ctx (TgCreate (lbs_TgSvc (LbSvc (yandexService yc))) ctx req)"] run n by blast
  with \<open>laws\<close> show "I w2" by (simp add: lawful_def)
qed (rule group_changes, assumption)+

lemma cleans: "keeps (\<lambda>s. I (world s)) (cleanUpTargetGroups yc ctx)"
proof (cases laws)
  case True
  show ?thesis
  proof (rule keeps_cleanUp_known [where Q = Q, OF group_list _ group_changes(3)])
    fix w ctx q xs w' t
    assume w: "I w" and list: "TgList (lbs_TgSvc (LbSvc (yandexService yc))) ctx q w = (Ok xs, w')"
      and t: "t \<in> set xs" "strings_Contains (tg_Name t) (ClusterName (config yc))"
    from True list have "set xs \<subseteq> ran (tgs w)" unfolding tg_frame_laws_def by blast
    with t(1) have "t \<in> ran (tgs w)" by blast
    then obtain i where i: "tgs w i = Some t" by (auto simp: ran_def)
    moreover from True have "tg_service_laws (LbSvc (yandexService yc)) tgs" by (simp add: tg_frame_laws_def)
    ultimately have "tg_Id t = i" by (intro tg_law_ids)
    with i mine_known [of "tgs w" i t] w t(2) show "Q (tg_Id t)" by (simp add: lawful_def cluster_named_def)
  qed (use True in \<open>simp_all add: tg_frame_laws_def\<close>)
qed (simp add: keeps_def lawful_def)

sublocale on_groups: provider_invariant k yc S I
proof
  show "keeps (\<lambda>s. I (world s)) (cleanUpTargetGroups yc ctx)" for ctx by (rule cleans)
  show "readings_keep k (yandexService yc) I" by (rule group_readings)
  have lb: "lb_requests_keep (LbSvc (yandexService yc)) I" by (rule lawful_lb_requests) (simp add: tg_frame_laws_def)
  show "keeps I (CreateOrUpdateLB (LbSvc (yandexService yc)) ctx n specs atgs)" for ctx n specs atgs
    by (rule keeps_CreateOrUpdateLB) (rule lb)
  show "keeps I (RemoveLBByName (LbSvc (yandexService yc)) ctx n)" for ctx n
    by (rule keeps_RemoveLBByName) (rule lb)
  have "route_requests_keep (yandexService yc) I" by (rule lawful_route_requests) (simp add: tg_frame_laws_def)
  from keeps_route_operations [OF group_readings this]
  show "keeps (\<lambda>s. I (world s)) (CreateRoute yc ctx route)" "keeps (\<lambda>s. I (world s)) (DeleteRoute yc ctx route)" for ctx route .
qed (rule puts_group)

end

text \<open>Statements about the load balancers, those of the services in \<open>S\<close> being ours.\<close>

definition service_named :: "service set \<Rightarrow> string \<Rightarrow> bool" where
  "service_named S n \<longleftrightarrow> n \<in> defaultLoadBalancerName ` S"

locale balancer_invariant =
  object_invariant "service_named S" lb_Name P Q
  for S :: "service set" and P :: "(string \<rightharpoonup> nlb) \<Rightarrow> bool" and Q :: "string \<Rightarrow> bool" +
  fixes k :: "('w, 'cs, 'i) informer_api" and yc :: "'w Cloud" and lbs :: "'w \<Rightarrow> string \<rightharpoonup> nlb"
begin

abbreviation (input) laws where "laws \<equiv> lb_frame_laws k (yandexService yc) lbs"
abbreviation (input) I where "I \<equiv> lawful laws lbs P"

lemma balancer_found:
  assumes laws and "GetLbByName (LbSvc (yandexService yc)) ctx n w = (Ok (Some c), w')"
  shows "lbs w (lb_Id c) = Some c" and "lb_Name c = n" and "lbs w' = lbs w" and "named lb_Name (lbs w) n = {c}"
proof -
  from assms(1) have L: "lb_service_laws (LbSvc (yandexService yc)) lbs" by (simp add: lb_frame_laws_def)
  note F = lb_lookup.find_named [OF lb_law_list [OF L] lb_law_many [OF L] assms(2)]
  from F(1) show "lbs w' = lbs w" .
  from F(2) show "named lb_Name (lbs w) n = {c}" by simp
  then show "lbs w (lb_Id c) = Some c" and "lb_Name c = n"
    using named_sing_lookup(1,2) [where idof = lb_Id] lb_law_ids [OF L] by metis+
qed

lemma balancer_not_found:
  assumes laws and "found_nothing (LbSvc (yandexService yc)) (GetLbByName (LbSvc (yandexService yc)) ctx n) w w1"
  shows "lbs w1 = lbs w" and "named lb_Name (lbs w) n = {}"
proof -
  from assms(1) have L: "lb_service_laws (LbSvc (yandexService yc)) lbs" by (simp add: lb_frame_laws_def)
  note F = lb_lookup.find_named [OF lb_law_list [OF L] lb_law_many [OF L]]
  from assms(2) show "lbs w1 = lbs w" and "named lb_Name (lbs w) n = {}"
    by (auto simp: found_nothing_def dest: F)
qed

lemma balancer_readings: "readings_keep k (yandexService yc) I"
  by (rule lawful_readings) (simp add: lb_frame_laws_def)

lemma balancer_list: "keeps I (LbList (lbs_LbSvc (LbSvc (yandexService yc))) ctx q)"
  using balancer_readings unfolding readings_keep_def by blast

lemma balancer_changes: "Q i \<Longrightarrow> edits_kept (LbSvc (yandexService yc)) ctx I i"
  unfolding edits_kept_def by (intro conjI allI keeps_lawful; rule keeps_confined) (simp_all add: lb_frame_laws_def)

lemma found_known:
  assumes "svc \<in> S" and "I w"
    and "GetLbByName (LbSvc (yandexService yc)) ctx (defaultLoadBalancerName svc) w = (Ok (Some c), w')"
  shows "edits_kept (LbSvc (yandexService yc)) ctx I (lb_Id c)"
  using assms balancer_found [OF _ assms(3)] mine_known [of "lbs w" "lb_Id c" c]
  by (intro balancer_changes) (auto simp: lawful_def service_named_def)

lemma creates:
  assumes "svc \<in> S" and laws and "P (lbs w)" and "named lb_Name (lbs w) (defaultLoadBalancerName svc) = {}"
    and "cl_Name req = defaultLoadBalancerName svc"
    and "OperationWaiter (cloudCtx (LbSvc (yandexService yc))) ctx (LbCreate (lbs_LbSvc (LbSvc (yandexService yc))) ctx req) w = (r, w')"
  shows "I w'"
proof -
  have "adds_only lbs lb_Name (OperationWaiter (cloudCtx (LbSvc (yandexService yc))) ctx (LbCreate (lbs_LbSvc (LbSvc (yandexService yc))) ctx req))
      (cl_Name req)"
    using assms(2) unfolding lb_frame_laws_def by blast
  moreover have "service_named S (defaultLoadBalancerName svc)" using assms(1) by (simp add: service_named_def)
  ultimately have "P (lbs w')"
    unfolding assms(5)
    using adds_kept [where view = lbs and w = w
        and m = "OperationWaiter (cloudCtx (LbSvc (yandexService yc))) ctx (LbCreate (lbs_LbSvc (LbSvc (yandexService yc))) ctx req)"] assms(3,4,6) by blast
  with assms(2) show ?thesis by (simp add: lawful_def)
qed

lemma puts_balancer:
  assumes "svc \<in> S"
  shows "keeps I (CreateOrUpdateLB (LbSvc (yandexService yc)) ctx (defaultLoadBalancerName svc) specs atgs)"
proof (rule keeps_CreateOrUpdateLB_known [OF balancer_list found_known [OF assms]])
  fix w w1 req r w2
  assume "I w" and none: "found_nothing (LbSvc (yandexService yc)) (GetLbByName (LbSvc (yandexService yc)) ctx (defaultLoadBalancerName svc)) w w1"
    and req: "cl_Name req = defaultLoadBalancerName svc"
      "OperationWaiter (cloudCtx (LbSvc (yandexService yc))) ctx (LbCreate (lbs_LbSvc (LbSvc (yandexService yc))) ctx req) w1 = (r, w2)"
  then have laws and "P (lbs w)" by (simp_all add: lawful_def)
  with balancer_not_found [OF _ none] show "I w2" by (intro creates [OF assms _ _ _ req]) auto
next
  fix w c w1 m w2 req r w3
  assume w: "I w" and get: "GetLbByName (LbSvc (yandexService yc)) ctx (defaultLoadBalancerName svc) w = (Ok (Some c), w1)"
    and del: "OperationWaiter (cloudCtx (LbSvc (yandexService yc))) ctx (LbDelete (lbs_LbSvc (LbSvc (yandexService yc))) ctx (lb_Id c)) w1 = (Ok m, w2)"
    and req: "cl_Name req = defaultLoadBalancerName svc"
      "OperationWaiter (cloudCtx (LbSvc (yandexService yc))) ctx (LbCreate (lbs_LbSvc (LbSvc (yandexService yc))) ctx req) w2 = (r, w3)"
  then have laws by (simp add: lawful_def)
  then have L: "lb_service_laws (LbSvc (yandexService yc)) lbs" by (simp add: lb_frame_laws_def)
  note F = balancer_found [OF \<open>laws\<close> get]
  have "I w1" using w F(3) by (simp add: lawful_def)
  with found_known [OF assms w get] del have "I w2" by (auto simp: edits_kept_def dest: keepsD)
  then have P: "P (lbs w2)" by (simp add: lawful_def)
  have "lbs w2 = (lbs w)(lb_Id c := None)" using lb_law_delete [OF L del] F(3) by simp
  then have "named lb_Name (lbs w2) (defaultLoadBalancerName svc) = {}"
    using named_delete(1) [OF F(4,1), where idof = lb_Id] lb_law_ids [OF L] by simp
  with P show "I w3" by (intro creates [OF assms \<open>laws\<close> _ _ req])
qed

sublocale on_balancers: provider_invariant k yc S I
proof
  show "readings_keep k (yandexService yc) I" by (rule balancer_readings)
  have tg: "tg_requests_keep (LbSvc (yandexService yc)) I" by (rule lawful_tg_requests) (simp add: lb_frame_laws_def)
  show "keeps I (CreateOrUpdateTG (LbSvc (yandexService yc)) ctx n ts)" for ctx n ts
    by (rule keeps_CreateOrUpdateTG_all [OF balancer_readings tg])
  show "keeps (\<lambda>s. I (world s)) (cleanUpTargetGroups yc ctx)" for ctx
  proof (cases laws)
    case True
    then have "fair_orders (libs (yandexService yc))" by (simp add: lb_frame_laws_def)
    from keeps_cleanUp_all [OF balancer_readings tg this] show ?thesis .
  qed (simp add: keeps_def lawful_def)
  show "keeps I (RemoveLBByName (LbSvc (yandexService yc)) ctx (defaultLoadBalancerName svc))" if "svc \<in> S" for ctx svc
    by (rule keeps_RemoveLBByName_known [OF balancer_list found_known [OF that]])
  have "route_requests_keep (yandexService yc) I" by (rule lawful_route_requests) (simp add: lb_frame_laws_def)
  from keeps_route_operations [OF balancer_readings this]
  show "keeps (\<lambda>s. I (world s)) (CreateRoute yc ctx route)" "keeps (\<lambda>s. I (world s)) (DeleteRoute yc ctx route)" for ctx route .
qed (rule puts_balancer)

end

text \<open>Statements about the routes that carry no label of the program.\<close>

definition unlabelled :: "static_route list \<Rightarrow> static_route list" where
  "unlabelled rs = filter (\<lambda>r. route_node r = None) rs"

lemma writes_unlabelled: "writes_or_fails table t w r w' \<Longrightarrow> unlabelled (table w') = unlabelled (table w)"
  by (auto simp: writes_or_fails_def unlabelled_def foreign_filter)

definition unlabelled_is :: "('w, 'cs, 'i) informer_api \<Rightarrow> 'w Cloud \<Rightarrow> ('w \<Rightarrow> static_route list) \<Rightarrow>
    static_route list \<Rightarrow> 'w \<Rightarrow> bool" where
  "unlabelled_is k yc table R = lawful (route_frame_laws k yc table) table (\<lambda>rs. unlabelled rs = R)"

interpretation on_routes: provider_invariant k yc S "unlabelled_is k yc table R" for k yc S table R
proof
  let ?L = "route_frame_laws k yc table"
  show r: "readings_keep k (yandexService yc) (unlabelled_is k yc table R)"
    unfolding unlabelled_is_def by (rule lawful_readings) (simp add: route_frame_laws_def)
  have lb: "lb_requests_keep (LbSvc (yandexService yc)) (unlabelled_is k yc table R)"
    unfolding unlabelled_is_def by (rule lawful_lb_requests) (simp add: route_frame_laws_def)
  have tg: "tg_requests_keep (LbSvc (yandexService yc)) (unlabelled_is k yc table R)"
    unfolding unlabelled_is_def by (rule lawful_tg_requests) (simp add: route_frame_laws_def)
  show "keeps (unlabelled_is k yc table R) (CreateOrUpdateTG (LbSvc (yandexService yc)) ctx n ts)" for ctx n ts
    by (rule keeps_CreateOrUpdateTG_all [OF r tg])
  show "keeps (\<lambda>s. unlabelled_is k yc table R (world s)) (cleanUpTargetGroups yc ctx)" for ctx
  proof (cases ?L)
    case True
    then have "fair_orders (libs (yandexService yc))" by (simp add: route_frame_laws_def)
    from keeps_cleanUp_all [OF r tg this] show ?thesis .
  qed (simp add: keeps_def lawful_def unlabelled_is_def)
  show "keeps (unlabelled_is k yc table R) (CreateOrUpdateLB (LbSvc (yandexService yc)) ctx n specs atgs)" for ctx n specs atgs
    by (rule keeps_CreateOrUpdateLB) (rule lb)
  show "keeps (unlabelled_is k yc table R) (RemoveLBByName (LbSvc (yandexService yc)) ctx n)" for ctx n
    by (rule keeps_RemoveLBByName) (rule lb)
  have *: "keeps (\<lambda>s. unlabelled_is k yc table R (world s)) m"
    if refused: "\<And>s. routeAPILock s \<Longrightarrow> m s = (Err ErrRouteAPILocked, s)"
      and free: "\<And>s r s'. route_laws yc table \<Longrightarrow> \<not> routeAPILock s \<Longrightarrow> m s = (r, s') \<Longrightarrow>
        unlabelled (table (world s')) = unlabelled (table (world s))" for m
  proof (rule keepsI)
    fix s r s' assume s: "unlabelled_is k yc table R (world s)" and run: "m s = (r, s')"
    show "unlabelled_is k yc table R (world s')"
    proof (cases "routeAPILock s")
      case True
      with refused [of s] run s show ?thesis by simp
    next
      case False
      from s have "route_laws yc table" by (simp add: unlabelled_is_def lawful_def route_frame_laws_def)
      from free [OF this False run] s show ?thesis
        by (simp add: unlabelled_is_def lawful_def)
    qed
  qed
  show "keeps (\<lambda>s. unlabelled_is k yc table R (world s)) (CreateRoute yc ctx route)" for ctx route
  proof (rule *, rule create_route.refused, assumption)
    fix s r s' assume "route_laws yc table" "\<not> routeAPILock s" "CreateRoute yc ctx route s = (r, s')"
    from CreateRoute_writes [OF this] show "unlabelled (table (world s')) = unlabelled (table (world s))"
      by (auto dest: writes_unlabelled)
  qed
  show "keeps (\<lambda>s. unlabelled_is k yc table R (world s)) (DeleteRoute yc ctx route)" for ctx route
    by (rule *, rule delete_route.refused, assumption) (rule writes_unlabelled [OF DeleteRoute_writes])
qed

text \<open>The interpretations for the objects of others, and for names taken once.\<close>

interpretation groups_of_others: group_invariant yc "\<lambda>v. foreign (cluster_named yc) tg_Name v = F"
    "\<lambda>i. F i = None" k S tgs
  for yc F k S tgs
  by (intro group_invariant.intro of_others.object_invariant_axioms)

interpretation unique_groups: group_invariant yc "unique_names tg_Name" "\<lambda>_. True" k S tgs
  for yc k S tgs
  by (intro group_invariant.intro with_unique_names.object_invariant_axioms)

interpretation balancers_of_others: balancer_invariant S "\<lambda>v. foreign (service_named S) lb_Name v = F"
    "\<lambda>i. F i = None" k yc lbs
  for S F k yc lbs
  by (intro balancer_invariant.intro of_others.object_invariant_axioms)

interpretation unique_balancers: balancer_invariant S "unique_names lb_Name" "\<lambda>_. True" k yc lbs
  for S k yc lbs
  by (intro balancer_invariant.intro with_unique_names.object_invariant_axioms)

section \<open>Reachable states\<close>

lemma groups_isolated:
  assumes "tg_frame_laws k (yandexService yc) tgs" and "provider_reach k yc S s0 s"
  shows "foreign (cluster_named yc) tg_Name (tgs (world s)) = foreign (cluster_named yc) tg_Name (tgs (world s0))"
    and "unique_names tg_Name (tgs (world s0)) \<Longrightarrow> unique_names tg_Name (tgs (world s))"
  using groups_of_others.on_groups.reachable [OF assms(2)] unique_groups.on_groups.reachable [OF assms(2)] assms(1)
  by (auto simp: lawful_def)

lemma balancers_isolated:
  assumes "lb_frame_laws k (yandexService yc) lbs" and "provider_reach k yc S s0 s"
  shows "foreign (service_named S) lb_Name (lbs (world s)) = foreign (service_named S) lb_Name (lbs (world s0))"
    and "unique_names lb_Name (lbs (world s0)) \<Longrightarrow> unique_names lb_Name (lbs (world s))"
  using balancers_of_others.on_balancers.reachable [OF assms(2)] unique_balancers.on_balancers.reachable [OF assms(2)] assms(1)
  by (auto simp: lawful_def)

lemma routes_isolated:
  assumes "route_frame_laws k yc table" and "provider_reach k yc S s0 s"
  shows "unlabelled (table (world s)) = unlabelled (table (world s0))"
  using on_routes.reachable [OF assms(2)] assms(1) by (auto simp: unlabelled_is_def lawful_def)

end
