(* ===== verification/SimCloud.thy ===== *)
theory SimCloud
  imports LoadBalancerCtl RouteLock "HOL-Library.List_Lexorder" "HOL-Library.Char_ord"
begin

text \<open>
  A small cloud in memory: clients that keep load balancers, target groups and a route
  table in lists. It models no code of the repository. It is here to show that the
  hypotheses that the theorems make about the cloud (\<open>tg_service_laws\<close>,
  \<open>lb_service_laws\<close>, \<open>route_laws\<close> and so on) can hold together, and its runs are the
  concrete inputs at which the theorems are applied.
\<close>

section \<open>A store of objects\<close>

text \<open>
  Objects in a list, looked up by identifier; the first of an identifier is the visible
  one, so that the lists need no invariant.
\<close>

definition st_view :: "('x \<Rightarrow> string) \<Rightarrow> 'x list \<Rightarrow> string \<rightharpoonup> 'x" where
  "st_view idof xs i = find (\<lambda>x. idof x = i) xs"

fun st_visible :: "('x \<Rightarrow> string) \<Rightarrow> 'x list \<Rightarrow> 'x list" where
  "st_visible idof [] = []"
| "st_visible idof (x # xs) = x # filter (\<lambda>y. idof y \<noteq> idof x) (st_visible idof xs)"

definition st_fresh :: "('x \<Rightarrow> string) \<Rightarrow> 'x list \<Rightarrow> string" where
  "st_fresh idof xs = ''i'' @ concat (map idof xs)"

definition st_update :: "('x \<Rightarrow> string) \<Rightarrow> string \<Rightarrow> ('x \<Rightarrow> 'x) \<Rightarrow> 'x list \<Rightarrow> 'x list" where
  "st_update idof i f xs = map (\<lambda>x. if idof x = i then f x else x) xs"

definition st_delete :: "('x \<Rightarrow> string) \<Rightarrow> string \<Rightarrow> 'x list \<Rightarrow> 'x list" where
  "st_delete idof i xs = filter (\<lambda>x. idof x \<noteq> i) xs"

lemma st_view_id: "st_view idof xs i = Some x \<Longrightarrow> idof x = i"
  by (auto simp: st_view_def find_Some_iff)

lemma st_visible_set: "set (st_visible idof xs) = ran (st_view idof xs)"
proof (induction xs)
  case (Cons x xs)
  have "ran (st_view idof (x # xs)) = insert x {y \<in> ran (st_view idof xs). idof y \<noteq> idof x}"
    by (auto simp: st_view_def ran_def find_Some_iff2 split: if_splits) (metis (mono_tags) find_Some_iff)+
  with Cons.IH show ?case by auto
qed (simp add: st_view_def)

lemma st_visible_distinct: "distinct (map idof (st_visible idof xs))"
  by (induction xs) (auto simp: distinct_map_filter)

lemma st_visible_length: "length (st_visible idof xs) = card (ran (st_view idof xs))"
  unfolding st_visible_set [symmetric]
  by (rule distinct_card [symmetric]) (use st_visible_distinct in \<open>auto simp: distinct_map\<close>)

lemma st_named: "set (filter (\<lambda>x. nameof x = n) (st_visible idof xs)) = named nameof (st_view idof xs) n"
  by (auto simp: named_def st_visible_set)

lemma st_fresh_view: "st_view idof xs (st_fresh idof xs) = None"
proof -
  have "length (idof x) < length (st_fresh idof xs)" if "x \<in> set xs" for x
    using that by (induction xs) (auto simp: st_fresh_def)
  then have "idof x \<noteq> st_fresh idof xs" if "x \<in> set xs" for x using that by (metis less_irrefl)
  then show ?thesis by (auto simp: st_view_def find_None_iff)
qed

lemma st_view_Cons: "st_view idof (x # xs) = (st_view idof xs)(idof x \<mapsto> x)"
  by (auto simp: st_view_def fun_eq_iff)

lemma st_view_delete: "st_view idof (st_delete idof i xs) = (st_view idof xs)(i := None)"
  by (induction xs) (auto simp: st_delete_def st_view_def fun_eq_iff)

lemma st_view_update:
  assumes "\<And>x. idof (f x) = idof x"
  shows "st_view idof (st_update idof i f xs) = (\<lambda>j. if j = i then map_option f (st_view idof xs j) else st_view idof xs j)"
  using assms by (induction xs) (auto simp: st_update_def st_view_def fun_eq_iff)

lemma st_view_update_at:
  assumes "\<And>x. idof (f x) = idof x" and "st_view idof xs i = Some c"
  shows "st_view idof (st_update idof i f xs) = (st_view idof xs)(i \<mapsto> f c)"
  using assms(2) by (auto simp: st_view_update [of idof f, OF assms(1)] fun_eq_iff)

section \<open>The state and the clients\<close>

record sim_world =
  w_tgs :: "target_group list"
  w_lbs :: "nlb list"
  w_table :: "static_route list"
  w_services :: "service list"
  w_reply :: proto_message

definition sim_answer :: "(sim_world \<Rightarrow> sim_world) \<Rightarrow> (sim_world, operation) io" where
  "sim_answer f = (\<lambda>w. (Ok (Operation []), f w))"

definition sim_missing :: "string \<Rightarrow> (sim_world, 'a) io" where
  "sim_missing i = (\<lambda>w. (Err (RpcError codes_NotFound i), w))"

text \<open>A listing: the filter is empty or asks for a name.\<close>

definition sim_list :: "('x \<Rightarrow> string) \<Rightarrow> list_request \<Rightarrow> 'x list \<Rightarrow> 'x list" where
  "sim_list nameof q xs =
     take (nat (lr_PageSize q)) (filter (\<lambda>x. lr_Filter q = [] \<or> lr_Filter q = name_filter (nameof x)) xs)"

definition sim_tgs :: "sim_world \<Rightarrow> string \<rightharpoonup> target_group" where
  "sim_tgs w = st_view tg_Id (w_tgs w)"

definition sim_tg_create :: "create_tg_request \<Rightarrow> (sim_world, operation) io" where
  "sim_tg_create req = sim_answer (\<lambda>w.
     let t = \<lparr>tg_Id = st_fresh tg_Id (w_tgs w), tg_Name = ct_Name req, tg_Targets = ct_Targets req\<rparr>
     in w\<lparr>w_tgs := t # w_tgs w, w_reply := MsgTargetGroup t\<rparr>)"

definition sim_tg_edit :: "string \<Rightarrow> (target list \<Rightarrow> target list) \<Rightarrow> (sim_world, operation) io" where
  "sim_tg_edit i f = sim_answer (\<lambda>w.
     w\<lparr>w_tgs := st_update tg_Id i (\<lambda>t. t\<lparr>tg_Targets := f (tg_Targets t)\<rparr>) (w_tgs w),
       w_reply := MsgOther ''target group''\<rparr>)"

definition sim_tg_delete :: "string \<Rightarrow> (sim_world, operation) io" where
  "sim_tg_delete i = (\<lambda>w. if sim_tgs w i = None then sim_missing i w
     else sim_answer (\<lambda>w. w\<lparr>w_tgs := st_delete tg_Id i (w_tgs w), w_reply := MsgOther ''empty''\<rparr>) w)"

text \<open>Load balancers: a request that would give two listeners one name is refused.\<close>

definition sim_lb_list :: "sim_world \<Rightarrow> nlb list" where
  "sim_lb_list w = filter lb_wf (w_lbs w)"

definition sim_lbs :: "sim_world \<Rightarrow> string \<rightharpoonup> nlb" where
  "sim_lbs w = st_view lb_Id (sim_lb_list w)"

definition sim_listener :: "listener_spec \<Rightarrow> listener" where
  "sim_listener s =
     \<lparr>l_Name = ls_Name s,
      l_Address = (case ls_Address s of
         ListenerSpec_InternalAddressSpec a \<Rightarrow> if ia_Address a = [] then ''10.0.0.100'' else ia_Address a
       | ListenerSpec_ExternalAddressSpec a \<Rightarrow> if ea_Address a = [] then ''203.0.113.7'' else ea_Address a),
      l_Port = ls_Port s, l_Protocol = ls_Protocol s, l_TargetPort = ls_TargetPort s\<rparr>"

definition sim_lb_create :: "create_lb_request \<Rightarrow> (sim_world, operation) io" where
  "sim_lb_create req = (\<lambda>w.
     let c = \<lparr>lb_Id = st_fresh lb_Id (sim_lb_list w), lb_Name = cl_Name req, lb_Type = cl_Type req,
              lb_Listeners = map sim_listener (cl_ListenerSpecs req),
              lb_AttachedTargetGroups = cl_AttachedTargetGroups req\<rparr>
     in if lb_wf c then sim_answer (\<lambda>w. w\<lparr>w_lbs := c # sim_lb_list w, w_reply := MsgNetworkLoadBalancer c\<rparr>) w
        else (Err (RpcError (codes_Other 3) (cl_Name req)), w))"

definition sim_lb_edit :: "string \<Rightarrow> (nlb \<Rightarrow> nlb) \<Rightarrow> (sim_world, operation) io" where
  "sim_lb_edit i f = (\<lambda>w. case sim_lbs w i of
       None \<Rightarrow> sim_missing i w
     | Some c \<Rightarrow>
         if lb_wf (f c) then sim_answer (\<lambda>w. w\<lparr>w_lbs := f c # st_delete lb_Id i (sim_lb_list w),
           w_reply := MsgOther ''load balancer''\<rparr>) w
         else (Err (RpcError (codes_Other 3) i), w))"

definition sim_lb_delete :: "string \<Rightarrow> (sim_world, operation) io" where
  "sim_lb_delete i = (\<lambda>w. if sim_lbs w i = None then sim_missing i w
     else sim_answer (\<lambda>w. w\<lparr>w_lbs := st_delete lb_Id i (sim_lb_list w), w_reply := MsgOther ''empty''\<rparr>) w)"

text \<open>Two instances; every subnet but one is in one network.\<close>

definition sim_instance :: "string \<Rightarrow> string \<Rightarrow> string \<Rightarrow> cloud_instance" where
  "sim_instance n addr nat_addr =
     \<lparr>i_Id = ''id-'' @ n, i_FolderId = ''folder'', i_Name = n, i_ZoneId = ''ru-central1-a'',
      i_Status = Instance_STATUS_other 2,
      i_NetworkInterfaces =
        [\<lparr>ni_SubnetId = ''subnet-a'', ni_PrimaryV4Address =
            Some \<lparr>pa_Address = addr, pa_OneToOneNat = (if nat_addr = [] then None else Some nat_addr)\<rparr>\<rparr>]\<rparr>"

definition sim_instances :: "cloud_instance list" where
  "sim_instances = [sim_instance ''n1'' ''10.0.0.1'' ''198.51.100.1'', sim_instance ''n2'' ''10.0.0.2'' []]"

definition sim_net :: "string \<Rightarrow> string" where
  "sim_net s = (if s = ''subnet-b'' then ''net-b'' else ''net-a'')"

definition sim_protocol_name :: "listener_protocol \<Rightarrow> string" where
  "sim_protocol_name p = (case p of Listener_TCP \<Rightarrow> ''TCP'' | Listener_UDP \<Rightarrow> ''UDP''
     | _ \<Rightarrow> ''PROTOCOL_UNSPECIFIED'')"

definition sim_code :: "error \<Rightarrow> code" where
  "sim_code e = (case e of RpcError c _ \<Rightarrow> c | _ \<Rightarrow> codes_Unknown)"

definition sim_nlb :: "sim_world nlb_client" where
  "sim_nlb = \<lparr>
     LbList = (\<lambda>ctx q w. (Ok (sim_list lb_Name q (st_visible lb_Id (sim_lb_list w))), w)),
     LbCreate = (\<lambda>ctx. sim_lb_create),
     LbDelete = (\<lambda>ctx. sim_lb_delete),
     LbRemoveListener = (\<lambda>ctx i n. sim_lb_edit i (\<lambda>c. c\<lparr>lb_Listeners := filter (\<lambda>l. l_Name l \<noteq> n) (lb_Listeners c)\<rparr>)),
     LbAddListener = (\<lambda>ctx i s. sim_lb_edit i (\<lambda>c. c\<lparr>lb_Listeners := lb_Listeners c @ [sim_listener s]\<rparr>)),
     LbDetachTargetGroup = (\<lambda>ctx i t. sim_lb_edit i (\<lambda>c. c\<lparr>lb_AttachedTargetGroups :=
        filter (\<lambda>a. at_TargetGroupId a \<noteq> t) (lb_AttachedTargetGroups c)\<rparr>)),
     LbAttachTargetGroup = (\<lambda>ctx i t. sim_lb_edit i (\<lambda>c. c\<lparr>lb_AttachedTargetGroups := lb_AttachedTargetGroups c @ [t]\<rparr>))\<rparr>"

definition sim_tg :: "sim_world tg_client" where
  "sim_tg = \<lparr>
     TgList = (\<lambda>ctx q w. (Ok (sim_list tg_Name q (st_visible tg_Id (w_tgs w))), w)),
     TgCreate = (\<lambda>ctx. sim_tg_create),
     TgAddTargets = (\<lambda>ctx i ts. sim_tg_edit i (\<lambda>old. old @ ts)),
     TgRemoveTargets = (\<lambda>ctx i ts. sim_tg_edit i (filter (\<lambda>t. t \<notin> set ts))),
     TgDelete = (\<lambda>ctx. sim_tg_delete)\<rparr>"

definition sim_inst :: "sim_world instance_client" where
  "sim_inst = \<lparr>
     InstanceList = (\<lambda>ctx q w. (Ok (sim_list i_Name q sim_instances), w)),
     InstanceGet = (\<lambda>ctx i w. (case find (\<lambda>x. i_Id x = i) sim_instances of
        None \<Rightarrow> Err (RpcError codes_NotFound i) | Some x \<Rightarrow> Ok x, w))\<rparr>"

definition sim_subnet :: "sim_world subnet_client" where
  "sim_subnet = \<lparr>SubnetGet = (\<lambda>ctx s w. (Ok \<lparr>sn_NetworkId = sim_net s\<rparr>, w))\<rparr>"

definition sim_routes :: "sim_world route_table_client" where
  "sim_routes = \<lparr>
     RouteTableGet = (\<lambda>ctx i w. (Ok (w_table w), w)),
     RouteTableUpdate = (\<lambda>ctx req. sim_answer (\<lambda>w. w\<lparr>w_table := ur_StaticRoutes req, w_reply := MsgOther ''route table''\<rparr>))\<rparr>"

definition sim_sdk :: "sim_world ycsdk" where
  "sim_sdk = \<lparr>
     WrapOperation = (\<lambda>r. r),
     OpWait = (\<lambda>ctx op. return_io ()),
     OpResponse = (\<lambda>op w. (Ok (w_reply w), w)),
     sdk_NetworkLoadBalancer = sim_nlb, sdk_TargetGroup = sim_tg, sdk_Instance = sim_inst,
     sdk_Zone = ZoneClient [], sdk_Network = NetworkClient [], sdk_Subnet = sim_subnet,
     sdk_RouteTable = sim_routes\<rparr>"

definition sim_packages :: "sim_world packages" where
  "sim_packages = \<lparr>
     status_Code = sim_code,
     ServiceList = (\<lambda>l w. (Ok (w_services w), w)),
     RequestsOnlyLocalTraffic = (\<lambda>svc. s_ExternalTrafficPolicy svc = ''Local''),
     GetServiceHealthCheckPathPort = (\<lambda>svc. (''/healthz'', s_HealthCheckNodePort svc)),
     Listener_Protocol_name = sim_protocol_name,
     StringSet_List = sorted_list_of_set,
     range_order = (\<lambda>S w. sorted_list_of_set S),
     go_schedule = (\<lambda>tgs w. tgs)\<rparr>"

lemmas sim_api_def =
  sim_nlb_def sim_tg_def sim_inst_def sim_subnet_def sim_routes_def sim_packages_def

text \<open>What \<open>NewYandexCloudAPI\<close> makes of an SDK.\<close>

definition sim_ctx :: "sim_world ycsdk \<Rightarrow> sim_world CloudContext" where
  "sim_ctx sdk = \<lparr>RegionID = ''ru-central1'', FolderID = ''folder'', OperationWaiter = opWaiter sdk,
     packages = sim_packages\<rparr>"

definition sim_built :: "sim_world ycsdk \<Rightarrow> sim_world YandexCloudAPI" where
  "sim_built sdk = \<lparr>cloudCtx = sim_ctx sdk,
     VPCSvc = NewVPCService (sdk_Network sdk) (sdk_Subnet sdk) (sdk_RouteTable sdk) (sim_ctx sdk),
     ComputeSvc = NewComputeService (sdk_Instance sdk) (sdk_Zone sdk) (sim_ctx sdk),
     LbSvc = NewLoadBalancerService (sdk_NetworkLoadBalancer sdk) (sdk_TargetGroup sdk) (sim_ctx sdk),
     api_OperationWaiter = opWaiter sdk\<rparr>"

lemma sim_built: "NewYandexCloudAPI sim_packages (\<lambda>creds. Ok sdk) creds ''ru-central1'' ''folder'' = Ok (sim_built sdk)"
  by (simp add: NewYandexCloudAPI_def sim_built_def sim_ctx_def Let_def)

definition sim_y :: "sim_world YandexCloudAPI" where
  "sim_y = sim_built sim_sdk"

lemma sim_built_simps [simp]:
  "cloudCtx (sim_built sdk) = sim_ctx sdk" "cloudCtx (VPCSvc (sim_built sdk)) = sim_ctx sdk"
  "cloudCtx (ComputeSvc (sim_built sdk)) = sim_ctx sdk" "cloudCtx (LbSvc (sim_built sdk)) = sim_ctx sdk"
  "lbs_LbSvc (LbSvc (sim_built sdk)) = sdk_NetworkLoadBalancer sdk" "lbs_TgSvc (LbSvc (sim_built sdk)) = sdk_TargetGroup sdk"
  "InstanceSvc (ComputeSvc (sim_built sdk)) = sdk_Instance sdk" "SubnetSvc (VPCSvc (sim_built sdk)) = sdk_Subnet sdk"
  "RouteTableSvc (VPCSvc (sim_built sdk)) = sdk_RouteTable sdk" "api_OperationWaiter (sim_built sdk) = opWaiter sdk"
  "RegionID (sim_ctx sdk) = ''ru-central1''" "FolderID (sim_ctx sdk) = ''folder''"
  "OperationWaiter (sim_ctx sdk) = opWaiter sdk" "packages (sim_ctx sdk) = sim_packages"
  by (simp_all add: sim_built_def sim_ctx_def NewVPCService_def NewComputeService_def NewLoadBalancerService_def)

lemma sim_y_simps [simp]:
  "cloudCtx sim_y = sim_ctx sim_sdk" "cloudCtx (VPCSvc sim_y) = sim_ctx sim_sdk"
  "cloudCtx (ComputeSvc sim_y) = sim_ctx sim_sdk" "cloudCtx (LbSvc sim_y) = sim_ctx sim_sdk"
  "lbs_LbSvc (LbSvc sim_y) = sim_nlb" "lbs_TgSvc (LbSvc sim_y) = sim_tg"
  "InstanceSvc (ComputeSvc sim_y) = sim_inst" "SubnetSvc (VPCSvc sim_y) = sim_subnet"
  "RouteTableSvc (VPCSvc sim_y) = sim_routes" "api_OperationWaiter sim_y = opWaiter sim_sdk"
  by (simp_all add: sim_y_def) (simp_all add: sim_sdk_def)

definition sim_config :: CloudConfig where
  "sim_config =
     \<lparr>ClusterName = ''cluster'', lbListenerSubnetID = [], lbTgNetworkID = ''net-a'',
      cfg_FolderID = ''folder'', LocalRegion = ''ru-central1'', LocalZone = ''ru-central1-b'',
      RouteTableID = ''rt'', InternalNetworkIDsSet = {}, ExternalNetworkIDsSet = {},
      cfg_Credentials = Credentials ''key''\<rparr>"

definition sim_cloud :: "sim_world Cloud" where
  "sim_cloud = \<lparr>yandexService = sim_y, config = sim_config\<rparr>"

definition sim_empty :: sim_world where
  "sim_empty = \<lparr>w_tgs = [], w_lbs = [], w_table = [], w_services = [], w_reply = MsgOther []\<rparr>"

lemma sim_cloud_simps [simp]:
  "yandexService sim_cloud = sim_y" "config sim_cloud = sim_config"
  "ClusterName sim_config = ''cluster''" "RouteTableID sim_config = ''rt''"
  "lbTgNetworkID sim_config = ''net-a''" "lbListenerSubnetID sim_config = []"
  "LocalZone sim_config = ''ru-central1-b''"
  "InternalNetworkIDsSet sim_config = {}" "ExternalNetworkIDsSet sim_config = {}"
  by (simp_all add: sim_cloud_def sim_config_def)

section \<open>The laws hold\<close>

lemma sim_wait: "opWaiter sim_sdk ctx f w =
    (case f w of (Ok op, w1) \<Rightarrow> (Ok (w_reply w1), w1) | (Err e, w1) \<Rightarrow> (Err e, w1)
     | (Abort p, w1) \<Rightarrow> (Abort p, w1))"
  by (auto simp: opWaiter_def sim_sdk_def bind_io_def attempt_io_def split: prod.split outcome.split)

lemma sim_list_named:
  assumes "length (sim_list nameof (name_query y n) xs) < 2"
  shows "sim_list nameof (name_query y n) xs = filter (\<lambda>x. nameof x = n) xs"
proof -
  have "filter (\<lambda>x. lr_Filter (name_query y n) = [] \<or>
      lr_Filter (name_query y n) = name_filter (nameof x)) xs = filter (\<lambda>x. nameof x = n) xs"
    by (rule filter_cong) (auto simp: name_query_def name_filter_def)
  with assms show ?thesis by (simp add: sim_list_def name_query_def)
qed

lemma sim_list_single:
  assumes "named nameof (st_view idof xs) n = {x}"
  shows "sim_list nameof (name_query y n) (st_visible idof xs) = [x]"
proof -
  let ?fs = "filter (\<lambda>x. nameof x = n) (st_visible idof xs)"
  have "distinct ?fs" using st_visible_distinct [of idof xs] by (auto simp: distinct_map)
  moreover have "set ?fs = {x}" using assms by (simp only: st_named)
  ultimately have "?fs = [x]" by (cases ?fs; cases "tl ?fs") auto
  moreover have "filter (\<lambda>x. lr_Filter (name_query y n) = [] \<or>
      lr_Filter (name_query y n) = name_filter (nameof x)) (st_visible idof xs) = ?fs"
    by (rule filter_cong) (auto simp: name_query_def name_filter_def)
  ultimately show ?thesis by (simp add: sim_list_def name_query_def)
qed

lemma sim_get_tg:
  "named tg_Name (sim_tgs w) n = {t} \<Longrightarrow> GetTgByName (LbSvc sim_y) ctx n w = (Ok (Some t), w)"
  by (simp add: tg_lookup.find_Some_iff sim_api_def sim_tgs_def sim_list_single)

lemma sim_get_lb:
  "named lb_Name (sim_lbs w) n = {c} \<Longrightarrow> GetLbByName (LbSvc sim_y) ctx n w = (Ok (Some c), w)"
  by (simp add: lb_lookup.find_Some_iff sim_api_def sim_lbs_def sim_list_single)

lemma sim_answers:
  assumes "\<And>w. view w = st_view idof (objs w)"
  shows "answers_named c view nameof
    (\<lambda>w. (Ok (sim_list nameof (name_query y n) (st_visible idof (objs w))), w)) n"
  by (auto simp: answers_named_def sim_list_named assms st_named simp flip: st_named)

lemma updates_atI:
  assumes "\<And>w r w' c. m w = (Ok r, w') \<Longrightarrow> view w i = Some c \<Longrightarrow> view w' = (view w)(i \<mapsto> f c)"
    and "\<And>c. R c (f c)"
  shows "updates_at view m i R"
  unfolding updates_at_def using assms by blast

lemma sim_tg_edit_updates:
  assumes "\<And>c. R c (c\<lparr>tg_Targets := f (tg_Targets c)\<rparr>)"
  shows "updates_at sim_tgs (opWaiter sim_sdk ctx (sim_tg_edit i f)) i R"
  by (rule updates_atI [where f = "\<lambda>c. c\<lparr>tg_Targets := f (tg_Targets c)\<rparr>"])
    (auto simp: sim_wait sim_tg_edit_def sim_answer_def sim_tgs_def st_view_update_at intro: assms)

lemma sim_tg_laws: "tg_service_laws (LbSvc sim_y) sim_tgs"
  unfolding tg_service_laws_def
proof (intro conjI allI impI)
  fix w i t assume "sim_tgs w i = Some t"
  then show "tg_Id t = i" by (auto simp: sim_tgs_def dest: st_view_id)
next
  fix ctx n show "answers_named (status_Code (libs (LbSvc sim_y))) sim_tgs tg_Name (TgList (lbs_TgSvc (LbSvc sim_y)) ctx (name_query (LbSvc sim_y) n)) n"
    using sim_answers [where view = sim_tgs and idof = tg_Id and objs = w_tgs and nameof = tg_Name and y = "LbSvc sim_y" and n = n] by (simp add: sim_tgs_def sim_api_def)
next
  fix ctx req w m w' assume "OperationWaiter (cloudCtx (LbSvc sim_y)) ctx (TgCreate (lbs_TgSvc (LbSvc sim_y)) ctx req) w = (Ok m, w')"
  then show "\<exists>t. m = MsgTargetGroup t \<and> tg_Name t = ct_Name req \<and> tg_Targets t = ct_Targets req \<and>
      sim_tgs w (tg_Id t) = None \<and> sim_tgs w' = (sim_tgs w)(tg_Id t \<mapsto> t)"
    by (auto simp: sim_wait sim_api_def sim_tg_create_def sim_answer_def sim_tgs_def Let_def
        st_view_Cons st_fresh_view)
next
  fix ctx i ts show "updates_at sim_tgs (OperationWaiter (cloudCtx (LbSvc sim_y)) ctx (TgAddTargets (lbs_TgSvc (LbSvc sim_y)) ctx i ts)) i
      (\<lambda>c c'. tg_Id c' = tg_Id c \<and> tg_Name c' = tg_Name c \<and> set (tg_Targets c') = set (tg_Targets c) \<union> set ts)"
    by (simp add: sim_api_def) (rule sim_tg_edit_updates, auto)
next
  fix ctx i ts show "updates_at sim_tgs (OperationWaiter (cloudCtx (LbSvc sim_y)) ctx (TgRemoveTargets (lbs_TgSvc (LbSvc sim_y)) ctx i ts)) i
      (\<lambda>c c'. tg_Id c' = tg_Id c \<and> tg_Name c' = tg_Name c \<and> set (tg_Targets c') = set (tg_Targets c) - set ts)"
    by (simp add: sim_api_def) (rule sim_tg_edit_updates, auto)
next
  fix ctx i w m w' assume "OperationWaiter (cloudCtx (LbSvc sim_y)) ctx (TgDelete (lbs_TgSvc (LbSvc sim_y)) ctx i) w = (Ok m, w')"
  then show "sim_tgs w' = (sim_tgs w)(i := None)"
    by (auto simp: sim_wait sim_api_def sim_tg_delete_def sim_answer_def sim_missing_def sim_tgs_def
        st_view_delete split: if_splits)
qed (simp add: sim_api_def sim_code_def)

lemma sim_tg_cleanup: "tg_cleanup_laws (LbSvc sim_y) sim_tgs"
proof -
  have "set (sim_list tg_Name \<lparr>lr_FolderId = ''folder'', lr_PageSize = 1000, lr_Filter = []\<rparr>
      (st_visible tg_Id (w_tgs w))) = ran (sim_tgs w)" if "fits_page (sim_tgs w)" for w
    using that by (simp add: fits_page_def sim_list_def sim_tgs_def st_visible_set st_visible_length)
  then show ?thesis
    by (auto simp: tg_cleanup_laws_def sim_api_def sim_wait sim_tg_delete_def sim_missing_def sim_answer_def
        split: if_splits)
qed

lemma sim_fits_page: "length (w_tgs w) \<le> 1000 \<Longrightarrow> fits_page (sim_tgs w)"
proof -
  have "length (st_visible tg_Id xs) \<le> length xs" for xs
    by (induction xs) (auto intro: le_trans [OF length_filter_le])
  then show "length (w_tgs w) \<le> 1000 \<Longrightarrow> fits_page (sim_tgs w)"
    by (metis fits_page_def sim_tgs_def st_visible_set st_visible_length List.finite_set le_trans)
qed

lemma sim_lb_list_wf: "c \<in> set (sim_lb_list w) \<Longrightarrow> lb_wf c"
  by (simp add: sim_lb_list_def)

lemma sim_lbs_wf: "sim_lbs w i = Some c \<Longrightarrow> lb_wf c"
  by (auto simp: sim_lbs_def st_view_def find_Some_iff intro!: sim_lb_list_wf nth_mem)

lemma sim_lb_list_set [simp]:
  "lb_wf c \<Longrightarrow> sim_lb_list (w\<lparr>w_lbs := c # sim_lb_list v, w_reply := m\<rparr>) = c # sim_lb_list v"
  "lb_wf c \<Longrightarrow> sim_lb_list (w\<lparr>w_lbs := c # st_delete lb_Id i (sim_lb_list v), w_reply := m\<rparr>) =
     c # st_delete lb_Id i (sim_lb_list v)"
  "sim_lb_list (w\<lparr>w_lbs := st_delete lb_Id i (sim_lb_list v), w_reply := m\<rparr>) = st_delete lb_Id i (sim_lb_list v)"
  by (auto simp: sim_lb_list_def st_delete_def intro: filter_cong)

lemma sim_lb_edit_updates:
  assumes "\<And>c. lb_Id (f c) = lb_Id c" and "\<And>c. R c (f c)"
  shows "updates_at sim_lbs (opWaiter sim_sdk ctx (sim_lb_edit i f)) i R"
proof -
  have "lb_Id c = i" if "sim_lbs w i = Some c" for w c
    using that by (auto simp: sim_lbs_def dest: st_view_id)
  then show ?thesis
    using assms
    by (intro updates_atI [where f = f])
      (auto simp: sim_wait sim_lb_edit_def sim_answer_def sim_missing_def
        sim_lbs_def st_view_Cons st_view_delete split: option.splits if_splits)
qed

lemma sim_realises: "realises (sim_listener s) s"
  by (simp add: realises_def sim_listener_def l_key_def ls_key_def)

lemma sim_lb_laws: "lb_service_laws (LbSvc sim_y) sim_lbs"
  unfolding lb_service_laws_def
proof (intro conjI allI impI)
  fix w i c assume "sim_lbs w i = Some c"
  then show "lb_Id c = i" and "lb_wf c" by (auto simp: sim_lbs_def dest: st_view_id intro: sim_lbs_wf)
next
  fix ctx n show "answers_named (status_Code (libs (LbSvc sim_y))) sim_lbs lb_Name (LbList (lbs_LbSvc (LbSvc sim_y)) ctx (name_query (LbSvc sim_y) n)) n"
    using sim_answers [where view = sim_lbs and idof = lb_Id and objs = sim_lb_list and nameof = lb_Name and y = "LbSvc sim_y" and n = n] by (simp add: sim_lbs_def sim_api_def)
next
  fix ctx req w m w' assume "OperationWaiter (cloudCtx (LbSvc sim_y)) ctx (LbCreate (lbs_LbSvc (LbSvc sim_y)) ctx req) w = (Ok m, w')"
  then show "\<exists>c. m = MsgNetworkLoadBalancer c \<and> lb_Name c = cl_Name req \<and> lb_Type c = cl_Type req \<and>
      list_all2 realises (lb_Listeners c) (cl_ListenerSpecs req) \<and>
      lb_AttachedTargetGroups c = cl_AttachedTargetGroups req \<and>
      sim_lbs w (lb_Id c) = None \<and> sim_lbs w' = (sim_lbs w)(lb_Id c \<mapsto> c)"
    by (auto simp: sim_wait sim_api_def sim_lb_create_def sim_answer_def sim_lbs_def Let_def
        st_view_Cons st_fresh_view sim_realises list_all2_map1 list.rel_refl split: if_splits)
next
  fix ctx i w m w' assume "OperationWaiter (cloudCtx (LbSvc sim_y)) ctx (LbDelete (lbs_LbSvc (LbSvc sim_y)) ctx i) w = (Ok m, w')"
  then show "sim_lbs w' = (sim_lbs w)(i := None)"
    by (auto simp: sim_wait sim_api_def sim_lb_delete_def sim_answer_def sim_missing_def sim_lbs_def
        st_view_delete split: if_splits)
next
  fix ctx i n show "updates_at sim_lbs (OperationWaiter (cloudCtx (LbSvc sim_y)) ctx (LbRemoveListener (lbs_LbSvc (LbSvc sim_y)) ctx i n)) i (listener_removed n)"
    by (simp add: sim_api_def sim_lb_edit_updates listener_removed_def lb_same_head_def)
next
  fix ctx i s show "updates_at sim_lbs (OperationWaiter (cloudCtx (LbSvc sim_y)) ctx (LbAddListener (lbs_LbSvc (LbSvc sim_y)) ctx i s)) i (listener_added s)"
    by (simp add: sim_api_def)
      (rule sim_lb_edit_updates, auto simp: listener_added_def lb_same_head_def intro: sim_realises)
next
  fix ctx i t show "updates_at sim_lbs (OperationWaiter (cloudCtx (LbSvc sim_y)) ctx (LbDetachTargetGroup (lbs_LbSvc (LbSvc sim_y)) ctx i t)) i (tg_detached t)"
    by (simp add: sim_api_def sim_lb_edit_updates tg_detached_def lb_same_head_def)
next
  fix ctx i t show "updates_at sim_lbs (OperationWaiter (cloudCtx (LbSvc sim_y)) ctx (LbAttachTargetGroup (lbs_LbSvc (LbSvc sim_y)) ctx i t)) i (tg_attached t)"
    by (simp add: sim_api_def sim_lb_edit_updates tg_attached_def lb_same_head_def)
qed (simp add: sim_api_def sim_code_def)

lemma sim_lb_delete: "lb_delete_laws (LbSvc sim_y) sim_lbs"
  by (auto simp: lb_delete_laws_def sim_api_def sim_wait sim_lb_delete_def sim_missing_def sim_answer_def
      split: if_splits)

lemma sim_route_laws: "route_laws sim_cloud w_table"
  by (auto simp: route_laws_def sim_api_def sim_wait sim_answer_def routeTableUpdate_def)

lemma sim_lists_sets: "lists_sets (StringSet_List sim_packages)"
  by (simp add: lists_sets_def sim_api_def)

lemma sim_fair: "fair_orders sim_packages"
  by (simp add: fair_orders_def sim_api_def)

lemma sim_subnets_known: "subnets_known sim_cloud sim_net"
  by (simp add: subnets_known_def sim_api_def)

end
