(* ===== verification/Examples.thy ===== *)
theory Examples
  imports SimCloud
begin

text \<open>
  The concrete inputs at which the properties are applied: two nodes, services, groups
  and load balancers of the small cloud of \<open>SimCloud\<close>, and what the operations do on them.
\<close>

text \<open>Two nodes, a service with one port, and the states that runs start from.\<close>

definition ex_node :: "string \<Rightarrow> node" where
  "ex_node n = \<lparr>n_Name = n, n_ProviderID = ''yandex://id-'' @ n, n_Annotations = Map.empty\<rparr>"

definition ex_service :: service where
  "ex_service = \<lparr>s_UID = ''0a-1b'', s_Type = ServiceTypeLoadBalancer, s_Deleted = False,
     s_Annotations = Map.empty,
     s_Ports = [\<lparr>sp_Name = [], sp_Protocol = ProtocolTCP, sp_Port = 80, sp_NodePort = 30080\<rparr>],
     s_ExternalTrafficPolicy = ''Cluster'', s_HealthCheckNodePort = 0\<rparr>"

definition ex_target :: target where
  "ex_target = \<lparr>t_SubnetId = ''subnet-a'', t_Address = ''10.0.0.1''\<rparr>"

definition ex_spec :: listener_spec where
  "ex_spec = \<lparr>ls_Name = ''http'', ls_Port = 80, ls_Protocol = Listener_TCP, ls_TargetPort = 30080,
     ls_Address = ListenerSpec_ExternalAddressSpec \<lparr>ea_Address = [], ea_IpVersion = IP_VERSION_UNSPECIFIED\<rparr>\<rparr>"

definition ex_attached :: attached_target_group where
  "ex_attached = \<lparr>at_TargetGroupId = ''tg'', at_HealthChecks =
     [\<lparr>hc_Name = ''check'', hc_Interval = Some 2, hc_Timeout = Some 1, hc_UnhealthyThreshold = 2,
       hc_HealthyThreshold = 2, hc_HttpOptions = Some \<lparr>ho_Port = 10256, ho_Path = ''/healthz''\<rparr>\<rparr>]\<rparr>"

lemma ex_specs_wf: "specs_wf [ex_spec]" "attached_wf [ex_attached]"
  by (simp_all add: specs_wf_def attached_wf_def checkable_def ex_attached_def)

lemma ex_create_lb: "\<exists>w'. CreateOrUpdateLB (LbSvc sim_y) CtxLive ''lb'' [ex_spec] [ex_attached] sim_empty = (Ok ''203.0.113.7'', w')"
  by (simp add: CreateOrUpdateLB_def Let_def GetLbByName_def bind_io_def attempt_io_def sim_api_def
      sim_empty_def sim_list_def sim_lb_list_def createLB_def sim_wait
      sim_lb_create_def sim_answer_def lb_wf_def firstAddress_def sim_listener_def ex_spec_def)

text \<open>A group that has one target too few and one too many.\<close>

definition ex_old_target :: target where
  "ex_old_target = \<lparr>t_SubnetId = ''subnet-b'', t_Address = ''10.0.0.9''\<rparr>"

definition ex_group :: "string \<Rightarrow> target list \<Rightarrow> target_group" where
  "ex_group n ts = \<lparr>tg_Id = ''id'' @ n, tg_Name = n, tg_Targets = ts\<rparr>"

definition ex_tg_world :: sim_world where
  "ex_tg_world = sim_empty\<lparr>w_tgs := [ex_group ''g'' [ex_old_target], ex_group ''h'' []]\<rparr>"

lemma ex_update_tg:
  "\<exists>w'. CreateOrUpdateTG (LbSvc sim_y) CtxLive ''g'' [ex_target] ex_tg_world = (Ok ''idg'', w')"
  by (simp add: CreateOrUpdateTG_def GetTgByName_def bind_io_def attempt_io_def sim_api_def
      ex_tg_world_def ex_group_def sim_empty_def sim_list_def st_view_def name_query_def
      name_filter_def diffTargetGroupTargets_def map_by_def targetUID_def ex_target_def ex_old_target_def
      send_if_any_def sim_wait sim_tg_edit_def sim_answer_def st_update_def)

lemma ex_tg_world_colon_free: "\<forall>t\<in>ran (sim_tgs ex_tg_world). colon_free (tg_Targets t)"
  by (auto simp: sim_tgs_def ex_tg_world_def sim_empty_def ex_group_def st_view_def ran_def
      colon_free_def ex_old_target_def split: if_splits)

lemma ex_target_colon_free: "colon_free [ex_target]"
  by (simp add: colon_free_def ex_target_def)

lemma ex_update_tg_list:
  "CreateOrUpdateTG (LbSvc sim_y) CtxLive ''g'' [ex_target] ex_tg_world = (Ok ''idg'', w') \<Longrightarrow>
     \<exists>found. GetTgByName (LbSvc sim_y) CtxLive ''g'' w' = (Ok found, w')"
  by (auto simp: CreateOrUpdateTG_def GetTgByName_def bind_io_def attempt_io_def sim_api_def
      ex_tg_world_def ex_group_def sim_empty_def sim_list_def st_view_def name_query_def
      name_filter_def diffTargetGroupTargets_def map_by_def targetUID_def ex_target_def ex_old_target_def
      send_if_any_def sim_wait sim_tg_edit_def sim_answer_def st_update_def)

text \<open>An initialised provider, after a synchronisation of nodes with the given names.\<close>

definition ex_after :: "string set \<Rightarrow> sim_world \<Rightarrow> sim_world cloud_state" where
  "ex_after visited w =
     \<lparr>world = w, nodeTargetGroupSyncer = Some \<lparr>lastVisitedNodes = visited, serviceLister = Lister ''services''\<rparr>,
      nodeLister = Some (Lister ''nodes''), routeAPILock = False\<rparr>"

definition ex_state :: "sim_world \<Rightarrow> sim_world cloud_state" where
  "ex_state w = ex_after {} w"

lemma ex_after_simps [simp]:
  "world (ex_after S w) = w" "\<not> routeAPILock (ex_after S w)" "visited_nodes (ex_after S w) = Some S"
  "nodeTargetGroupSyncer (ex_after S w) =
     Some \<lparr>lastVisitedNodes = S, serviceLister = Lister ''services''\<rparr>"
  "(ex_after S v)\<lparr>world := w\<rparr> = ex_after S w"
  "(ex_after S w)\<lparr>nodeTargetGroupSyncer := Some \<lparr>lastVisitedNodes = T, serviceLister = Lister ''services''\<rparr>\<rparr> =
     ex_after T w"
  by (simp_all add: ex_after_def visited_nodes_def)

lemma ex_state_simps [simp]:
  "world (ex_state w) = w" "\<not> routeAPILock (ex_state w)" "visited_nodes (ex_state w) = Some {}"
  "(ex_state v)\<lparr>world := w\<rparr> = ex_state w"
  by (simp_all add: ex_state_def)

definition ex_inst :: "string \<Rightarrow> cloud_instance" where
  "ex_inst n = (if n = ''n1'' then sim_instances ! 0 else sim_instances ! 1)"

definition ex_nodes :: "node list" where
  "ex_nodes = [ex_node ''n1'', ex_node ''n2'']"

lemma ex_nodes_known: "nodes_known sim_cloud ex_inst ex_nodes"
  by (simp add: nodes_known_def ex_nodes_def ex_node_def ex_inst_def sim_instances_def sim_instance_def
      has_primary_def sim_api_def sim_list_def name_query_def name_filter_def)

lemma ex_yandex: "strings_Contains (''yandex://id-'' @ n) ''yandex''"
  by (simp add: strings_HasPrefix_def)

lemma ex_plan:
  "syncPlan ''cluster'' sim_net ex_inst ex_nodes =
     [(''clusternet-a'', ex_target), (''clusternet-a'', \<lparr>t_SubnetId = ''subnet-a'', t_Address = ''10.0.0.2''\<rparr>)]"
  using ex_yandex [of "''n1''"] ex_yandex [of "''n2''"]
  by (simp add: syncPlan_def planned_def found_instances_def ex_nodes_def ex_node_def ex_inst_def sim_instances_def
      sim_instance_def iface_pair_def tgKey_def sim_net_def ex_target_def del: strings_Contains.simps)

lemma ex_sync_facts:
  "\<forall>nd\<in>set ex_nodes. n_ProviderID nd \<noteq> []" "ex_nodes \<noteq> []" "n_Name ` set ex_nodes = {''n1'', ''n2''}"
  by (auto simp: ex_nodes_def ex_node_def)

definition ex_synced :: sim_world where
  "ex_synced = ex_tg_world
     \<lparr>w_tgs := \<lparr>tg_Id = ''iidgidh'', tg_Name = ''clusternet-a'', tg_Targets =
        [ex_target, \<lparr>t_SubnetId = ''subnet-a'', t_Address = ''10.0.0.2''\<rparr>]\<rparr> # w_tgs ex_tg_world,
      w_reply := MsgTargetGroup \<lparr>tg_Id = ''iidgidh'', tg_Name = ''clusternet-a'', tg_Targets =
        [ex_target, \<lparr>t_SubnetId = ''subnet-a'', t_Address = ''10.0.0.2''\<rparr>]\<rparr>\<rparr>"

lemma ex_sync_state:
  "SyncTGs sim_cloud CtxLive ex_nodes (ex_state ex_tg_world) =
     (Ok (), ex_after {''n1'', ''n2''} ex_synced)"
proof -
  have new: "visited_nodes (ex_state ex_tg_world) = Some {}" "{} \<noteq> n_Name ` set ex_nodes"
    using ex_sync_facts(3) by (auto simp: ex_state_def)
  have "SyncTGs sim_cloud CtxLive ex_nodes (ex_state ex_tg_world) =
      synchronizeNodesWithTargetGroups sim_cloud CtxLive ex_nodes (ex_state ex_tg_world)"
    using ex_sync_facts(2) by (simp add: SyncTGs_run ex_state_def sim_api_def)
  also have "\<dots> = bind_io (on_world (putMapping sim_cloud CtxLive (grouped (syncPlan ''cluster'' sim_net ex_inst ex_nodes))))
       (\<lambda>_. setVisitedNodes (n_Name ` set ex_nodes)) (ex_state ex_tg_world)"
    using synchronize_run [OF ex_nodes_known sim_subnets_known ex_sync_facts(1,2) new] ex_plan by simp
  finally show ?thesis
    by (simp add: ex_plan ex_sync_facts(3) putMapping_def grouped_def sim_api_def bind_io_def on_world_def setVisitedNodes_def
        ex_state_def ex_synced_def CreateOrUpdateTG_def GetTgByName_def attempt_io_def ex_tg_world_def ex_group_def
        sim_empty_def sim_list_def st_view_def name_query_def name_filter_def sim_wait st_fresh_def
        sim_tg_create_def sim_answer_def Let_def del: dom_eq_empty_conv)
qed

lemma ex_sync_run:
  "\<exists>s'. SyncTGs sim_cloud CtxLive ex_nodes (ex_state ex_tg_world) = (Ok (), s')"
  using ex_sync_state by blast

lemma ex_sync_fails:
  "SyncTGs sim_cloud CtxLive [ex_node []\<lparr>n_ProviderID := []\<rparr>] (ex_state sim_empty) =
     (Err (ErrProviderIDEmpty []), ex_state sim_empty)"
  by (simp add: SyncTGs_run ex_state_def sim_api_def synchronizeNodesWithTargetGroups_def
      fromNodeToInterfaceSlice_def theSyncer_def bind_io_def on_world_def ex_node_def Let_def)

definition ex_two_clusters :: sim_world where
  "ex_two_clusters = sim_empty\<lparr>w_tgs := [ex_group ''clusternet-a'' [], ex_group ''my-cluster-2net'' [],
     ex_group ''othernet'' []]\<rparr>"

lemma ex_cleanup_run:
  "cleanUpTargetGroups sim_cloud CtxLive (ex_state ex_two_clusters) =
     (Ok (), ex_state (sim_empty\<lparr>w_tgs := [ex_group ''othernet'' []], w_reply := MsgOther ''empty''\<rparr>))"
  by (simp add: cleanUpTargetGroups_def GetTGsByClusterName_def bind_io_def on_world_def sim_api_def
      ex_state_def ex_two_clusters_def ex_group_def sim_empty_def sim_list_def st_view_def
      strings_HasPrefix_def attempt_io_def RemoveTGByID_def skipNotFound_def sim_wait sim_tg_delete_def
      sim_tgs_def sim_answer_def st_delete_def setVisitedNodes_def)

text \<open>The run of the two nodes and the one service in the small cloud.\<close>

definition ex_params :: loadBalancerParameters where
  "ex_params = zero_parameters\<lparr>p_targetGroupNetworkID := ''net-a''\<rparr>"

lemma ex_params_of: "getLoadBalancerParameters sim_cloud ex_service = Ok ex_params"
  by (simp add: getLoadBalancerParameters_def ex_params_def ex_service_def intAnnotation_def Let_def)

lemma ex_ensure_lb:
  "\<exists>w'. ensureLB sim_cloud CtxLive ex_service ex_nodes ex_synced = (Ok \<lparr>st_Ingress = [''203.0.113.7'']\<rparr>, w')"
proof -
  have "length (s_Ports ex_service) \<le> 10" by (simp add: ex_service_def)
  note run = ensureLB_run [OF this ex_sync_facts(2) ex_params_of]
  have get: "GetTgByName (LbSvc (yandexService sim_cloud)) CtxLive (tgNameOf sim_cloud ex_params) ex_synced =
      (Ok (Some (hd (w_tgs ex_synced))), ex_synced)"
    by (simp add: GetTgByName_def bind_io_def sim_api_def ex_synced_def ex_tg_world_def ex_group_def
        tgNameOf_def ex_params_def zero_parameters_def sim_list_def st_view_def
        name_query_def name_filter_def sim_empty_def)
  show ?thesis
    unfolding run
    by (subst bind_io_run, subst get)
      (simp add: CreateOrUpdateLB_def Let_def GetLbByName_def bind_io_def attempt_io_def sim_api_def ex_synced_def
        ex_tg_world_def sim_empty_def sim_list_def sim_lb_list_def createLB_def sim_wait
        sim_lb_create_def sim_answer_def lb_wf_def firstAddress_def sim_listener_def listenerSpecsOf_def
        listenerSpecOf_def listenerAddress_def ex_service_def ex_params_def zero_parameters_def wanted_target_group_def)
qed

lemma sim_frames:
  "sim_tgs (snd (ServiceList (libs sim_y) l w)) = sim_tgs w"
  "sim_lbs (snd (TgList (lbs_TgSvc (LbSvc sim_y)) ctx q w)) = sim_lbs w"
  "lb_requests_keep (LbSvc sim_y) (\<lambda>w. sim_tgs w = v)"
  by (simp_all add: sim_api_def lb_requests_keep_def keeps_def sim_wait sim_lb_create_def sim_lb_edit_def
      sim_lb_delete_def sim_answer_def sim_missing_def sim_tgs_def Let_def split: option.split)

lemma ex_ports: "valid_ports (s_Ports ex_service)"
  by (simp add: valid_ports_def ex_service_def)

lemma ex_ensure_lb_lists:
  "\<exists>w' t c. ensureLB sim_cloud CtxLive ex_service ex_nodes ex_synced = (Ok \<lparr>st_Ingress = [''203.0.113.7'']\<rparr>, w') \<and>
     GetTgByName (LbSvc sim_y) CtxLive (tgNameOf sim_cloud ex_params) w' = (Ok t, w') \<and>
     GetLbByName (LbSvc sim_y) CtxLive (defaultLoadBalancerName ex_service) w' = (Ok c, w')"
proof -
  obtain w' where run: "ensureLB sim_cloud CtxLive ex_service ex_nodes ex_synced = (Ok \<lparr>st_Ingress = [''203.0.113.7'']\<rparr>, w')"
    using ex_ensure_lb by blast
  have laws: "lb_service_laws (LbSvc (yandexService sim_cloud)) sim_lbs" "tg_service_laws (LbSvc (yandexService sim_cloud)) sim_tgs"
    by (simp_all add: sim_lb_laws sim_tg_laws)
  have lbf: "keeps (\<lambda>w. sim_lbs w = v) (TgList (lbs_TgSvc (LbSvc (yandexService sim_cloud))) ctx (name_query (LbSvc (yandexService sim_cloud)) n))"
    for v ctx n using sim_frames(2) by (simp add: keeps_def)
  from ensureLB_puts [OF laws lbf refl ex_ports run] ex_params_of obtain t addr where
    t: "named tg_Name (sim_tgs ex_synced) (tgNameOf sim_cloud ex_params) = {t}"
    and "lb_put sim_lbs (defaultLoadBalancerName ex_service) (listenerSpecsOf ex_params ex_service)
      (wanted_target_group sim_cloud ex_params ex_service (tg_Id t)) ex_synced addr w'" by auto
  then obtain c where c: "named lb_Name (sim_lbs w') (defaultLoadBalancerName ex_service) = {c}"
    by (auto simp: lb_put_def)
  have "keeps (\<lambda>v. sim_tgs v = sim_tgs ex_synced) (ensureLB sim_cloud CtxLive ex_service ex_nodes)"
    by (intro keeps_ensureLB tg_law_list_keeps [OF laws(2)]) (simp add: sim_frames(3))
  with run have "sim_tgs w' = sim_tgs ex_synced" by (auto dest: keepsD)
  with t have "GetTgByName (LbSvc sim_y) CtxLive (tgNameOf sim_cloud ex_params) w' = (Ok (Some t), w')"
    by (simp add: sim_get_tg)
  with run sim_get_lb [OF c] show ?thesis by blast
qed

lemma ex_delete_run:
  "\<exists>s'. EnsureLoadBalancerDeleted sim_cloud CtxLive ex_service (ex_state ex_two_clusters) = (Ok (), s')"
proof -
  have "GetLbByName (LbSvc sim_y) CtxLive n ex_two_clusters = (Ok None, ex_two_clusters)" for n
    by (simp add: lb_lookup.find_None_iff sim_api_def sim_lb_list_def sim_list_def ex_two_clusters_def sim_empty_def)
  then have "RemoveLBByName (LbSvc sim_y) CtxLive n ex_two_clusters = (Ok (), ex_two_clusters)" for n
    by (simp add: RemoveLBByName_def bind_io_OkI)
  moreover have "SyncTGs sim_cloud CtxLive [] (ex_state ex_two_clusters) =
      cleanUpTargetGroups sim_cloud CtxLive (ex_state ex_two_clusters)"
    by (simp add: SyncTGs_run ex_state_def sim_api_def ex_two_clusters_def sim_empty_def)
  ultimately show ?thesis
    using ex_cleanup_run
    by (simp add: EnsureLoadBalancerDeleted_def bind_io_def on_world_def)
qed

lemma sim_lister: "lister_laws sim_y w_services sim_tgs sim_lbs"
  by (auto simp: lister_laws_def lb_requests_keep_def keeps_def sim_api_def sim_wait sim_lb_create_def
      sim_lb_edit_def sim_lb_delete_def sim_tg_delete_def sim_answer_def sim_missing_def sim_tgs_def
      sim_lbs_def sim_lb_list_def Let_def split: option.split)

text \<open>A service and a node with a prefix that is one byte too long.\<close>

definition ex_prefixed_service :: service where
  "ex_prefixed_service = ex_service
     \<lparr>s_Annotations := [customTargetGroupNamePrefixAnnotation \<mapsto> replicate 37 (CHR ''p'')]\<rparr>"

definition ex_prefixed_node :: node where
  "ex_prefixed_node = (ex_node ''n1'')
     \<lparr>n_Annotations := [customTargetGroupNamePrefixAnnotation \<mapsto> replicate 37 (CHR ''p'')]\<rparr>"

lemma ex_prefixed_params:
  "getLoadBalancerParameters sim_cloud ex_prefixed_service =
     Ok (ex_params\<lparr>p_targetGroupNamePrefix := replicate 37 (CHR ''p'')\<rparr>)"
  by (simp add: getLoadBalancerParameters_run annotation_int_def parameters_of_def annotation_or_def
      ex_prefixed_service_def ex_params_def zero_parameters_def ex_service_def
      customTargetGroupNamePrefixAnnotation_def targetGroupNetworkIdAnnotation_def listenerSubnetIdAnnotation_def
      listenerAddressIPv4_def healthcheckIntervalSeconds_def healthcheckTimeoutSeconds_def
      healthcheckHealthyThreshold_def healthcheckUnhealthyThreshold_def)

lemma sim_returns: "lb_clients_return (LbSvc sim_y)"
  by (auto simp: lb_clients_return_def safe_def sim_api_def sim_wait sim_lb_create_def sim_lb_edit_def
      sim_lb_delete_def sim_answer_def sim_missing_def Let_def split: option.splits if_splits)

end
