(* ===== verification/NodeProperties.thy ===== *)
theory NodeProperties
  imports Examples
begin

text \<open>
  What the node-facing interfaces answer: instances and zones, the routes of the nodes and
  the configuration that the provider starts from, each with a run in the small cloud.
\<close>

section \<open>Instances and zones\<close>

text \<open>
  Whether the instance of an instance id exists: the one lookup that \<open>codes.NotFound\<close>
  makes answer "no"; any other error is passed on, so the node is not taken for deleted.
\<close>

theorem exists_by_instance_id:
  assumes "ParseProviderID pid = Ok (i, True)"
  shows "InstanceExistsByProviderID yc ctx pid w =
    (case InstanceGet (InstanceSvc (ComputeSvc (yandexService yc))) ctx i w of
       (Ok _, w') \<Rightarrow> (Ok True, w')
     | (Abort p, w') \<Rightarrow> (Abort p, w')
     | (Err e, w') \<Rightarrow>
         if status_Code (libs (yandexService yc)) e = codes_NotFound \<or> e = InstanceNotFound then (Ok False, w')
         else (Err e, w'))"
  using assms
  by (auto simp: InstanceExistsByProviderID_def getInstanceByProviderID_def bind_io_def attempt_io_def
      split: prod.split outcome.split)

lemma ex_node_id: "ParseProviderID ''yandex://gone'' = Ok (''gone'', True)"
proof -
  have "\<not> deprecated_body ''gone''"
  proof
    assume "deprecated_body ''gone''"
    then have "CHR ''/'' \<in> set ''gone''" unfolding deprecated_body_def by (metis in_set_conv_decomp append_Cons)
    then show False by simp
  qed
  then show ?thesis by (simp add: parse_id_iff providerName_def)
qed

theorem exists_by_instance_id_witness:
  "InstanceExistsByProviderID sim_cloud CtxLive ''yandex://gone'' sim_empty = (Ok False, sim_empty)"
  using exists_by_instance_id [OF ex_node_id, of sim_cloud CtxLive sim_empty]
  by (simp add: sim_api_def sim_instances_def sim_instance_def sim_code_def)

text \<open>C35: 
  Whether the instance of a deprecated id (with the instance's name) exists: when the
  listing finds no instance the answer is an error and never "no", because the lookup by
  name makes an error of an empty listing before the branch that would answer "not found".
\<close>

theorem exists_by_deprecated_id:
  assumes "ParseProviderID pid = Ok (n, False)"
    and "InstanceList (InstanceSvc (ComputeSvc (yandexService yc))) ctx (name_query (ComputeSvc (yandexService yc)) n) w = (Ok xs, w')"
  shows "InstanceExistsByProviderID yc ctx pid w =
    (if length xs = 1 then Ok True else if xs = [] then Err (ErrNoInstances n) else Err (ErrManyInstances n), w')"
proof -
  from assms(2) have "FindInstanceByName (ComputeSvc (yandexService yc)) ctx n w =
      (if length xs = 1 then Ok (Some (xs ! 0)) else if xs = [] then Err (ErrNoInstances n) else Err (ErrManyInstances n), w')"
    by (cases xs; cases "tl xs") (auto simp: FindInstanceByName_def bind_io_def)
  with assms(1) show ?thesis
    by (auto simp: InstanceExistsByProviderID_def getInstanceByProviderID_def bind_io_def attempt_io_def)
qed

lemma ex_deprecated: "ParseProviderID ''yandex://f/z/gone'' = Ok (''gone'', False)"
proof -
  have "ParseProviderID (deprecated_id ''f'' ''z'' ''gone'') = Ok (''gone'', False)"
    by (rule parse_deprecated) (simp_all add: id_part_def)
  then show ?thesis by (simp add: deprecated_id_def providerName_def)
qed

theorem exists_by_deprecated_id_witness:
  "InstanceExistsByProviderID sim_cloud CtxLive ''yandex://f/z/gone'' sim_empty =
     (Err (ErrNoInstances ''gone''), sim_empty)"
  using exists_by_deprecated_id [OF ex_deprecated, of sim_cloud CtxLive sim_empty "[]" sim_empty]
  by (simp add: sim_api_def sim_list_def sim_instances_def sim_instance_def name_query_def name_filter_def)

text \<open>C36: 
  The addresses of a node: with internal networks configured, the private address of every
  interface in one of them, otherwise the first interface's private address and its public
  one if it has one; then, with external networks configured, the private address of every
  interface in one of them as external, otherwise the first public address of all
  interfaces. Without configured networks a public address of the first interface is thus
  listed twice.
\<close>

theorem NodeAddresses_spec:
  assumes "subnets_known yc net" and "has_primary inst" and "i_NetworkInterfaces inst = f # fs"
    and "InstanceList (InstanceSvc (ComputeSvc (yandexService yc))) ctx (name_query (ComputeSvc (yandexService yc)) n) w = (Ok [inst], w')"
  shows "NodeAddresses yc ctx n w =
    (Ok ((if InternalNetworkIDsSet (config yc) \<noteq> {}
          then map (address_of NodeInternalIP)
            (filter (\<lambda>f. net (ni_SubnetId f) \<in> InternalNetworkIDsSet (config yc)) (f # fs))
          else address_of NodeInternalIP f # external (nat_of f)) @
         (if ExternalNetworkIDsSet (config yc) \<noteq> {}
          then map (address_of NodeExternalIP)
            (filter (\<lambda>f. net (ni_SubnetId f) \<in> ExternalNetworkIDsSet (config yc)) (f # fs))
          else external (first_nat (f # fs)))), w')"
proof -
  have "FindInstanceByName (ComputeSvc (yandexService yc)) ctx n w = (Ok (Some inst), w')"
    by (rule instance_lookup.find_one) (rule assms(4))
  then have "getInstanceByNodeName yc ctx n w = (Ok inst, w')" by (simp add: getInstanceByNodeName_run)
  then show ?thesis
    using extractNodeAddresses_run [OF assms(1-3), of ctx w'] by (simp add: addresses_by_name.op_found)
qed

lemma NodeAddresses_sim:
  "\<exists>as. NodeAddresses sim_cloud CtxLive ''n1'' sim_empty = (Ok as, sim_empty) \<and> firstInternalIP as = ''10.0.0.1''"
  by (simp add: NodeAddresses_def getInstanceByNodeName_run FindInstanceByName_def bind_io_def sim_api_def sim_list_def
      sim_instances_def sim_instance_def name_query_def name_filter_def extractNodeAddresses_def firstInterfaceAddresses_def)

theorem NodeAddresses_spec_witness:
  "NodeAddresses sim_cloud CtxLive ''n1'' sim_empty =
     (Ok [\<lparr>na_Type = NodeInternalIP, na_Address = ''10.0.0.1''\<rparr>,
          \<lparr>na_Type = NodeExternalIP, na_Address = ''198.51.100.1''\<rparr>,
          \<lparr>na_Type = NodeExternalIP, na_Address = ''198.51.100.1''\<rparr>], sim_empty)"
proof -
  let ?i = "sim_instance ''n1'' ''10.0.0.1'' ''198.51.100.1''"
  have "has_primary ?i" "i_NetworkInterfaces ?i = hd (i_NetworkInterfaces ?i) # []"
    and "InstanceList (InstanceSvc (ComputeSvc (yandexService sim_cloud))) CtxLive (name_query (ComputeSvc (yandexService sim_cloud)) ''n1'') sim_empty
      = (Ok [?i], sim_empty)"
    by (simp_all add: has_primary_def sim_instance_def sim_api_def sim_list_def sim_instances_def name_query_def
        name_filter_def)
  from NodeAddresses_spec [OF sim_subnets_known this] show ?thesis
    by (simp add: sim_instance_def address_of_def nat_of_def external_def first_nat_def)
qed

text \<open>C37: 
  An interface without a primary address, no networks configured: the first interface is
  answered with an error, a later one (when no public address comes before it) is
  dereferenced and the call panics.
\<close>

theorem no_primary_address:
  assumes "InternalNetworkIDsSet (config yc) = {}" "ExternalNetworkIDsSet (config yc) = {}"
    and "i_NetworkInterfaces inst = pre @ g # post" "ni_PrimaryV4Address g = None"
    and "\<forall>f\<in>set pre. \<exists>pa. ni_PrimaryV4Address f = Some pa \<and> pa_OneToOneNat pa = None"
  shows "extractNodeAddresses yc ctx inst w =
    ((if pre = [] then Err (ErrNoPrimaryIPv4 (i_FolderId inst) (i_Name inst)) else Abort NilDereference), w)"
proof -
  have walk: "firstNatAddress (fs @ g # post) acc = Abort NilDereference"
    if "\<forall>f\<in>set fs. \<exists>pa. ni_PrimaryV4Address f = Some pa \<and> pa_OneToOneNat pa = None" for fs acc
    using that assms(4) by (induction fs) auto
  show ?thesis
  proof (cases pre)
    case Nil
    with assms show ?thesis by (simp add: extractNodeAddresses_def firstInterfaceAddresses_def bind_io_def)
  next
    case (Cons f fs)
    with assms(5) obtain pa where pa: "ni_PrimaryV4Address f = Some pa" "pa_OneToOneNat pa = None" by auto
    from Cons walk [OF assms(5)] have "firstNatAddress (f # fs @ g # post) acc = Abort NilDereference" for acc by simp
    with assms(1-3) Cons pa show ?thesis
      by (simp add: extractNodeAddresses_def firstInterfaceAddresses_def bind_io_def del: firstNatAddress.simps)
  qed
qed

definition ex_bare_instance :: cloud_instance where
  "ex_bare_instance = (sim_instance ''n3'' ''10.0.0.3'' [])\<lparr>i_NetworkInterfaces :=
     i_NetworkInterfaces (sim_instance ''n3'' ''10.0.0.3'' []) @ [\<lparr>ni_SubnetId = ''subnet-b'', ni_PrimaryV4Address = None\<rparr>]\<rparr>"

theorem no_primary_address_witness:
  "extractNodeAddresses sim_cloud CtxLive ex_bare_instance sim_empty = (Abort NilDereference, sim_empty)"
  using no_primary_address [of sim_cloud ex_bare_instance "i_NetworkInterfaces (sim_instance ''n3'' ''10.0.0.3'' [])"
      "\<lparr>ni_SubnetId = ''subnet-b'', ni_PrimaryV4Address = None\<rparr>" "[]" CtxLive sim_empty]
  by (simp add: ex_bare_instance_def sim_instance_def)

text \<open>
  The zone of a node, asked by provider id or by name, is the zone of its instance with
  the region before the last dash of it; nothing but the lookup touches the state.
\<close>

theorem zone_of_node:
  "(GetZoneByProviderID yc ctx pid w = (Ok z, w') \<longleftrightarrow>
      (\<exists>inst ix. getInstanceByProviderID yc ctx pid w = (Ok inst, w') \<and> z_FailureDomain z = i_ZoneId inst \<and>
         i_ZoneId inst = z_Region z @ ''-'' @ ix \<and> CHR ''-'' \<notin> set ix)) \<and>
   (GetZoneByNodeName yc ctx n w = (Ok z, w') \<longleftrightarrow>
      (\<exists>inst ix. getInstanceByNodeName yc ctx n w = (Ok inst, w') \<and> z_FailureDomain z = i_ZoneId inst \<and>
         i_ZoneId inst = z_Region z @ ''-'' @ ix \<and> CHR ''-'' \<notin> set ix))"
  unfolding zone_by_id.op_Ok_iff zone_by_name.op_Ok_iff by (auto simp: getZone_Ok_iff)

section \<open>Routes\<close>

text \<open>C23: 
  What is created is listed: after a successful \<open>CreateRoute\<close> a successful \<open>ListRoutes\<close>
  answers exactly one route for the target node (up to copies), under the node's name and
  with the destination asked for, whatever the table held before.
\<close>

theorem created_route_is_listed:
  assumes laws: "route_laws yc table"
    and create: "CreateRoute yc ctx route s = (Ok (), s1)"
    and list: "ListRoutes yc ctx' s1 = (Ok ks, s2)"
  shows "{k \<in> set ks. r_TargetNode k = r_TargetNode route} =
    {\<lparr>r_Name = r_TargetNode route, r_TargetNode = r_TargetNode route, r_DestinationCIDR = r_DestinationCIDR route\<rparr>}"
proof -
  have free: "\<not> routeAPILock s" using create create_route.refused [of s yc ctx route] by auto
  from CreateRoute_writes [OF laws free create] obtain h where
    tab: "table (world s1) = filterStaticRoutes (table (world s))
      [put_term (r_TargetNode route) (r_DestinationCIDR route) h]"
    by (auto simp: writes_or_fails_def)
  show ?thesis using cpiRoutes_put ListRoutes_reads [OF laws list] unfolding tab by blast
qed

definition ex_route :: kube_route where
  "ex_route = \<lparr>r_Name = ''hint'', r_TargetNode = ''n1'', r_DestinationCIDR = ''10.1.0.0/24''\<rparr>"

definition ex_routed :: "sim_world cloud_state" where
  "ex_routed = ex_state sim_empty\<lparr>world := sim_empty\<lparr>
     w_table := filterStaticRoutes [] [put_term ''n1'' ''10.1.0.0/24'' ''10.0.0.1''], w_reply := MsgOther ''route table''\<rparr>\<rparr>"

lemma ex_create_route: "CreateRoute sim_cloud CtxLive ex_route (ex_state sim_empty) = (Ok (), ex_routed)"
proof -
  obtain as where addr: "NodeAddresses sim_cloud CtxLive ''n1'' sim_empty = (Ok as, sim_empty)"
    and ip: "firstInternalIP as = ''10.0.0.1''"
    using NodeAddresses_sim by auto
  have "withRouteLock (on_world m) (ex_state sim_empty) =
      (fst (m sim_empty), ex_state sim_empty\<lparr>world := snd (m sim_empty)\<rparr>)" for m :: "(sim_world, unit) io"
    by (simp add: withRouteLock_world ex_state_def)
  then show ?thesis
    using addr ip
    by (simp add: CreateRoute_run bind_io_def ex_route_def ex_routed_def sim_wait)
      (simp add: bind_io_def sim_wait sim_api_def sim_answer_def routeTableUpdate_def sim_empty_def ex_state_def)
qed

theorem created_route_is_listed_witness:
  "\<exists>ks s. ListRoutes sim_cloud CtxLive ex_routed = (Ok ks, s) \<and>
     {k \<in> set ks. r_TargetNode k = ''n1''} =
       {\<lparr>r_Name = ''n1'', r_TargetNode = ''n1'', r_DestinationCIDR = ''10.1.0.0/24''\<rparr>}"
proof -
  have "list_all readable (w_table (world ex_routed))"
    by (simp add: ex_routed_def readable_put)
  then obtain ks where "cpiRoutes (w_table (world ex_routed)) [] = Ok ks" by (auto simp: cpiRoutes_Ok_iff)
  then have "ListRoutes sim_cloud CtxLive ex_routed = (Ok ks, ex_routed)"
    by (simp add: ListRoutes_def withRouteLock_world sim_api_def bind_io_def) (simp add: ex_routed_def ex_state_def ex_after_def)
  with created_route_is_listed [OF sim_route_laws ex_create_route this] show ?thesis
    by (auto simp: ex_route_def)
qed

text \<open>C24: 
  What is deleted is gone: after a successful \<open>DeleteRoute\<close> no route of the target node is
  listed, whatever destination was asked for (all routes of the node go, not only the one
  with the given CIDR), and the routes of all others are in the table as before.
\<close>

theorem deleted_route_is_gone:
  assumes laws: "route_laws yc table"
    and delete: "DeleteRoute yc ctx route s = (Ok (), s1)"
    and list: "ListRoutes yc ctx' s1 = (Ok ks, s2)"
  shows "(\<forall>k\<in>set ks. r_TargetNode k \<noteq> r_TargetNode route) \<and>
    table (world s1) = filter (\<lambda>r. route_node r \<noteq> Some (r_TargetNode route)) (table (world s))"
proof -
  have free: "\<not> routeAPILock s" using delete delete_route.refused [of s yc ctx route] by auto
  from DeleteRoute_writes [OF laws free delete]
  have tab: "table (world s1) = filter (\<lambda>r. route_node r \<noteq> Some (r_TargetNode route)) (table (world s))"
    by (auto simp: writes_or_fails_def drop_eq)
  moreover have "r_TargetNode k \<noteq> r_TargetNode route" if "k \<in> set ks" for k
    using that ListRoutes_reads [OF laws list] tab by (auto simp: cpiRoutes_Ok_iff kube_route_of_def)
  ultimately show ?thesis by blast
qed

lemma ex_delete_route:
  "DeleteRoute sim_cloud CtxLive (ex_route\<lparr>r_DestinationCIDR := ''192.0.2.0/24''\<rparr>) ex_routed =
     (Ok (), ex_routed\<lparr>world := (world ex_routed)\<lparr>w_table := []\<rparr>\<rparr>)"
proof -
  have "filterStaticRoutes (w_table (world ex_routed)) [drop_term ''n1''] = []"
    by (simp add: ex_routed_def drop_eq put_eq)
  then show ?thesis
    by (simp add: DeleteRoute_run withRouteLock_world bind_io_def ex_route_def sim_wait)
      (simp add: sim_api_def sim_answer_def routeTableUpdate_def ex_routed_def ex_state_def ex_after_def)
qed

theorem deleted_route_is_gone_witness:
  "w_table (world (snd (DeleteRoute sim_cloud CtxLive (ex_route\<lparr>r_DestinationCIDR := ''192.0.2.0/24''\<rparr>) ex_routed))) =
     filter (\<lambda>r. route_node r \<noteq> Some ''n1'') (w_table (world ex_routed))"
proof -
  let ?s = "ex_routed\<lparr>world := (world ex_routed)\<lparr>w_table := []\<rparr>\<rparr>"
  have "ListRoutes sim_cloud CtxLive ?s = (Ok [], ?s)"
    by (simp add: ListRoutes_def withRouteLock_world sim_api_def bind_io_def) (simp add: ex_routed_def ex_state_def ex_after_def)
  from deleted_route_is_gone [OF sim_route_laws ex_delete_route this] show ?thesis
    by (simp only: ex_delete_route) (simp add: ex_route_def)
qed

text \<open>
  The lock of the route operations: a call that finds it held is refused at once with the
  one error and changes nothing; any other call, however it ends (a value, an error or a
  panic), has released it; and no route operation touches the target group syncer.
\<close>

theorem route_lock_released:
  "(routeAPILock s \<longrightarrow> ListRoutes yc ctx s = (Err ErrRouteAPILocked, s) \<and>
      CreateRoute yc ctx route s = (Err ErrRouteAPILocked, s) \<and> DeleteRoute yc ctx route s = (Err ErrRouteAPILocked, s)) \<and>
   routeAPILock (snd (ListRoutes yc ctx s)) = routeAPILock s \<and>
   routeAPILock (snd (CreateRoute yc ctx route s)) = routeAPILock s \<and>
   routeAPILock (snd (DeleteRoute yc ctx route s)) = routeAPILock s \<and>
   nodeTargetGroupSyncer (snd (ListRoutes yc ctx s)) = nodeTargetGroupSyncer s \<and>
   nodeTargetGroupSyncer (snd (CreateRoute yc ctx route s)) = nodeTargetGroupSyncer s \<and>
   nodeTargetGroupSyncer (snd (DeleteRoute yc ctx route s)) = nodeTargetGroupSyncer s"
  by (simp add: list_routes.refused create_route.refused delete_route.refused
      list_routes.lock_unchanged [OF prod.collapse [symmetric]] create_route.lock_unchanged [OF prod.collapse [symmetric]]
      delete_route.lock_unchanged [OF prod.collapse [symmetric]] list_routes.syncer_unchanged [OF prod.collapse [symmetric]]
      create_route.syncer_unchanged [OF prod.collapse [symmetric]] delete_route.syncer_unchanged [OF prod.collapse [symmetric]])

theorem route_lock_released_witness:
  "CreateRoute sim_cloud CtxLive ex_route (ex_state sim_empty\<lparr>routeAPILock := True\<rparr>) =
     (Err ErrRouteAPILocked, ex_state sim_empty\<lparr>routeAPILock := True\<rparr>)"
  using route_lock_released [of "ex_state sim_empty\<lparr>routeAPILock := True\<rparr>" sim_cloud CtxLive ex_route] by simp

text \<open>C10: 
  What a whole \<open>CreateRoute\<close> or \<open>DeleteRoute\<close> does, by the lock it finds. Held: it is
  refused with the one error and changes nothing, the one step of a refused call. Free: it
  leaves the lock free and the syncer alone, and either the table afterwards is the one
  before with its own term applied (for a creation: the node, the CIDR asked for and the
  first internal address of the node as the next hop), by the three steps of locking,
  reading and writing; or it does not succeed and the table is as it was. In between the
  lock is held: whatever runs under it sees it taken.
\<close>

theorem route_calls_are_steps:
  assumes laws: "route_laws yc table"
    and lock: "rs_lock c = routeAPILock s" and tab: "rs_table c = table (world s)"
    and call: "rs_phase c p = Called q"
      "q = ReqPut (r_TargetNode route) (r_DestinationCIDR route) \<and> CreateRoute yc ctx route s = (r, s') \<or>
       q = ReqDrop (r_TargetNode route) \<and> DeleteRoute yc ctx route s = (r, s')"
  shows "(routeAPILock s \<longrightarrow> r = Err ErrRouteAPILocked \<and> s' = s \<and>
      route_path [p] c (c\<lparr>rs_phase := (rs_phase c)(p := Refused)\<rparr>)) \<and>
    (\<not> routeAPILock s \<longrightarrow> \<not> routeAPILock s' \<and> nodeTargetGroupSyncer s' = nodeTargetGroupSyncer s \<and>
      ((\<exists>t. request_term q t \<and>
          (q = ReqDrop (r_TargetNode route) \<or>
            (\<exists>as w1 w2. NodeAddresses yc ctx (r_TargetNode route) w1 = (Ok as, w2) \<and>
               t = put_term (r_TargetNode route) (r_DestinationCIDR route) (firstInternalIP as))) \<and>
          table (world s') = filterStaticRoutes (table (world s)) [t] \<and>
          route_path [p, p, p] c (c\<lparr>rs_table := table (world s'), rs_phase := (rs_phase c)(p := Returned),
            rs_log := rs_log c @ [(p, t)]\<rparr>)) \<or>
       r \<noteq> Ok () \<and> table (world s') = table (world s) \<and>
          route_path [p, p, p] c (c\<lparr>rs_phase := (rs_phase c)(p := Returned)\<rparr>))) \<and>
    withRouteLock (\<lambda>u. (Ok (routeAPILock u), u)) s =
      (if routeAPILock s then (Err ErrRouteAPILocked, s) else (Ok True, s))"
proof (intro conjI impI)
  show "withRouteLock (\<lambda>u. (Ok (routeAPILock u), u)) s =
      (if routeAPILock s then (Err ErrRouteAPILocked, s) else (Ok True, s))"
    by (simp add: withRouteLock_def)
next
  assume "routeAPILock s"
  with call(2) show "r = Err ErrRouteAPILocked" "s' = s" by (auto simp: create_route.refused delete_route.refused)
  from \<open>routeAPILock s\<close> show "route_path [p] c (ended p Refused c)" using refused_path [OF call(1)] lock by simp
next
  assume free: "\<not> routeAPILock s"
  with call(2) show "\<not> routeAPILock s'" "nodeTargetGroupSyncer s' = nodeTargetGroupSyncer s"
    by (auto dest: create_route.lock_unchanged delete_route.lock_unchanged create_route.syncer_unchanged
        delete_route.syncer_unchanged)
  from free lock have unlocked: "\<not> rs_lock c" by simp
  let ?written = "\<lambda>t. table (world s') = filterStaticRoutes (table (world s)) [t] \<and>
    route_path [p, p, p] c (c\<lparr>rs_table := table (world s'), rs_phase := (rs_phase c)(p := Returned),
      rs_log := rs_log c @ [(p, t)]\<rparr>)"
  let ?failed = "r \<noteq> Ok () \<and> table (world s') = table (world s) \<and> route_path [p, p, p] c (ended p Returned c)"
  have steps: "?written t \<or> ?failed" if "request_term q t" "writes_or_fails table t (world s) r (world s')" for t
    using write_steps [OF call(1) unlocked that(1) tab that(2)] tab
    by (auto simp del: route_path_simps)
  from call(2) show "(\<exists>t. request_term q t \<and>
      (q = ReqDrop (r_TargetNode route) \<or>
        (\<exists>as w1 w2. NodeAddresses yc ctx (r_TargetNode route) w1 = (Ok as, w2) \<and>
           t = put_term (r_TargetNode route) (r_DestinationCIDR route) (firstInternalIP as))) \<and> ?written t) \<or> ?failed"
  proof (elim disjE conjE)
    assume q: "q = ReqPut (r_TargetNode route) (r_DestinationCIDR route)" and run: "CreateRoute yc ctx route s = (r, s')"
    let ?t = "\<lambda>as. put_term (r_TargetNode route) (r_DestinationCIDR route) (firstInternalIP as)"
    have "request_term q (?t as)" if "firstInternalIP as \<noteq> []" for as using that q by (simp add: put_term_def)
    with CreateRoute_writes [OF laws free run] steps failed_path [OF call(1) unlocked] show ?thesis by blast
  next
    assume q: "q = ReqDrop (r_TargetNode route)" and run: "DeleteRoute yc ctx route s = (r, s')"
    then show ?thesis using steps [OF _ DeleteRoute_writes [OF laws free run]] by auto
  qed
qed

theorem route_calls_are_steps_witness:
  "route_path [0] ((route_start [] two_calls)\<lparr>rs_lock := True\<rparr>)
     ((route_start [] two_calls)\<lparr>rs_lock := True, rs_phase := (rs_phase (route_start [] two_calls))(0 := Refused)\<rparr>) \<and>
   (\<exists>t. route_path [0, 0, 0] (route_start [] two_calls)
     ((route_start [] two_calls)\<lparr>rs_table := w_table (world ex_routed),
       rs_phase := (rs_phase (route_start [] two_calls))(0 := Returned), rs_log := [(0, t)]\<rparr>))"
proof (intro conjI)
  let ?c = "route_start [] two_calls" and ?s = "ex_state sim_empty\<lparr>routeAPILock := True\<rparr>"
  let ?q = "ReqPut (r_TargetNode ex_route) (r_DestinationCIDR ex_route)"
  have q: "rs_phase ?c 0 = Called ?q" by (simp add: route_start_def two_calls_def ex_route_def)
  then have q': "rs_phase (?c\<lparr>rs_lock := True\<rparr>) 0 = Called ?q" by simp
  show "route_path [0] (?c\<lparr>rs_lock := True\<rparr>) (?c\<lparr>rs_lock := True, rs_phase := (rs_phase ?c)(0 := Refused)\<rparr>)"
    using route_calls_are_steps [OF sim_route_laws _ _ q' disjI1 [OF conjI [OF refl create_route.refused [of ?s sim_cloud CtxLive]]]]
    by (simp add: route_start_def ex_state_def sim_empty_def)
  have tab: "rs_table ?c = w_table (world (ex_state sim_empty))" and lock: "rs_lock ?c = routeAPILock (ex_state sim_empty)"
    by (simp_all add: route_start_def ex_state_def sim_empty_def)
  from route_calls_are_steps [OF sim_route_laws lock tab q disjI1 [OF conjI [OF refl ex_create_route]]]
  show "\<exists>t. route_path [0, 0, 0] ?c (?c\<lparr>rs_table := w_table (world ex_routed),
      rs_phase := (rs_phase ?c)(0 := Returned), rs_log := [(0, t)]\<rparr>)"
    by (auto simp: ex_state_def route_start_def simp del: route_path_simps)
qed

text \<open>C25: 
  What \<open>ListRoutes\<close> answers. With the lock held it is refused and changes nothing. Otherwise
  it leaves the lock free and the table as it was, in three steps of one call, and its
  result is the error or panic of the reading; or a panic, when a route with the label of
  the program has a destination that is not a prefix; or the routes with the label, in the
  order of the table, each under the node of its label and with its prefix.
\<close>

theorem ListRoutes_spec:
  assumes laws: "route_laws yc table" and run: "ListRoutes yc ctx s = (r, s')"
    and call: "rs_phase c p = Called ReqList" "rs_lock c = routeAPILock s"
  shows "(routeAPILock s \<longrightarrow> r = Err ErrRouteAPILocked \<and> s' = s \<and>
      route_path [p] c (c\<lparr>rs_phase := (rs_phase c)(p := Refused)\<rparr>)) \<and>
    (\<not> routeAPILock s \<longrightarrow> \<not> routeAPILock s' \<and> table (world s') = table (world s) \<and>
      route_path [p, p, p] c (c\<lparr>rs_phase := (rs_phase c)(p := Returned)\<rparr>) \<and>
      (case fst (RouteTableGet (RouteTableSvc (VPCSvc (yandexService yc))) ctx (RouteTableID (config yc)) (world s)) of
         Err e \<Rightarrow> r = Err e
       | Abort a \<Rightarrow> r = Abort a
       | Ok _ \<Rightarrow>
           (if \<exists>x\<in>set (table (world s)). sr_Labels x cpiNodeRoleLabel \<noteq> None \<and> sr_Destination x = DestinationOther
            then r = Abort TypeAssertion
            else \<exists>ks. r = Ok ks \<and>
              list_all2 (\<lambda>x k. sr_Labels x cpiNodeRoleLabel = Some (r_TargetNode k) \<and> r_Name k = r_TargetNode k \<and>
                  sr_Destination x = DestinationPrefix (r_DestinationCIDR k))
                (filter (\<lambda>x. sr_Labels x cpiNodeRoleLabel \<noteq> None) (table (world s))) ks)))"
proof (cases "routeAPILock s")
  case True
  with run call show ?thesis using refused_path [OF call(1)] by (simp add: list_routes.refused)
next
  case False
  obtain q w where get: "RouteTableGet (RouteTableSvc (VPCSvc (yandexService yc))) ctx (RouteTableID (config yc)) (world s) = (q, w)"
    by fastforce
  from route_law_get [OF laws get] have w: "table w = table (world s)" and rs: "\<And>rs. q = Ok rs \<Longrightarrow> rs = table (world s)"
    by auto
  have res: "r = (case q of Ok rs \<Rightarrow> cpiRoutes rs [] | Err e \<Rightarrow> Err e | Abort a \<Rightarrow> Abort a)" and s': "world s' = w"
    using run get False
    by (auto simp: ListRoutes_def withRouteLock_world bind_io_def lift_outcome_def split: outcome.splits)
  from False call(2) have path: "route_path [p, p, p] c (ended p Returned c)" by (intro listed_path call(1)) simp
  have "\<not> routeAPILock s'" using list_routes.lock_unchanged [OF run] False by simp
  moreover have "table (world s') = table (world s)" using w s' by simp
  moreover note path
  moreover have "case q of Err e \<Rightarrow> r = Err e | Abort a \<Rightarrow> r = Abort a
    | Ok _ \<Rightarrow> r = cpiRoutes (table (world s)) []"
    using res rs by (cases q) auto
  ultimately show ?thesis using False cpiRoutes_answer [of "table (world s)"]
    by (cases q) (simp_all del: route_path_simps cpiRoutes.simps add: get cong: if_cong split del: if_split)
qed

theorem ListRoutes_spec_witness:
  "\<exists>ks. fst (ListRoutes sim_cloud CtxLive ex_routed) = Ok ks \<and> map r_TargetNode ks = [''n1'']"
proof -
  let ?c = "(route_start [] two_calls)\<lparr>rs_phase := (\<lambda>p. Called ReqList)\<rparr>"
  have tab: "w_table (world ex_routed) = [filtered_route (put_term ''n1'' ''10.1.0.0/24'' ''10.0.0.1'') [cpiNodeRoleLabel \<mapsto> ''n1'']]"
    by (simp add: ex_routed_def put_eq)
  have read: "fst (RouteTableGet (RouteTableSvc (VPCSvc (yandexService sim_cloud))) CtxLive (RouteTableID (config sim_cloud)) (world ex_routed)) =
      Ok (w_table (world ex_routed))"
    by (simp add: sim_api_def)
  from ListRoutes_spec [OF sim_route_laws prod.collapse [symmetric], of ?c 0 ex_routed CtxLive] tab read
  show ?thesis
    by (auto simp: ex_routed_def ex_state_def route_start_def filtered_route_def list_all2_Cons1 simp del: route_path_simps)
qed

section \<open>Configuration\<close>

text \<open>
  The configuration is read exactly so: it needs a service account key that parses, a
  cluster name and a default target group network; the folder is the environment's or the
  metadata service's; everything else is optional, the network id lists are split at
  commas, and the local zone and region are constants.
\<close>

theorem NewCloudConfig_spec:
  "NewCloudConfig getenv unmarshal accountKey client w = (Ok cfg, w') \<longleftrightarrow>
     getenv envServiceAccountJSON \<noteq> [] \<and> getenv envClusterName \<noteq> [] \<and>
     getenv envLbTgNetworkID \<noteq> [] \<and>
     (\<exists>k. unmarshal (getenv envServiceAccountJSON) = Ok k \<and> accountKey k = Ok (cfg_Credentials cfg)) \<and>
     retrieveFolderID getenv (NewMetadataService client) w = (Ok (cfg_FolderID cfg), w') \<and>
     cfg = \<lparr>ClusterName = getenv envClusterName,
       lbListenerSubnetID = getenv envLbListenerSubnetID,
       lbTgNetworkID = getenv envLbTgNetworkID,
       cfg_FolderID = cfg_FolderID cfg, LocalRegion = ''ru-central1'', LocalZone = ''ru-central1-b'',
       RouteTableID = getenv envRouteTableID,
       InternalNetworkIDsSet = networkIDs (getenv envInternalNetworkIDs),
       ExternalNetworkIDsSet = networkIDs (getenv envExternalNetworkIDs),
       cfg_Credentials = cfg_Credentials cfg\<rparr>"
proof (rule iffI, goal_cases)
  case 1
  then obtain k creds folderID where *: "unmarshal (getenv envServiceAccountJSON) = Ok k"
    "accountKey k = Ok creds" "retrieveFolderID getenv (NewMetadataService client) w = (Ok folderID, w')"
    "cloudConfigOf getenv creds folderID = Ok cfg" "getenv envServiceAccountJSON \<noteq> []"
    unfolding NewCloudConfig_Ok_iff by (elim conjE exE)
  from *(4) have "cfg_Credentials cfg = creds" "cfg_FolderID cfg = folderID" by (simp_all add: cloudConfigOf_Ok_iff)
  with * show ?case by (simp add: cloudConfigOf_Ok_iff)
next
  case 2
  then show ?case
    unfolding NewCloudConfig_Ok_iff cloudConfigOf_Ok_iff
    by (elim conjE exE) (intro conjI exI, assumption+)
qed

text \<open>C40: 
  The metadata service answers \<open>projects/folder/zones/zone\<close>, and the folder and the zone
  are read back from it, each by its own way of cutting the text.
\<close>

theorem metadata_roundtrip:
  assumes "hc_NewRequest (httpClient m) ''GET'' (metadataURL m @ ''/computeMetadata/v1/'' @ ''instance/zone'') = Ok req"
    and "hc_Do (httpClient m) (req\<lparr>hq_Header := (hq_Header req)
        (''Metadata-Flavor'' \<mapsto> ''Google'', ''User-Agent'' \<mapsto> userAgent)\<rparr>) w = (Ok res, w1)"
    and "hr_StatusCode res = 200"
    and "hc_ReadAll (httpClient m) (hr_Body res) w1 = (Ok (''projects/'' @ folder @ ''/zones/'' @ zone), w')"
    and "CHR ''/'' \<notin> set folder" and "CHR ''/'' \<notin> set zone"
  shows "GetFolderID m w = (Ok folder, w') \<and> Metadata_GetZone m w = (Ok zone, w')"
proof -
  have "Metadata_Get m ''instance/zone'' w = (Ok (''projects/'' @ folder @ ''/zones/'' @ zone), w')"
    using assms(1-4) unfolding Metadata_Get_def Let_def by (simp add: bind_io_OkI)
  from GetFolderID_of [OF this assms(5,6)] show ?thesis by blast
qed

definition ex_http :: "unit http_client" where
  "ex_http = \<lparr>hc_NewRequest = (\<lambda>verb url. Ok \<lparr>hq_Method = verb, hq_Url = url, hq_Header = Map.empty\<rparr>),
     hc_Do = (\<lambda>req w. (Ok \<lparr>hr_StatusCode = 200, hr_Body = ''body''\<rparr>, w)),
     hc_ReadAll = (\<lambda>b w. (Ok ''projects/f/zones/z'', w))\<rparr>"

theorem metadata_roundtrip_witness:
  "GetFolderID (NewMetadataService ex_http) () = (Ok ''f'', ())"
  using metadata_roundtrip [of "NewMetadataService ex_http" _ "()" "\<lparr>hr_StatusCode = 200, hr_Body = ''body''\<rparr>" "()" "''f''" "''z''" "()"]
  by (simp add: NewMetadataService_def NewMetadataServiceWithURL_def ex_http_def)

end
