(* ===== verification/ProviderProperties.thy ===== *)
theory ProviderProperties
  imports Isolation NodeProperties
begin

text \<open>
  The properties of whole runs of the provider: that the hypotheses of \<open>Isolation\<close> hold of
  the cloud in memory, what a reachable state of the provider has left alone, and what
  starting the provider does.
\<close>

section \<open>The frame laws hold\<close>

definition ex_informers :: "(sim_world, unit, string) informer_api" where
  "ex_informers =
     \<lparr>ClientOrDie = (\<lambda>n. return_io ()), ServicesInformer = (\<lambda>c t. ''services''),
      NodesInformer = (\<lambda>c t. ''nodes''), InformerLister = Lister, GoInformerRun = (\<lambda>i. return_io ()),
      WaitForCacheSync = (\<lambda>i. return_io True)\<rparr>"

lemma sim_readings: "readings_keep ex_informers sim_y I"
  by (simp add: readings_keep_def keeps_def sim_api_def ex_informers_def)

text \<open>Each request changes one of the three lists only.\<close>

lemma sim_requests_keep:
  "route_requests_keep sim_y (\<lambda>w. sim_tgs w = v)" "route_requests_keep sim_y (\<lambda>w. sim_lbs w = u)"
  "tg_requests_keep (LbSvc sim_y) (\<lambda>w. sim_lbs w = u)" "tg_requests_keep (LbSvc sim_y) (\<lambda>w. w_table w = rs)"
  "lb_requests_keep (LbSvc sim_y) (\<lambda>w. w_table w = rs)"
  by (simp_all add: route_requests_keep_def tg_requests_keep_def lb_requests_keep_def keeps_def sim_wait sim_api_def
      sim_answer_def sim_tgs_def sim_lbs_def sim_lb_list_def sim_tg_create_def sim_tg_edit_def sim_tg_delete_def
      sim_missing_def sim_lb_create_def sim_lb_edit_def sim_lb_delete_def Let_def split: option.split)

lemma confinedI:
  assumes "\<And>w r w'. m w = (r, w') \<Longrightarrow> view w' = view w \<or> view w' = (view w)(i := None) \<or>
    (\<exists>x x'. view w i = Some x \<and> nameof x' = nameof x \<and> view w' = (view w)(i \<mapsto> x'))"
  shows "confined view nameof m i"
  unfolding confined_def
proof (intro allI impI)
  fix w r w' assume "m w = (r, w')"
  from assms [OF this] show "(\<forall>j. j \<noteq> i \<longrightarrow> view w' j = view w j) \<and>
      (\<forall>x'. view w' i = Some x' \<longrightarrow> (\<exists>x. view w i = Some x \<and> nameof x' = nameof x))"
    by auto
qed

lemma sim_tg_frame: "tg_frame_laws ex_informers sim_y sim_tgs"
  unfolding tg_frame_laws_def
proof (intro conjI allI impI)
  fix ctx req show "adds_only sim_tgs tg_Name (OperationWaiter (cloudCtx (LbSvc sim_y)) ctx (TgCreate (lbs_TgSvc (LbSvc sim_y)) ctx req)) (ct_Name req)"
    by (auto simp: adds_only_def sim_wait sim_api_def sim_tg_create_def sim_answer_def sim_tgs_def Let_def
        st_view_Cons st_fresh_view intro!: exI)
next
  have edit: "confined sim_tgs tg_Name (opWaiter sim_sdk ctx (sim_tg_edit i f)) i" for ctx i f
    by (auto simp: confined_def sim_wait sim_tg_edit_def sim_answer_def sim_tgs_def st_view_update)
  show "confined sim_tgs tg_Name (OperationWaiter (cloudCtx (LbSvc sim_y)) ctx (TgAddTargets (lbs_TgSvc (LbSvc sim_y)) ctx i ts)) i"
    and "confined sim_tgs tg_Name (OperationWaiter (cloudCtx (LbSvc sim_y)) ctx (TgRemoveTargets (lbs_TgSvc (LbSvc sim_y)) ctx i ts)) i" for ctx i ts
    by (simp_all add: sim_api_def edit)
next
  fix ctx i show "confined sim_tgs tg_Name (OperationWaiter (cloudCtx (LbSvc sim_y)) ctx (TgDelete (lbs_TgSvc (LbSvc sim_y)) ctx i)) i"
    by (rule confinedI) (auto simp: sim_wait sim_api_def sim_tg_delete_def sim_answer_def sim_missing_def sim_tgs_def
        st_view_delete split: if_splits)
next
  fix ctx q w ts w' assume "TgList (lbs_TgSvc (LbSvc sim_y)) ctx q w = (Ok ts, w')"
  then have "ts = sim_list tg_Name q (st_visible tg_Id (w_tgs w))" by (auto simp: sim_api_def)
  then have "set ts \<subseteq> set (st_visible tg_Id (w_tgs w))" by (auto simp: sim_list_def dest: in_set_takeD)
  then show "set ts \<subseteq> ran (sim_tgs w)" by (simp add: sim_tgs_def st_visible_set)
qed (simp_all add: sim_tg_laws sim_fair sim_readings sim_frames(3) sim_requests_keep)

lemma sim_lb_frame: "lb_frame_laws ex_informers sim_y sim_lbs"
  unfolding lb_frame_laws_def
proof (intro conjI allI impI)
  fix ctx req show "adds_only sim_lbs lb_Name (OperationWaiter (cloudCtx (LbSvc sim_y)) ctx (LbCreate (lbs_LbSvc (LbSvc sim_y)) ctx req)) (cl_Name req)"
    by (auto simp: adds_only_def sim_wait sim_api_def sim_lb_create_def sim_answer_def sim_lbs_def Let_def
        st_view_Cons st_fresh_view split: if_splits intro!: exI)
next
  fix ctx i show "confined sim_lbs lb_Name (OperationWaiter (cloudCtx (LbSvc sim_y)) ctx (LbDelete (lbs_LbSvc (LbSvc sim_y)) ctx i)) i"
    by (rule confinedI) (auto simp: sim_wait sim_api_def sim_lb_delete_def sim_answer_def sim_missing_def sim_lbs_def
        st_view_delete split: if_splits)
next
  have edit: "confined sim_lbs lb_Name (opWaiter sim_sdk ctx (sim_lb_edit i f)) i"
    if same: "\<And>c. lb_Id (f c) = lb_Id c" "\<And>c. lb_Name (f c) = lb_Name c" for ctx i f
  proof -
    have "lb_Id c = i" if "sim_lbs w i = Some c" for w c
      using that by (auto simp: sim_lbs_def dest: st_view_id)
    with same show ?thesis
      by (auto simp: confined_def sim_wait sim_lb_edit_def sim_answer_def sim_missing_def sim_lbs_def st_view_Cons
          st_view_delete split: option.splits if_splits)
  qed
  show "confined sim_lbs lb_Name (OperationWaiter (cloudCtx (LbSvc sim_y)) ctx (LbRemoveListener (lbs_LbSvc (LbSvc sim_y)) ctx i n)) i"
    and "confined sim_lbs lb_Name (OperationWaiter (cloudCtx (LbSvc sim_y)) ctx (LbAddListener (lbs_LbSvc (LbSvc sim_y)) ctx i l)) i"
    and "confined sim_lbs lb_Name (OperationWaiter (cloudCtx (LbSvc sim_y)) ctx (LbDetachTargetGroup (lbs_LbSvc (LbSvc sim_y)) ctx i n)) i"
    and "confined sim_lbs lb_Name (OperationWaiter (cloudCtx (LbSvc sim_y)) ctx (LbAttachTargetGroup (lbs_LbSvc (LbSvc sim_y)) ctx i t)) i" for ctx i n l t
    by (simp_all add: sim_api_def edit)
qed (simp_all add: sim_lb_laws sim_fair sim_readings sim_requests_keep)

lemma sim_route_frame: "route_frame_laws ex_informers sim_cloud w_table"
  by (simp add: route_frame_laws_def sim_route_laws sim_fair sim_readings sim_requests_keep)

section \<open>What the provider leaves alone\<close>

text \<open>C11: 
  The target groups of others are never touched: in every state that calls of the provider
  can reach (with any services and nodes, any outcome of any request, panics and restarts of
  the process included) the groups whose name does not contain the cluster's name are
  exactly those of the start, unchanged.
\<close>

theorem groups_of_others_untouched:
  assumes "tg_frame_laws k (yandexService yc) tgs" and "provider_reach k yc S s0 s"
    and "\<nexists>a b. tg_Name t = a @ ClusterName (config yc) @ b"
  shows "tgs (world s) i = Some t \<longleftrightarrow> tgs (world s0) i = Some t"
proof -
  from assms(3) have "\<not> cluster_named yc (tg_Name t)" by (simp add: cluster_named_def Contains_iff)
  with groups_isolated(1) [OF assms(1,2)] show ?thesis by (metis foreign_Some_iff)
qed

lemma ex_reach:
  "call_services c \<subseteq> S \<Longrightarrow> provider_reach ex_informers sim_cloud S s (perform ex_informers sim_cloud CtxLive c s)"
  by (rule provider_call [OF provider_start])

theorem groups_of_others_untouched_witness:
  "sim_tgs (world (perform ex_informers sim_cloud CtxLive (CallEnsureLoadBalancerDeleted ex_service) (ex_state ex_two_clusters)))
     ''idothernet'' = Some (ex_group ''othernet'' [])"
proof -
  have "\<not> strings_Contains ''othernet'' ''cluster''" by (simp add: strings_HasPrefix_def)
  then have n: "\<nexists>a b. tg_Name (ex_group ''othernet'' []) = a @ ClusterName (config sim_cloud) @ b"
    by (simp add: Contains_iff ex_group_def)
  have "tg_frame_laws ex_informers (yandexService sim_cloud) sim_tgs" by (simp add: sim_tg_frame)
  from groups_of_others_untouched [OF this ex_reach n,
      of "CallEnsureLoadBalancerDeleted ex_service" "{ex_service}" "ex_state ex_two_clusters" "''idothernet''"]
  show ?thesis
    by (simp add: sim_tgs_def ex_two_clusters_def sim_empty_def st_view_def ex_group_def)
qed

text \<open>C12: 
  The load balancers of others are never touched: in every reachable state the load
  balancers whose name is not that of one of the cluster's services are exactly those of the
  start, with all their listeners and attached target groups.
\<close>

theorem balancers_of_others_untouched:
  assumes "lb_frame_laws k (yandexService yc) lbs" and "provider_reach k yc S s0 s"
    and "\<forall>svc\<in>S. lb_Name c \<noteq> defaultLoadBalancerName svc"
  shows "lbs (world s) i = Some c \<longleftrightarrow> lbs (world s0) i = Some c"
proof -
  from assms(3) have "\<not> service_named S (lb_Name c)" by (auto simp: service_named_def)
  with balancers_isolated(1) [OF assms(1,2)] show ?thesis by (metis foreign_Some_iff)
qed

definition ex_other_balancer :: nlb where
  "ex_other_balancer = \<lparr>lb_Id = ''other'', lb_Name = ''web'', lb_Type = NLB_EXTERNAL, lb_Listeners = [],
     lb_AttachedTargetGroups = []\<rparr>"

theorem balancers_of_others_untouched_witness:
  "sim_lbs (world (perform ex_informers sim_cloud CtxLive (CallEnsureLoadBalancer ex_service ex_nodes)
     (ex_state (sim_empty\<lparr>w_lbs := [ex_other_balancer]\<rparr>)))) ''other'' = Some ex_other_balancer"
proof -
  have n: "\<forall>svc\<in>{ex_service}. lb_Name ex_other_balancer \<noteq> defaultLoadBalancerName svc"
    by (simp add: ex_other_balancer_def lb_name_eq)
  have "lb_frame_laws ex_informers (yandexService sim_cloud) sim_lbs" by (simp add: sim_lb_frame)
  from balancers_of_others_untouched [OF this ex_reach n, of "CallEnsureLoadBalancer ex_service ex_nodes"
      "ex_state (sim_empty\<lparr>w_lbs := [ex_other_balancer]\<rparr>)" "''other''"]
  show ?thesis
    by (simp add: sim_lbs_def sim_lb_list_def st_view_def ex_other_balancer_def lb_wf_def)
qed

text \<open>C13: 
  Names stay unique: if no two load balancers share a name and no two target groups do, then
  so it is in every state that calls of the provider can reach. An object is created only
  after a listing found none of its name, also when it was deleted just before to be made
  anew, so no failed or repeated call leaves a second one.
\<close>

theorem names_stay_unique:
  assumes "tg_frame_laws k (yandexService yc) tgs" and "lb_frame_laws k (yandexService yc) lbs"
    and "provider_reach k yc S s0 s"
    and "unique_names tg_Name (tgs (world s0))" and "unique_names lb_Name (lbs (world s0))"
  shows "unique_names tg_Name (tgs (world s)) \<and> unique_names lb_Name (lbs (world s))"
  using groups_isolated(2) [OF assms(1,3,4)] balancers_isolated(2) [OF assms(2,3,5)] by simp

theorem names_stay_unique_witness:
  "unique_names tg_Name (sim_tgs (world (perform ex_informers sim_cloud CtxLive
     (CallEnsureLoadBalancer ex_service ex_nodes) (ex_state ex_tg_world))))"
proof -
  have "unique_names tg_Name (sim_tgs ex_tg_world)" "unique_names lb_Name (sim_lbs ex_tg_world)"
    by (auto simp: unique_names_def sim_tgs_def sim_lbs_def sim_lb_list_def ex_tg_world_def ex_group_def sim_empty_def
        st_view_def split: if_splits)
  moreover have "tg_frame_laws ex_informers (yandexService sim_cloud) sim_tgs"
    "lb_frame_laws ex_informers (yandexService sim_cloud) sim_lbs" by (simp_all add: sim_tg_frame sim_lb_frame)
  ultimately show ?thesis
    using names_stay_unique [OF _ _ ex_reach, of sim_tgs sim_lbs "CallEnsureLoadBalancer ex_service ex_nodes"
        "{ex_service}" "ex_state ex_tg_world"]
    by simp
qed

text \<open>C14: 
  The routes without the program's label stay in the table, in their order, through every
  sequence of calls of the provider, whatever their outcomes.
\<close>

theorem routes_of_others_untouched:
  assumes "route_frame_laws k yc table" and "provider_reach k yc S s0 s"
  shows "filter (\<lambda>r. sr_Labels r cpiNodeRoleLabel = None) (table (world s)) =
    filter (\<lambda>r. sr_Labels r cpiNodeRoleLabel = None) (table (world s0))"
  using routes_isolated [OF assms] by (simp add: unlabelled_def)

definition ex_other_route :: static_route where
  "ex_other_route = \<lparr>sr_Destination = DestinationPrefix ''0.0.0.0/0'', sr_NextHop = NextHopOther ''gateway'',
     sr_Labels = Map.empty\<rparr>"

theorem routes_of_others_untouched_witness:
  "filter (\<lambda>r. sr_Labels r cpiNodeRoleLabel = None) (w_table (world (perform ex_informers sim_cloud CtxLive
     (CallCreateRoute ex_route) (ex_state (sim_empty\<lparr>w_table := [ex_other_route]\<rparr>))))) = [ex_other_route]"
  using routes_of_others_untouched [OF sim_route_frame ex_reach, of "CallCreateRoute ex_route" "{}"
      "ex_state (sim_empty\<lparr>w_table := [ex_other_route]\<rparr>)"]
  by (simp add: ex_other_route_def)

section \<open>Starting the provider\<close>

text \<open>
  When \<open>Initialize\<close> returns, the syncer exists with no node visited and reads the services'
  cache, the node lister is set, and both caches have synced, the services' first. It
  leaves the lock of the routes alone.
\<close>

lemma keeps_lock: "keeps (\<lambda>s. routeAPILock s = b) (on_world m)"
    "keeps (\<lambda>s. routeAPILock s = b) (setListers x y)"
  by (simp_all add: keeps_def setListers_def)

lemma keeps_Initialize_lock: "keeps (\<lambda>s. routeAPILock s = b) (Initialize k)"
  unfolding Initialize_def Let_def by (intro keeps_bind keeps_lock)

lemma Initialize_Ok:
  assumes "Initialize k s = (Ok u, s')"
  shows "\<exists>c w w1. nodeTargetGroupSyncer s' =
      Some \<lparr>lastVisitedNodes = {}, serviceLister = InformerLister k (ServicesInformer k c 30)\<rparr> \<and>
    nodeLister s' = Some (InformerLister k (NodesInformer k c 30)) \<and> routeAPILock s' = routeAPILock s \<and>
    WaitForCacheSync k (ServicesInformer k c 30) w = (Ok True, w1) \<and>
    WaitForCacheSync k (NodesInformer k c 30) w1 = (Ok True, world s')"
proof -
  have wait: "waitForCache k i w = (Ok x, w') \<Longrightarrow> WaitForCacheSync k i w = (Ok True, w')" for i w x w'
    by (auto simp: waitForCache_def bind_io_Ok_iff split: if_splits)
  show ?thesis
    using assms by (auto simp: Initialize_def bind_io_Ok_iff on_world_Ok_iff Let_def setListers_def dest!: wait)
      blast
qed

text \<open>C39: 
  From the environment to the provider: when the registered constructor returns a provider,
  the service account key, the cluster name and the default network of the target groups
  were set and every other field of the configuration is what its variable says; the SDK was
  built with the credentials of that key; all three services share one context with the
  configured folder and the SDK's operation waiter, and hold that SDK's clients, so every
  lookup by name asks for the configured folder; and routes are offered exactly when a route
  table is configured.
\<close>

theorem provider_from_environment:
  assumes "newProvider lib (NewCloudConfig getenv unmarshal accountKey client) ycsdk_Build w = (Ok yc, w')"
  shows "getenv envServiceAccountJSON \<noteq> [] \<and> getenv envClusterName \<noteq> [] \<and> getenv envLbTgNetworkID \<noteq> [] \<and>
    retrieveFolderID getenv (NewMetadataService client) w = (Ok (cfg_FolderID (config yc)), w') \<and>
    config yc = \<lparr>ClusterName = getenv envClusterName, lbListenerSubnetID = getenv envLbListenerSubnetID,
      lbTgNetworkID = getenv envLbTgNetworkID, cfg_FolderID = cfg_FolderID (config yc),
      LocalRegion = ''ru-central1'', LocalZone = ''ru-central1-b'', RouteTableID = getenv envRouteTableID,
      InternalNetworkIDsSet = networkIDs (getenv envInternalNetworkIDs),
      ExternalNetworkIDsSet = networkIDs (getenv envExternalNetworkIDs),
      cfg_Credentials = cfg_Credentials (config yc)\<rparr> \<and>
    (\<exists>k sdk. unmarshal (getenv envServiceAccountJSON) = Ok k \<and> accountKey k = Ok (cfg_Credentials (config yc)) \<and>
       ycsdk_Build (cfg_Credentials (config yc)) = Ok sdk \<and>
       cloudCtx (LbSvc (yandexService yc)) = cloudCtx (yandexService yc) \<and>
       cloudCtx (ComputeSvc (yandexService yc)) = cloudCtx (yandexService yc) \<and>
       cloudCtx (VPCSvc (yandexService yc)) = cloudCtx (yandexService yc) \<and>
       OperationWaiter (cloudCtx (yandexService yc)) = opWaiter sdk \<and> api_OperationWaiter (yandexService yc) = opWaiter sdk \<and>
       lbs_LbSvc (LbSvc (yandexService yc)) = sdk_NetworkLoadBalancer sdk \<and>
       lbs_TgSvc (LbSvc (yandexService yc)) = sdk_TargetGroup sdk \<and>
       InstanceSvc (ComputeSvc (yandexService yc)) = sdk_Instance sdk \<and>
       SubnetSvc (VPCSvc (yandexService yc)) = sdk_Subnet sdk \<and>
       RouteTableSvc (VPCSvc (yandexService yc)) = sdk_RouteTable sdk) \<and>
    lr_FolderId (name_query (LbSvc (yandexService yc)) n) = cfg_FolderID (config yc) \<and>
    lr_FolderId (name_query (ComputeSvc (yandexService yc)) n) = cfg_FolderID (config yc) \<and>
    Cloud_Routes yc = (if getenv envRouteTableID = [] then (None, False) else (Some yc, True))"
proof -
  from assms obtain cfg api where cfg: "NewCloudConfig getenv unmarshal accountKey client w = (Ok cfg, w')"
    and api: "NewYandexCloudAPI lib ycsdk_Build (cfg_Credentials cfg) (LocalRegion cfg) (cfg_FolderID cfg) = Ok api"
    and yc: "yc = NewCloud cfg api"
    by (auto simp: newProvider_def bind_io_Ok_iff)
  from api obtain sdk where sdk: "ycsdk_Build (cfg_Credentials cfg) = Ok sdk"
    by (auto simp: NewYandexCloudAPI_def split: outcome.splits)
  note W = NewYandexCloudAPI_wired [OF api sdk]
  from cfg obtain k creds folder where k: "getenv envServiceAccountJSON \<noteq> []"
      "unmarshal (getenv envServiceAccountJSON) = Ok k" "accountKey k = Ok creds"
      "retrieveFolderID getenv (NewMetadataService client) w = (Ok folder, w')"
    and c: "cloudConfigOf getenv creds folder = Ok cfg"
    unfolding NewCloudConfig_Ok_iff by (elim conjE exE)
  from c have f: "cfg_Credentials cfg = creds" "cfg_FolderID cfg = folder" by (simp_all add: cloudConfigOf_Ok_iff)
  have sel: "config yc = cfg" "yandexService yc = api" by (simp_all add: yc NewCloud_def)
  have folders: "lr_FolderId (name_query (LbSvc api) n) = folder" "lr_FolderId (name_query (ComputeSvc api) n) = folder"
    by (simp_all add: name_query_def W f)
  have routes: "Cloud_Routes yc = (if getenv envRouteTableID = [] then (None, False) else (Some yc, True))"
    using c by (simp add: Cloud_Routes_def sel cloudConfigOf_Ok_iff)
  have vars: "getenv envClusterName \<noteq> [] \<and> getenv envLbTgNetworkID \<noteq> []"
    using c by (simp add: cloudConfigOf_Ok_iff)
  have rest: "cfg = \<lparr>ClusterName = getenv envClusterName, lbListenerSubnetID = getenv envLbListenerSubnetID,
      lbTgNetworkID = getenv envLbTgNetworkID, cfg_FolderID = folder,
      LocalRegion = ''ru-central1'', LocalZone = ''ru-central1-b'', RouteTableID = getenv envRouteTableID,
      InternalNetworkIDsSet = networkIDs (getenv envInternalNetworkIDs),
      ExternalNetworkIDsSet = networkIDs (getenv envExternalNetworkIDs), cfg_Credentials = creds\<rparr>"
    using c by (simp add: cloudConfigOf_Ok_iff)
  show ?thesis
    unfolding sel f
    using k vars rest W(1-5,9-13) sdk [unfolded f] folders routes by blast
qed

definition ex_env :: "string \<Rightarrow> string" where
  "ex_env v = (if v = envClusterName then ''cluster'' else if v = envLbTgNetworkID then ''net-a''
     else if v = envServiceAccountJSON then ''{}'' else [])"

definition ex_metadata :: "sim_world http_client" where
  "ex_metadata = \<lparr>hc_NewRequest = (\<lambda>verb url. Ok \<lparr>hq_Method = verb, hq_Url = url, hq_Header = Map.empty\<rparr>),
     hc_Do = (\<lambda>req w. (Ok \<lparr>hr_StatusCode = 200, hr_Body = ''body''\<rparr>, w)),
     hc_ReadAll = (\<lambda>b w. (Ok ''projects/f/zones/z'', w))\<rparr>"

text \<open>No folder in the environment: the metadata service tells it.\<close>

lemma ex_provider:
  "\<exists>yc. newProvider sim_packages (NewCloudConfig ex_env Ok (\<lambda>k. Ok (Credentials k)) ex_metadata) (\<lambda>c. Ok sim_sdk) sim_empty =
     (Ok yc, sim_empty) \<and> cfg_FolderID (config yc) = ''f''"
proof -
  have "Metadata_Get (NewMetadataService ex_metadata) ''instance/zone'' sim_empty = (Ok (''projects/'' @ ''f'' @ ''/zones/'' @ ''z''), sim_empty)"
    by (simp add: Metadata_Get_def NewMetadataService_def NewMetadataServiceWithURL_def ex_metadata_def bind_io_def Let_def)
  from GetFolderID_of(1) [OF this] have "GetFolderID (NewMetadataService ex_metadata) sim_empty = (Ok ''f'', sim_empty)" by simp
  then have "NewCloudConfig ex_env Ok (\<lambda>k. Ok (Credentials k)) ex_metadata sim_empty =
      (cloudConfigOf ex_env (Credentials ''{}'') ''f'', sim_empty)"
    by (simp add: NewCloudConfig_def retrieveFolderID_def ex_env_def envServiceAccountJSON_def envClusterName_def
        envLbTgNetworkID_def envFolderID_def bind_io_def attempt_io_def Let_def)
  then show ?thesis
    by (simp add: newProvider_def bind_io_def NewYandexCloudAPI_def NewCloud_def cloudConfigOf_def local_region ex_env_def
        envServiceAccountJSON_def envClusterName_def envLbTgNetworkID_def Let_def)
qed

theorem provider_from_environment_witness:
  "\<exists>yc. newProvider sim_packages (NewCloudConfig ex_env Ok (\<lambda>k. Ok (Credentials k)) ex_metadata) (\<lambda>c. Ok sim_sdk) sim_empty =
     (Ok yc, sim_empty) \<and> lr_FolderId (name_query (LbSvc (yandexService yc)) ''x'') = ''f''"
proof -
  obtain yc where "newProvider sim_packages (NewCloudConfig ex_env Ok (\<lambda>k. Ok (Credentials k)) ex_metadata) (\<lambda>c. Ok sim_sdk) sim_empty =
     (Ok yc, sim_empty)" "cfg_FolderID (config yc) = ''f''" using ex_provider by blast
  with provider_from_environment [OF this(1), of "''x''"] show ?thesis by auto
qed

end
