(* ===== verification/Cleanup.thy ===== *)
theory Cleanup
  imports TgSyncer
begin

text \<open>
  The goroutines of \<open>cleanUpTargetGroups\<close> in \<open>load_balancer_tg_controller.go\<close>. Each deletes
  one group: it sends the request, waits for the operation and reads its response, and what
  the others do comes in between. The group they run in is the package
  \<open>golang.org/x/sync/errgroup\<close>, which is not in the repository; \<open>finish\<close> and \<open>all_finished\<close> state
  its documented behaviour: the first error is the group's result and cancels the context
  that all of them share, which the later requests and the waits then see, and \<open>Wait\<close> returns
  when all have finished. The function \<open>errgroup\<close> of \<open>TgSyncer\<close> is the schedule that runs them
  one after the other; here any interleaving is a run.
\<close>

section \<open>One goroutine's steps\<close>

datatype goroutine =
    Starting
  | Waiting operation
  | Reading operation
  | Finished "error option"

record 'w cleanup =
  cl_world :: 'w
  cl_ctx :: ctx
  cl_first :: "error option"
  cl_phase :: "nat \<Rightarrow> goroutine"

text \<open>\<open>RemoveTGByID\<close> drops \<open>NotFound\<close>; the package keeps the first error and cancels.\<close>

definition removal_error :: "'w LoadBalancerService \<Rightarrow> error \<Rightarrow> error option" where
  "removal_error y err = (if status_Code (libs y) err = codes_NotFound then None else Some err)"

definition finish :: "nat \<Rightarrow> error option \<Rightarrow> 'w cleanup \<Rightarrow> 'w cleanup" where
  "finish p res s =
     (let s = s\<lparr>cl_phase := (cl_phase s)(p := Finished res)\<rparr> in
      case res of
        None \<Rightarrow> s
      | Some err \<Rightarrow> s\<lparr>cl_first := (case cl_first s of None \<Rightarrow> Some err | Some e \<Rightarrow> Some e), cl_ctx := CtxCancelled\<rparr>)"

text \<open>One step of goroutine \<open>p\<close>, which deletes the group \<open>ids ! p\<close>.\<close>

inductive cleanup_step :: "'w ycsdk \<Rightarrow> 'w LoadBalancerService \<Rightarrow> string list \<Rightarrow> nat \<Rightarrow> 'w cleanup \<Rightarrow> 'w cleanup \<Rightarrow> bool"
  for sdk y ids where
  requested: "p < length ids \<Longrightarrow> cl_phase s p = Starting \<Longrightarrow>
    attempt_io (TgDelete (lbs_TgSvc y) (cl_ctx s) (ids ! p)) (cl_world s) = (Ok r, w) \<Longrightarrow>
    WrapOperation sdk r = Inr op \<Longrightarrow>
    cleanup_step sdk y ids p s (s\<lparr>cl_world := w, cl_phase := (cl_phase s)(p := Waiting op)\<rparr>)"
| rejected: "p < length ids \<Longrightarrow> cl_phase s p = Starting \<Longrightarrow>
    attempt_io (TgDelete (lbs_TgSvc y) (cl_ctx s) (ids ! p)) (cl_world s) = (Ok r, w) \<Longrightarrow>
    WrapOperation sdk r = Inl err \<Longrightarrow>
    cleanup_step sdk y ids p s (finish p (removal_error y err) (s\<lparr>cl_world := w\<rparr>))"
| waited: "p < length ids \<Longrightarrow> cl_phase s p = Waiting op \<Longrightarrow>
    OpWait sdk (cl_ctx s) op (cl_world s) = (Ok (), w) \<Longrightarrow>
    cleanup_step sdk y ids p s (s\<lparr>cl_world := w, cl_phase := (cl_phase s)(p := Reading op)\<rparr>)"
| wait_failed: "p < length ids \<Longrightarrow> cl_phase s p = Waiting op \<Longrightarrow>
    OpWait sdk (cl_ctx s) op (cl_world s) = (Err err, w) \<Longrightarrow>
    cleanup_step sdk y ids p s (finish p (removal_error y err) (s\<lparr>cl_world := w\<rparr>))"
| answered: "p < length ids \<Longrightarrow> cl_phase s p = Reading op \<Longrightarrow>
    OpResponse sdk op (cl_world s) = (Ok m, w) \<Longrightarrow>
    cleanup_step sdk y ids p s (finish p None (s\<lparr>cl_world := w\<rparr>))"
| unanswered: "p < length ids \<Longrightarrow> cl_phase s p = Reading op \<Longrightarrow>
    OpResponse sdk op (cl_world s) = (Err err, w) \<Longrightarrow>
    cleanup_step sdk y ids p s (finish p (removal_error y err) (s\<lparr>cl_world := w\<rparr>))"

inductive_cases cleanup_stepE: "cleanup_step sdk y ids p s s'"

inductive cleanup_reach :: "'w ycsdk \<Rightarrow> 'w LoadBalancerService \<Rightarrow> string list \<Rightarrow> 'w cleanup \<Rightarrow> 'w cleanup \<Rightarrow> bool"
  for sdk y ids s0 where
  cleanup_start: "cleanup_reach sdk y ids s0 s0"
| cleanup_more: "cleanup_reach sdk y ids s0 s \<Longrightarrow> cleanup_step sdk y ids p s s' \<Longrightarrow> cleanup_reach sdk y ids s0 s'"

definition launch :: "ctx \<Rightarrow> 'w \<Rightarrow> 'w cleanup" where
  "launch ctx w = \<lparr>cl_world = w, cl_ctx = ctx, cl_first = None, cl_phase = (\<lambda>p. Starting)\<rparr>"

text \<open>\<open>wg.Wait()\<close> returns when every goroutine has finished.\<close>

definition all_finished :: "string list \<Rightarrow> 'w cleanup \<Rightarrow> bool" where
  "all_finished ids s \<longleftrightarrow> (\<forall>p<length ids. \<exists>res. cl_phase s p = Finished res)"

text \<open>The step of a goroutine is a function of the state; a list of turns is a run.\<close>

definition cleanup_turn :: "'w ycsdk \<Rightarrow> 'w LoadBalancerService \<Rightarrow> string list \<Rightarrow> nat \<Rightarrow> 'w cleanup \<Rightarrow> 'w cleanup option" where
  "cleanup_turn sdk y ids p s =
     (if length ids \<le> p then None
      else case cl_phase s p of
        Starting \<Rightarrow>
          (case attempt_io (TgDelete (lbs_TgSvc y) (cl_ctx s) (ids ! p)) (cl_world s) of
             (Ok r, w) \<Rightarrow>
               (case WrapOperation sdk r of
                  Inl err \<Rightarrow> Some (finish p (removal_error y err) (s\<lparr>cl_world := w\<rparr>))
                | Inr op \<Rightarrow> Some (s\<lparr>cl_world := w, cl_phase := (cl_phase s)(p := Waiting op)\<rparr>))
           | _ \<Rightarrow> None)
      | Waiting op \<Rightarrow>
          (case OpWait sdk (cl_ctx s) op (cl_world s) of
             (Ok _, w) \<Rightarrow> Some (s\<lparr>cl_world := w, cl_phase := (cl_phase s)(p := Reading op)\<rparr>)
           | (Err err, w) \<Rightarrow> Some (finish p (removal_error y err) (s\<lparr>cl_world := w\<rparr>))
           | (Abort _, _) \<Rightarrow> None)
      | Reading op \<Rightarrow>
          (case OpResponse sdk op (cl_world s) of
             (Ok _, w) \<Rightarrow> Some (finish p None (s\<lparr>cl_world := w\<rparr>))
           | (Err err, w) \<Rightarrow> Some (finish p (removal_error y err) (s\<lparr>cl_world := w\<rparr>))
           | (Abort _, _) \<Rightarrow> None)
      | Finished _ \<Rightarrow> None)"

lemma cleanup_step_iff_turn: "cleanup_step sdk y ids p s s' \<longleftrightarrow> cleanup_turn sdk y ids p s = Some s'"
proof
  assume "cleanup_step sdk y ids p s s'"
  then show "cleanup_turn sdk y ids p s = Some s'" by (cases rule: cleanup_stepE) (auto simp: cleanup_turn_def)
next
  assume "cleanup_turn sdk y ids p s = Some s'"
  then show "cleanup_step sdk y ids p s s'"
    unfolding cleanup_turn_def
    by (auto intro: cleanup_step.intros split: if_splits goroutine.splits prod.splits outcome.splits sum.splits)
qed

fun cleanup_turns :: "'w ycsdk \<Rightarrow> 'w LoadBalancerService \<Rightarrow> string list \<Rightarrow> nat list \<Rightarrow> 'w cleanup \<Rightarrow> 'w cleanup option" where
  "cleanup_turns sdk y ids [] s = Some s"
| "cleanup_turns sdk y ids (p # ps) s =
     (case cleanup_turn sdk y ids p s of None \<Rightarrow> None | Some s1 \<Rightarrow> cleanup_turns sdk y ids ps s1)"

lemma cleanup_reach_trans: "cleanup_reach sdk y ids a b \<Longrightarrow> cleanup_reach sdk y ids b c \<Longrightarrow> cleanup_reach sdk y ids a c"
  by (rotate_tac, induction rule: cleanup_reach.induct) (auto intro: cleanup_more)

lemma cleanup_turns_reach: "cleanup_turns sdk y ids ps s = Some s' \<Longrightarrow> cleanup_reach sdk y ids s s'"
proof (induction ps arbitrary: s)
  case (Cons p ps)
  then obtain s1 where "cleanup_step sdk y ids p s s1" "cleanup_turns sdk y ids ps s1 = Some s'"
    by (auto simp: cleanup_step_iff_turn split: option.splits)
  with Cons.IH show ?case by (blast intro: cleanup_reach_trans cleanup_more cleanup_start)
qed (simp add: cleanup_start)

lemma finish_simps [simp]:
  "cl_world (finish p res s) = cl_world s" "cl_phase (finish p res s) = (cl_phase s)(p := Finished res)"
  "cl_first (finish p res s) = (case cl_first s of None \<Rightarrow> res | Some e \<Rightarrow> Some e)"
  "cl_ctx (finish p res s) = (case res of None \<Rightarrow> cl_ctx s | Some _ \<Rightarrow> CtxCancelled)"
  by (simp_all add: finish_def Let_def split: option.split)

section \<open>The first error\<close>

text \<open>
  The group's error is the error of a goroutine that has finished, there is one as soon as
  a goroutine has failed, and the context is cancelled exactly then.
\<close>

definition first_error_inv :: "ctx \<Rightarrow> 'w cleanup \<Rightarrow> bool" where
  "first_error_inv ctx s \<longleftrightarrow>
     (\<forall>e. cl_first s = Some e \<longrightarrow> (\<exists>p. cl_phase s p = Finished (Some e))) \<and>
     (\<forall>p e. cl_phase s p = Finished (Some e) \<longrightarrow> cl_first s \<noteq> None) \<and>
     cl_ctx s = (if cl_first s = None then ctx else CtxCancelled)"

lemma first_error_finish:
  assumes "first_error_inv ctx s" and "\<And>res. cl_phase s p \<noteq> Finished res"
  shows "first_error_inv ctx (finish p res (s\<lparr>cl_world := w\<rparr>))"
proof -
  let ?s = "finish p res (s\<lparr>cl_world := w\<rparr>)"
  have "\<exists>q. cl_phase ?s q = Finished (Some e)" if "cl_first ?s = Some e" for e
  proof (cases "cl_first s")
    case None
    with that have "cl_phase ?s p = Finished (Some e)" by simp
    then show ?thesis ..
  next
    case (Some e')
    with that have "cl_first s = Some e" by simp
    with assms(1) obtain q where q: "cl_phase s q = Finished (Some e)" by (auto simp: first_error_inv_def)
    with assms(2) have "q \<noteq> p" by metis
    with q have "cl_phase ?s q = Finished (Some e)" by simp
    then show ?thesis ..
  qed
  moreover have "cl_first ?s \<noteq> None" if "cl_phase ?s q = Finished (Some e)" for q e
    using that assms(1) by (cases "q = p") (auto simp: first_error_inv_def split: option.split)
  moreover have "cl_ctx ?s = (if cl_first ?s = None then ctx else CtxCancelled)"
    using assms(1) by (cases "cl_first s"; cases res) (simp_all add: first_error_inv_def)
  ultimately show ?thesis unfolding first_error_inv_def by blast
qed

lemma first_error_running:
  assumes "first_error_inv ctx s" and "\<And>res. cl_phase s p \<noteq> Finished res" and "\<And>res. g \<noteq> Finished res"
  shows "first_error_inv ctx (s\<lparr>cl_world := w, cl_phase := (cl_phase s)(p := g)\<rparr>)"
  using assms unfolding first_error_inv_def by simp metis

lemma first_error_step: "cleanup_step sdk y ids p s s' \<Longrightarrow> first_error_inv ctx s \<Longrightarrow> first_error_inv ctx s'"
  by (erule cleanup_stepE; simp) (auto intro!: first_error_finish first_error_running)

lemma first_error_launch: "first_error_inv ctx (launch ctx w)"
  by (simp add: first_error_inv_def launch_def)

lemma first_error_reach: "cleanup_reach sdk y ids (launch ctx w) s \<Longrightarrow> first_error_inv ctx s"
  by (induction rule: cleanup_reach.induct) (auto intro: first_error_step first_error_launch)

section \<open>What the cleanup removes\<close>

text \<open>
  The laws of the service, step by step: a request on \<open>i\<close> or the wait for its operation can
  only make the group \<open>i\<close> vanish, an accepted request answers an operation that deletes \<open>i\<close>
  (\<open>deletes op i\<close>), after a wait that succeeds \<open>i\<close> is gone, and \<open>NotFound\<close> says that it is.
\<close>

definition only_loses :: "('k \<rightharpoonup> 'a) \<Rightarrow> ('k \<rightharpoonup> 'a) \<Rightarrow> 'k \<Rightarrow> bool" where
  "only_loses m m' i \<longleftrightarrow> m' = m \<or> m' = m(i := None)"

definition removal_laws :: "'w ycsdk \<Rightarrow> 'w LoadBalancerService \<Rightarrow> ('w \<Rightarrow> string \<rightharpoonup> target_group) \<Rightarrow>
    (operation \<Rightarrow> string \<Rightarrow> bool) \<Rightarrow> bool" where
  "removal_laws sdk y tgs deletes \<longleftrightarrow>
     (\<forall>ctx i w r w'. attempt_io (TgDelete (lbs_TgSvc y) ctx i) w = (Ok r, w') \<longrightarrow>
        only_loses (tgs w) (tgs w') i \<and>
        (\<forall>op. WrapOperation sdk r = Inr op \<longrightarrow> deletes op i) \<and>
        (\<forall>e. WrapOperation sdk r = Inl e \<longrightarrow> status_Code (libs y) e = codes_NotFound \<longrightarrow> tgs w' i = None)) \<and>
     (\<forall>ctx op i w r w'. deletes op i \<longrightarrow> attempt_io (OpWait sdk ctx op) w = (Ok r, w') \<longrightarrow>
        only_loses (tgs w) (tgs w') i \<and>
        (r = Inr () \<longrightarrow> tgs w' i = None) \<and>
        (\<forall>e. r = Inl e \<longrightarrow> status_Code (libs y) e = codes_NotFound \<longrightarrow> tgs w' i = None)) \<and>
     (\<forall>op v. keeps (\<lambda>w. tgs w = v) (OpResponse sdk op))"

lemma removal_requested:
  assumes "removal_laws sdk y tgs deletes" and "attempt_io (TgDelete (lbs_TgSvc y) ctx i) w = (Ok r, w')"
  shows "only_loses (tgs w) (tgs w') i" and "WrapOperation sdk r = Inr op \<Longrightarrow> deletes op i"
    and "WrapOperation sdk r = Inl e \<Longrightarrow> status_Code (libs y) e = codes_NotFound \<Longrightarrow> tgs w' i = None"
proof -
  from assms(1) [unfolded removal_laws_def, THEN conjunct1, rule_format, OF assms(2)]
  show "only_loses (tgs w) (tgs w') i" and "WrapOperation sdk r = Inr op \<Longrightarrow> deletes op i"
    and "WrapOperation sdk r = Inl e \<Longrightarrow> status_Code (libs y) e = codes_NotFound \<Longrightarrow> tgs w' i = None" by simp_all
qed

lemma removal_waited:
  assumes "removal_laws sdk y tgs deletes" and "deletes op i"
  shows "OpWait sdk ctx op w = (Ok (), w') \<Longrightarrow> only_loses (tgs w) (tgs w') i \<and> tgs w' i = None"
    and "OpWait sdk ctx op w = (Err e, w') \<Longrightarrow> only_loses (tgs w) (tgs w') i"
    and "OpWait sdk ctx op w = (Err e, w') \<Longrightarrow> status_Code (libs y) e = codes_NotFound \<Longrightarrow> tgs w' i = None"
proof -
  note L = assms(1) [unfolded removal_laws_def, THEN conjunct2, THEN conjunct1, rule_format, OF assms(2)]
  from L [OF attempt_io_OkI] show "OpWait sdk ctx op w = (Ok (), w') \<Longrightarrow> only_loses (tgs w) (tgs w') i \<and> tgs w' i = None"
    by simp
  from L [OF attempt_io_ErrI] show "OpWait sdk ctx op w = (Err e, w') \<Longrightarrow> only_loses (tgs w) (tgs w') i"
    and "OpWait sdk ctx op w = (Err e, w') \<Longrightarrow> status_Code (libs y) e = codes_NotFound \<Longrightarrow> tgs w' i = None"
    by simp_all
qed

lemma removal_response:
  assumes "removal_laws sdk y tgs deletes" and "OpResponse sdk op w = (r, w')"
  shows "tgs w' = tgs w"
  using assms(1) [unfolded removal_laws_def, THEN conjunct2, THEN conjunct2] assms(2)
  unfolding keeps_def by (metis snd_conv)

text \<open>Where goroutine \<open>p\<close> stands tells what became of its group.\<close>

fun progress :: "(operation \<Rightarrow> string \<Rightarrow> bool) \<Rightarrow> (string \<rightharpoonup> target_group) \<Rightarrow> string \<Rightarrow> goroutine \<Rightarrow> bool" where
  "progress deletes m i Starting = True"
| "progress deletes m i (Waiting op) = deletes op i"
| "progress deletes m i (Reading op) = (m i = None)"
| "progress deletes m i (Finished res) = (res = None \<longrightarrow> m i = None)"

definition removal_inv :: "(operation \<Rightarrow> string \<Rightarrow> bool) \<Rightarrow> ('w \<Rightarrow> string \<rightharpoonup> target_group) \<Rightarrow> string list \<Rightarrow>
    (string \<rightharpoonup> target_group) \<Rightarrow> 'w cleanup \<Rightarrow> bool" where
  "removal_inv deletes tgs ids m0 s \<longleftrightarrow>
     (\<forall>i. tgs (cl_world s) i = m0 i \<or> i \<in> set ids \<and> tgs (cl_world s) i = None) \<and>
     (\<forall>p<length ids. progress deletes (tgs (cl_world s)) (ids ! p) (cl_phase s p))"

lemma progress_loses:
  "only_loses m m' j \<Longrightarrow> progress deletes m i g \<Longrightarrow> progress deletes m' i g"
  by (cases g) (auto simp: only_loses_def)

lemma removal_inv_step:
  assumes "removal_inv deletes tgs ids m0 s" and "p < length ids" and "only_loses (tgs (cl_world s)) (tgs (cl_world s')) (ids ! p)"
    and "cl_phase s' = (cl_phase s)(p := g)" and "progress deletes (tgs (cl_world s')) (ids ! p) g"
  shows "removal_inv deletes tgs ids m0 s'"
  unfolding removal_inv_def
proof (intro conjI allI impI)
  fix i
  from assms(1) have "tgs (cl_world s) i = m0 i \<or> i \<in> set ids \<and> tgs (cl_world s) i = None"
    unfolding removal_inv_def by blast
  moreover from assms(2) have "ids ! p \<in> set ids" by simp
  ultimately show "tgs (cl_world s') i = m0 i \<or> i \<in> set ids \<and> tgs (cl_world s') i = None"
    using assms(3) unfolding only_loses_def by (metis fun_upd_apply)
next
  fix q assume "q < length ids"
  with assms(1) have "progress deletes (tgs (cl_world s)) (ids ! q) (cl_phase s q)" unfolding removal_inv_def by blast
  with assms(3-5) show "progress deletes (tgs (cl_world s')) (ids ! q) (cl_phase s' q)"
    by (cases "q = p") (auto intro: progress_loses)
qed

lemma removal_inv_at: "removal_inv deletes tgs ids m0 s \<Longrightarrow> p < length ids \<Longrightarrow> cl_phase s p = g \<Longrightarrow>
    progress deletes (tgs (cl_world s)) (ids ! p) g"
  unfolding removal_inv_def by blast

lemma only_loses_refl [simp]: "only_loses m m i"
  by (simp add: only_loses_def)

lemma cleanup_step_removes:
  assumes L: "removal_laws sdk y tgs deletes" and "cleanup_step sdk y ids p s s'" and I: "removal_inv deletes tgs ids m0 s"
  shows "removal_inv deletes tgs ids m0 s'"
  using assms(2)
proof cases
  case (requested r w op)
  with removal_requested [OF L requested(4)] I show ?thesis by (intro removal_inv_step [OF I, where g = "Waiting op"]) simp_all
next
  case (rejected r w err)
  with removal_requested [OF L rejected(4)] I show ?thesis
    by (intro removal_inv_step [OF I, where g = "Finished (removal_error y err)"]) (auto simp: removal_error_def)
next
  case (waited op w)
  with removal_inv_at [OF I waited(2,3)] have "deletes op (ids ! p)" by simp
  from waited removal_waited(1) [OF L this waited(4)] show ?thesis
    by (intro removal_inv_step [OF I, where g = "Reading op"]) auto
next
  case (wait_failed op err w)
  with removal_inv_at [OF I wait_failed(2,3)] have "deletes op (ids ! p)" by simp
  from wait_failed removal_waited(2,3) [OF L this wait_failed(4)] show ?thesis
    by (intro removal_inv_step [OF I, where g = "Finished (removal_error y err)"]) (auto simp: removal_error_def)
next
  case (answered op m w)
  with removal_inv_at [OF I answered(2,3)] removal_response [OF L answered(4)] I show ?thesis
    by (intro removal_inv_step [OF I, where g = "Finished None"]) simp_all
next
  case (unanswered op err w)
  with removal_inv_at [OF I unanswered(2,3)] removal_response [OF L unanswered(4)] I show ?thesis
    by (intro removal_inv_step [OF I, where g = "Finished (removal_error y err)"]) auto
qed

lemma cleanup_reach_removes:
  assumes "removal_laws sdk y tgs deletes" and "cleanup_reach sdk y ids (launch ctx w) s"
  shows "removal_inv deletes tgs ids (tgs w) s"
  using assms(2)
proof (induction rule: cleanup_reach.induct)
  case cleanup_start
  show ?case by (simp add: removal_inv_def launch_def)
next
  case (cleanup_more s p s')
  then show ?case by (blast intro: cleanup_step_removes [OF assms(1)])
qed

text \<open>No error recorded means that no goroutine failed.\<close>

lemma no_error_all_removed:
  assumes "removal_laws sdk y tgs deletes" and "cleanup_reach sdk y ids (launch ctx w) s" and "all_finished ids s"
    and "cl_first s = None"
  shows "tgs (cl_world s) = (\<lambda>i. if i \<in> set ids then None else tgs w i)"
proof
  fix i
  note I = cleanup_reach_removes [OF assms(1,2)]
  show "tgs (cl_world s) i = (if i \<in> set ids then None else tgs w i)"
  proof (cases "i \<in> set ids")
    case True
    then obtain p where p: "p < length ids" "ids ! p = i" by (auto simp: in_set_conv_nth)
    with assms(3) obtain res where res: "cl_phase s p = Finished res" by (auto simp: all_finished_def)
    with first_error_reach [OF assms(2)] assms(4) have "res = None"
      unfolding first_error_inv_def by (cases res) blast+
    with removal_inv_at [OF I p(1) res] p True show ?thesis by simp
  next
    case False
    from I have "tgs (cl_world s) i = tgs w i \<or> i \<in> set ids \<and> tgs (cl_world s) i = None"
      unfolding removal_inv_def by blast
    with False show ?thesis by simp
  qed
qed

section \<open>The schedule of the syncer is a run\<close>

lemma finish_collapse:
  "finish p res (s\<lparr>cl_world := w, cl_phase := (cl_phase s)(p := g)\<rparr>) = finish p res (s\<lparr>cl_world := w\<rparr>)"
  "finish p res (s\<lparr>cl_phase := (cl_phase s)(p := g), cl_world := w\<rparr>) = finish p res (s\<lparr>cl_world := w\<rparr>)"
  by (simp_all add: finish_def Let_def split: option.split)

text \<open>What a call of \<open>RemoveTGByID\<close> answers, goroutine \<open>p\<close> comes to in one to three steps.\<close>

definition outcome_error :: "error + unit \<Rightarrow> error option" where
  "outcome_error r = (case r of Inl e \<Rightarrow> Some e | Inr _ \<Rightarrow> None)"

lemma outcome_error_simps [simp]: "outcome_error (Inl e) = Some e" "outcome_error (Inr u) = None"
  by (simp_all add: outcome_error_def)

lemma cleanup_one: "cleanup_step sdk y ids p s s' \<Longrightarrow> cleanup_reach sdk y ids s s'"
  by (rule cleanup_more [OF cleanup_start])

lemma goroutine_run:
  assumes waiter: "OperationWaiter (cloudCtx y) = opWaiter sdk"
    and "attempt_io (RemoveTGByID y (cl_ctx s) (ids ! p)) (cl_world s) = (Ok r, w')"
    and p: "p < length ids" "cl_phase s p = Starting"
  shows "cleanup_reach sdk y ids s (finish p (outcome_error r) (s\<lparr>cl_world := w'\<rparr>))"
proof -
  let ?del = "TgDelete (lbs_TgSvc y) (cl_ctx s) (ids ! p)"
  obtain q where q: "opWaiter sdk (cl_ctx s) ?del (cl_world s) = (q, w')"
    and r: "case q of Ok _ \<Rightarrow> r = Inr () | Abort a \<Rightarrow> False
      | Err e \<Rightarrow> outcome_error r = removal_error y e"
    using assms(2) unfolding attempt_io_Ok_iff RemoveTGByID_def waiter skipNotFound_Ok_iff skipNotFound_Err_iff
    by (auto simp: removal_error_def split: sum.splits)
  obtain a w1 where a: "attempt_io ?del (cl_world s) = (a, w1)" by fastforce
  show ?thesis
  proof (cases a)
    case (Ok d)
    with a have d: "attempt_io ?del (cl_world s) = (Ok d, w1)" by simp
    show ?thesis
    proof (cases "WrapOperation sdk d")
      case (Inl e)
      with q d have "q = Err e" "w' = w1" by (auto simp: opWaiter_def bind_io_OkI)
      with r cleanup_step.rejected [OF p d Inl] show ?thesis by (auto intro: cleanup_one)
    next
      case (Inr op)
      let ?s1 = "s\<lparr>cl_world := w1, cl_phase := (cl_phase s)(p := Waiting op)\<rparr>"
      note first = cleanup_one [OF cleanup_step.requested [OF p d Inr]]
      obtain b w2 where b: "OpWait sdk (cl_ctx s) op w1 = (b, w2)" by fastforce
      show ?thesis
      proof (cases b)
        case (Err e)
        with q d Inr b have q': "q = Err e" "w' = w2" by (auto simp: opWaiter_def bind_io_def)
        from Err b have "cleanup_step sdk y ids p ?s1 (finish p (removal_error y e) (?s1\<lparr>cl_world := w2\<rparr>))"
          using p by (intro cleanup_step.wait_failed) simp_all
        with first q' r show ?thesis by (auto intro: cleanup_more simp: finish_collapse)
      next
        case (Abort x)
        with q d Inr b have "q = Abort x" by (auto simp: opWaiter_def bind_io_def)
        with r show ?thesis by simp
      next
        case (Ok u)
        let ?s2 = "s\<lparr>cl_world := w2, cl_phase := (cl_phase s)(p := Reading op)\<rparr>"
        from Ok b p have "cleanup_step sdk y ids p ?s1 (?s1\<lparr>cl_world := w2, cl_phase := (cl_phase ?s1)(p := Reading op)\<rparr>)"
          by (intro cleanup_step.waited) simp_all
        with first have second: "cleanup_reach sdk y ids s ?s2" by (auto intro: cleanup_more)
        from q d Inr b Ok have "OpResponse sdk op w2 = (q, w')" by (auto simp: opWaiter_def bind_io_def)
        with p r have "cleanup_step sdk y ids p ?s2 (finish p (outcome_error r) (?s2\<lparr>cl_world := w'\<rparr>))"
          using cleanup_step.answered [of p ids ?s2 op] cleanup_step.unanswered [of p ids ?s2 op] by (cases q) auto
        with second show ?thesis by (auto intro: cleanup_more simp: finish_collapse)
      qed
    qed
  qed (use q r a in \<open>auto simp: opWaiter_def bind_io_def\<close>)
qed

lemma errgroup_runs:
  assumes waiter: "OperationWaiter (cloudCtx y) = opWaiter sdk"
    and "errgroup (\<lambda>ctx. RemoveTGByID y ctx) (cl_ctx s) (cl_first s) xs (cl_world s) = (Ok first, w')"
    and "ids = pre @ xs" and "\<And>p. p < length pre \<Longrightarrow> \<exists>res. cl_phase s p = Finished res"
    and "\<And>p. length pre \<le> p \<Longrightarrow> cl_phase s p = Starting"
  shows "\<exists>s'. cleanup_reach sdk y ids s s' \<and> all_finished ids s' \<and> cl_first s' = first \<and> cl_world s' = w'"
  using assms(2-)
proof (induction xs arbitrary: s pre)
  case Nil
  then have "all_finished ids s" "cl_first s = first" "cl_world s = w'" by (simp_all add: all_finished_def)
  then show ?case by (blast intro: cleanup_start)
next
  case (Cons i xs)
  then obtain r w1 where one: "attempt_io (RemoveTGByID y (cl_ctx s) i) (cl_world s) = (Ok r, w1)"
    and rest: "(case r of Inr _ \<Rightarrow> errgroup (\<lambda>ctx. RemoveTGByID y ctx) (cl_ctx s) (cl_first s) xs
      | Inl err \<Rightarrow> errgroup (\<lambda>ctx. RemoveTGByID y ctx) CtxCancelled
          (case cl_first s of None \<Rightarrow> Some err | Some e \<Rightarrow> Some e) xs) w1 = (Ok first, w')"
    by (auto simp: bind_io_Ok_iff)
  let ?p = "length pre"
  let ?s = "finish ?p (outcome_error r) (s\<lparr>cl_world := w1\<rparr>)"
  from Cons.prems one have "cleanup_reach sdk y ids s ?s" by (intro goroutine_run [OF waiter]) simp_all
  moreover have "\<exists>s'. cleanup_reach sdk y ids ?s s' \<and> all_finished ids s' \<and> cl_first s' = first \<and> cl_world s' = w'"
  proof (rule Cons.IH [where pre = "pre @ [i]"])
    show "errgroup (\<lambda>ctx. RemoveTGByID y ctx) (cl_ctx ?s) (cl_first ?s) xs (cl_world ?s) = (Ok first, w')"
      using rest by (cases r; cases "cl_first s") simp_all
  qed (use Cons.prems in \<open>auto simp: less_Suc_eq\<close>)
  ultimately show ?case by (blast intro: cleanup_reach_trans)
qed

lemma errgroup_over_ids:
  "errgroup (\<lambda>ctx x. f ctx (key x)) ctx first xs = errgroup f ctx first (map key xs)"
  by (induction xs arbitrary: ctx first) (auto split: sum.split intro!: arg_cong2 [where f = bind_io])

lemma errgroup_not_Err: "errgroup f ctx first xs w \<noteq> (Err e, w')"
  by (induction xs arbitrary: ctx first w)
    (auto simp: bind_io_def attempt_io_def split: prod.split outcome.split)

end
