(* ===== verification/CleanupProperties.thy ===== *)
theory CleanupProperties
  imports Cleanup Examples
begin

text \<open>
  The properties of the goroutines of \<open>cleanUpTargetGroups\<close>, in any interleaving, and a
  cloud in memory whose requests answer operations, so that a group goes only when its
  operation is waited for, and whose clients refuse a cancelled context.
\<close>

section \<open>A cloud whose deletions take time\<close>

definition async_sdk :: "sim_world ycsdk" where
  "async_sdk = sim_sdk
     \<lparr>OpWait := (\<lambda>ctx op w. case op of Operation i \<Rightarrow>
        if ctx = CtxCancelled then (Err (RpcError (codes_Other 1) ''cancelled''), w)
        else (Ok (), w\<lparr>w_tgs := st_delete tg_Id i (w_tgs w)\<rparr>)),
      sdk_TargetGroup := sim_tg\<lparr>TgDelete := (\<lambda>ctx i w.
        if ctx = CtxCancelled then (Err (RpcError (codes_Other 1) ''cancelled''), w)
        else if sim_tgs w i = None then sim_missing i w
        else (Ok (Operation i), w))\<rparr>\<rparr>"

definition async_y :: "sim_world YandexCloudAPI" where
  "async_y = sim_built async_sdk"

definition async_deletes :: "operation \<Rightarrow> string \<Rightarrow> bool" where
  "async_deletes op i \<longleftrightarrow> op = Operation i"

lemma async_removal_laws: "removal_laws async_sdk (LbSvc async_y) sim_tgs async_deletes"
  unfolding removal_laws_def
proof (intro conjI allI)
  fix op v show "keeps (\<lambda>w. sim_tgs w = v) (OpResponse async_sdk op)"
    by (simp add: keeps_def async_y_def async_sdk_def sim_sdk_def sim_api_def)
qed (auto simp: async_y_def async_sdk_def sim_sdk_def sim_api_def async_deletes_def only_loses_def attempt_io_def sim_missing_def
    sim_tgs_def st_view_delete sim_code_def split: if_splits operation.splits)

definition ex_ids :: "string list" where
  "ex_ids = [''idclusternet-a'', ''idmy-cluster-2net'']"

text \<open>Both requests are sent, then the second goroutine finishes first.\<close>

lemma ex_interleaved:
  "\<exists>s. cleanup_turns async_sdk (LbSvc async_y) ex_ids [0, 1, 1, 0, 1, 0] (launch CtxLive ex_two_clusters) = Some s \<and>
     all_finished ex_ids s \<and> cl_first s = None \<and> w_tgs (cl_world s) = [ex_group ''othernet'' []]"
  by (simp add: cleanup_turn_def async_y_def async_sdk_def sim_sdk_def sim_api_def ex_ids_def launch_def ex_two_clusters_def
      ex_group_def sim_empty_def attempt_io_def sim_tgs_def st_view_def st_delete_def finish_def all_finished_def
      less_Suc_eq_0_disj all_conj_distrib)

section \<open>The properties\<close>

text \<open>C15: 
  However the goroutines of the cleanup interleave (requests, waits and responses of one
  between those of another, the shared context cancelled by whoever fails first), when all
  of them have finished and none recorded an error, every listed group is gone and every
  other group is as it was.
\<close>

theorem cleanup_removes_in_any_order:
  assumes "removal_laws sdk (LbSvc (yandexService cloud)) tgs deletes"
    and "cleanup_reach sdk (LbSvc (yandexService cloud)) (map tg_Id listed) (launch ctx w) s"
    and "all_finished (map tg_Id listed) s" and "cl_first s = None"
  shows "tgs (cl_world s) i = (if i \<in> tg_Id ` set listed then None else tgs w i)"
  using no_error_all_removed [OF assms] by simp

definition async_cloud :: "sim_world Cloud" where
  "async_cloud = sim_cloud\<lparr>yandexService := async_y\<rparr>"

lemma async_cloud_y [simp]: "yandexService async_cloud = async_y"
  by (simp add: async_cloud_def)

definition ex_listed :: "target_group list" where
  "ex_listed = [ex_group ''clusternet-a'' [], ex_group ''my-cluster-2net'' []]"

lemma ex_listed_ids: "map tg_Id ex_listed = ex_ids"
  by (simp add: ex_listed_def ex_ids_def ex_group_def)

theorem cleanup_removes_in_any_order_witness:
  "\<exists>s. cleanup_turns async_sdk (LbSvc async_y) ex_ids [0, 1, 1, 0, 1, 0] (launch CtxLive ex_two_clusters) = Some s \<and>
     sim_tgs (cl_world s) ''idmy-cluster-2net'' = None \<and>
     sim_tgs (cl_world s) ''idothernet'' = sim_tgs ex_two_clusters ''idothernet''"
proof -
  from ex_interleaved obtain s where run: "cleanup_turns async_sdk (LbSvc async_y) ex_ids [0, 1, 1, 0, 1, 0] (launch CtxLive ex_two_clusters) = Some s"
    and fin: "all_finished ex_ids s" "cl_first s = None" by blast
  have laws: "removal_laws async_sdk (LbSvc (yandexService async_cloud)) sim_tgs async_deletes" by (simp add: async_removal_laws)
  have "sim_tgs (cl_world s) i = (if i \<in> tg_Id ` set ex_listed then None else sim_tgs ex_two_clusters i)" for i
    by (rule cleanup_removes_in_any_order [OF laws, of _ CtxLive])
      (use cleanup_turns_reach [OF run] fin in \<open>simp_all add: ex_listed_ids\<close>)
  moreover have "tg_Id ` set ex_listed = {''idclusternet-a'', ''idmy-cluster-2net''}"
    by (simp add: ex_listed_def ex_group_def)
  ultimately show ?thesis using run by simp
qed

text \<open>C19: 
  The sequential cleanup is one of the runs: when \<open>cleanUpTargetGroups\<close> returns after a
  listing, there is a run of the goroutines in which each went through the same requests,
  all finished, with the same state of the cloud, whose first error is the error returned,
  and the nodes seen are forgotten exactly when there was none.
\<close>

theorem cleanup_is_a_run:
  assumes "NewYandexCloudAPI lib build creds regionID folderID = Ok (yandexService cloud)" and "build creds = Ok sdk"
    and "GetTGsByClusterName (LbSvc (yandexService cloud)) ctx (ClusterName (config cloud)) (world s) = (Ok listed, w)"
    and "cleanUpTargetGroups cloud ctx s = (r, s')" and "\<nexists>p. r = Abort p"
  shows "\<exists>q. cleanup_reach sdk (LbSvc (yandexService cloud))
        (map tg_Id (go_schedule (libs (yandexService cloud)) listed w)) (launch ctx w) q \<and>
      all_finished (map tg_Id (go_schedule (libs (yandexService cloud)) listed w)) q \<and> cl_world q = world s' \<and>
      (case cl_first q of
         None \<Rightarrow> r = Ok () \<and> visited_nodes s' = Some {}
       | Some e \<Rightarrow> r = Err e \<and> visited_nodes s' = visited_nodes s)"
proof -
  let ?y = "yandexService cloud"
  let ?ids = "map tg_Id (go_schedule (libs ?y) listed w)"
  obtain f w' where eg: "errgroup (RemoveTGByID (LbSvc ?y)) ctx None ?ids w = (f, w')" by fastforce
  from assms(3,4) have run: "bind_io (on_world (errgroup (RemoveTGByID (LbSvc ?y)) ctx None ?ids)) (\<lambda>first.
      case first of Some err \<Rightarrow> fail_io err | None \<Rightarrow> setVisitedNodes {}) (s\<lparr>world := w\<rparr>) = (r, s')"
    by (simp add: cleanUpTargetGroups_def bind_io_def on_world_def
        errgroup_over_ids [of "RemoveTGByID (LbSvc ?y)" tg_Id])
  with eg assms(5) obtain first where first: "f = Ok first"
    by (cases f) (auto simp: bind_io_def on_world_def errgroup_not_Err)
  have waiter: "OperationWaiter (cloudCtx (LbSvc ?y)) = opWaiter sdk"
    using NewYandexCloudAPI_wired(1,4) [OF assms(1,2)] by simp
  from first eg errgroup_runs [OF waiter, of "launch ctx w" ?ids first w' ?ids "[]"] obtain q
    where q: "cleanup_reach sdk (LbSvc ?y) ?ids (launch ctx w) q" "all_finished ?ids q" "cl_first q = first" "cl_world q = w'"
    by (auto simp: launch_def)
  moreover have "w' = world s' \<and> (case first of None \<Rightarrow> r = Ok () \<and> visited_nodes s' = Some {}
       | Some e \<Rightarrow> r = Err e \<and> visited_nodes s' = visited_nodes s)"
    using run eg first assms(5)
    by (cases first) (auto simp: bind_io_def on_world_def setVisitedNodes_def visited_nodes_def split: option.splits)
  ultimately show ?thesis by blast
qed

theorem cleanup_is_a_run_witness:
  "\<exists>q. cleanup_reach sim_sdk (LbSvc sim_y) ex_ids (launch CtxLive ex_two_clusters) q \<and> all_finished ex_ids q \<and>
     w_tgs (cl_world q) = [ex_group ''othernet'' []] \<and> cl_first q = None"
proof -
  have list: "GetTGsByClusterName (LbSvc (yandexService sim_cloud)) CtxLive (ClusterName (config sim_cloud)) (world (ex_state ex_two_clusters)) =
      (Ok ex_listed, ex_two_clusters)"
    by (simp add: GetTGsByClusterName_def bind_io_def sim_api_def ex_two_clusters_def ex_group_def sim_empty_def
        sim_list_def strings_HasPrefix_def ex_listed_def)
  have built: "NewYandexCloudAPI sim_packages (\<lambda>c. Ok sim_sdk) [] ''ru-central1'' ''folder'' = Ok (yandexService sim_cloud)"
    using sim_built [of sim_sdk "[]"] by (simp add: sim_y_def)
  from cleanup_is_a_run [OF built refl list ex_cleanup_run] obtain q
    where "cleanup_reach sim_sdk (LbSvc sim_y) ex_ids (launch CtxLive ex_two_clusters) q" "all_finished ex_ids q"
      "cl_world q = sim_empty\<lparr>w_tgs := [ex_group ''othernet'' []], w_reply := MsgOther ''empty''\<rparr>"
      "case cl_first q of None \<Rightarrow> True | Some e \<Rightarrow> False"
    by (auto simp: sim_api_def ex_listed_ids split: option.splits)
  then show ?thesis by (auto simp: sim_empty_def split: option.splits)
qed

end
