(* ===== verification/NodeCache.thy ===== *)
theory NodeCache
  imports TgSyncer
begin

text \<open>
  The node set that the syncer remembers (\<open>lastVisitedNodes\<close> in
  \<open>load_balancer_tg_controller.go\<close>) is a cache: when the names are those of the last
  successful run, the run is skipped. This theory says when that is right. A history is a
  sequence of successful runs and of anything else that leaves the groups and the syncer
  alone; in every state of a history the groups hold the plan of the remembered nodes, so a
  skipped run leaves what a full one would.
\<close>

section \<open>What a plan asks of the groups\<close>

definition planned_targets :: "(string \<times> target) set \<Rightarrow> string \<Rightarrow> target set" where
  "planned_targets P n = snd ` {p \<in> P. fst p = n}"

definition groups_hold :: "('w \<Rightarrow> string \<rightharpoonup> target_group) \<Rightarrow> 'w \<Rightarrow> (string \<times> target) set \<Rightarrow> bool" where
  "groups_hold tgs w P \<longleftrightarrow> (\<forall>n\<in>fst ` P. tg_groups tgs w n = {planned_targets P n})"

lemma groups_hold_cong: "tgs w = tgs w' \<Longrightarrow> groups_hold tgs w P \<longleftrightarrow> groups_hold tgs w' P"
  by (simp add: groups_hold_def tg_groups_def)

lemma groups_hold_grouped:
  assumes "\<And>n. tg_groups tgs w n = (case grouped ps n of Some ts \<Rightarrow> {set ts} | None \<Rightarrow> G n)"
  shows "groups_hold tgs w (set ps)"
  unfolding groups_hold_def
proof
  fix n assume "n \<in> fst ` set ps"
  then obtain ts where ts: "grouped ps n = Some ts" using grouped_None_iff [of ps n] by auto
  with assms [of n] grouped_Some_targets [OF ts] show "tg_groups tgs w n = {planned_targets (set ps) n}"
    by (simp add: planned_targets_def)
qed

text \<open>As a set, the plan depends on the set of the nodes only.\<close>

lemma syncPlan_set:
  "set (syncPlan cluster net inst nodes) =
     (\<Union>nd\<in>{nd \<in> set nodes. is_yandex nd}. iface_pair cluster net nd ` set (i_NetworkInterfaces (inst (n_Name nd))))"
  by (auto simp: syncPlan_def planned_def found_instances_def)

lemma syncPlan_cong: "set nodes = set nodes' \<Longrightarrow>
    set (syncPlan cluster net inst nodes) = set (syncPlan cluster net inst nodes')"
  by (simp add: syncPlan_set)

section \<open>Histories\<close>

text \<open>The nodes that calls are made with: a name stands for one node and one instance.\<close>

definition fleet_laws :: "'w Cloud \<Rightarrow> (string \<Rightarrow> cloud_instance) \<Rightarrow> (string \<Rightarrow> string) \<Rightarrow> node set \<Rightarrow> bool" where
  "fleet_laws cloud inst net N \<longleftrightarrow>
     inj_on n_Name N \<and> subnets_known cloud net \<and>
     (\<forall>nd\<in>N. n_ProviderID nd \<noteq> [] \<and> nodes_known cloud inst [nd] \<and>
        (\<forall>f\<in>set (i_NetworkInterfaces (inst (n_Name nd))). CHR '':'' \<notin> set (ni_SubnetId f)))"

definition store_laws :: "'w Cloud \<Rightarrow> ('w \<Rightarrow> string \<rightharpoonup> target_group) \<Rightarrow> bool" where
  "store_laws cloud tgs \<longleftrightarrow>
     tg_service_laws (LbSvc (yandexService cloud)) tgs \<and> tg_cleanup_laws (LbSvc (yandexService cloud)) tgs \<and>
     lists_sets (StringSet_List (libs (LbSvc (yandexService cloud)))) \<and> fair_orders (libs (yandexService cloud)) \<and>
     (\<forall>l w. tgs (snd (ServiceList (libs (yandexService cloud)) l w)) = tgs w)"

inductive sync_history :: "'w Cloud \<Rightarrow> ('w \<Rightarrow> string \<rightharpoonup> target_group) \<Rightarrow> node set \<Rightarrow>
    'w cloud_state \<Rightarrow> 'w cloud_state \<Rightarrow> bool"
  for cloud tgs N s0 where
  history_start: "sync_history cloud tgs N s0 s0"
| history_sync: "sync_history cloud tgs N s0 s \<Longrightarrow> set nodes \<subseteq> N \<Longrightarrow>
    SyncTGs cloud ctx nodes s = (Ok u, s') \<Longrightarrow> sync_history cloud tgs N s0 s'"
| history_other: "sync_history cloud tgs N s0 s \<Longrightarrow> tgs (world s') = tgs (world s) \<Longrightarrow>
    nodeTargetGroupSyncer s' = nodeTargetGroupSyncer s \<Longrightarrow> sync_history cloud tgs N s0 s'"

definition cache_inv :: "'w Cloud \<Rightarrow> (string \<Rightarrow> cloud_instance) \<Rightarrow> (string \<Rightarrow> string) \<Rightarrow>
    ('w \<Rightarrow> string \<rightharpoonup> target_group) \<Rightarrow> node set \<Rightarrow> 'w cloud_state \<Rightarrow> bool" where
  "cache_inv cloud inst net tgs N s \<longleftrightarrow>
     tgs_colon_free tgs (world s) \<and>
     (\<forall>nodes. set nodes \<subseteq> N \<longrightarrow> nodes \<noteq> [] \<longrightarrow> visited_nodes s = Some (n_Name ` set nodes) \<longrightarrow>
        groups_hold tgs (world s) (set (syncPlan (ClusterName (config cloud)) net inst nodes)))"

lemma nodes_known_all:
  assumes "fleet_laws cloud inst net N" and "set nodes \<subseteq> N"
  shows "nodes_known cloud inst nodes" and "subnets_known cloud net" and "\<forall>nd\<in>set nodes. n_ProviderID nd \<noteq> []"
    and "\<forall>p\<in>set (syncPlan (ClusterName (config cloud)) net inst nodes). CHR '':'' \<notin> set (t_SubnetId (snd p))"
  using assms by (auto simp: fleet_laws_def nodes_known_def syncPlan_set iface_pair_def)

lemma same_names_same_nodes:
  assumes "fleet_laws cloud inst net N" and "set nodes \<subseteq> N" and "set nodes' \<subseteq> N"
    and "n_Name ` set nodes = n_Name ` set nodes'"
  shows "set nodes = set nodes'"
  using assms by (meson fleet_laws_def inj_on_image_eq_iff)

section \<open>The cleanup only removes\<close>

lemma cleanUp_only_removes:
  assumes laws: "store_laws cloud tgs" and run: "cleanUpTargetGroups cloud ctx s = (Ok u, s')"
  shows "tgs (world s') \<subseteq>\<^sub>m tgs (world s)" and "visited_nodes s' = Some {}"
proof -
  let ?y = "yandexService cloud" and ?cn = "ClusterName (config cloud)"
  from run obtain xs w1 w2 where
    list: "TgList (lbs_TgSvc (LbSvc ?y)) ctx \<lparr>lr_FolderId = FolderID (cloudCtx (LbSvc ?y)), lr_PageSize = 1000, lr_Filter = []\<rparr> (world s) = (Ok xs, w1)" and
    eg: "errgroup (\<lambda>ctx tg. RemoveTGByID (LbSvc ?y) ctx (tg_Id tg)) ctx None
        (go_schedule (libs ?y) (filter (\<lambda>tg. strings_Contains (tg_Name tg) ?cn) xs) w1) w1 = (Ok None, w2)" and
    s': "world s' = w2" "visited_nodes s' = Some {}"
    by (auto simp: cleanUpTargetGroups_def GetTGsByClusterName_def bind_io_Ok_iff on_world_Ok_iff
        split: option.splits dest: setVisitedNodes_Ok)
  from laws have L: "tg_service_laws (LbSvc ?y) tgs" "tg_cleanup_laws (LbSvc ?y) tgs" by (simp_all add: store_laws_def)
  from tg_law_page [OF L(2) list] have "tgs w1 = tgs (world s)" by simp
  with errgroup_None [OF eg, where view = tgs and key = tg_Id, OF RemoveTGByID_removes [OF L]] s'
  show "tgs (world s') \<subseteq>\<^sub>m tgs (world s)" and "visited_nodes s' = Some {}" by (auto simp: map_le_def)
qed

lemma colon_free_submap: "tgs w' \<subseteq>\<^sub>m tgs w \<Longrightarrow> tgs_colon_free tgs w \<Longrightarrow> tgs_colon_free tgs w'"
  unfolding tgs_colon_free_def
proof
  assume sub: "tgs w' \<subseteq>\<^sub>m tgs w" and all: "\<forall>t\<in>ran (tgs w). colon_free (tg_Targets t)"
  fix t assume "t \<in> ran (tgs w')"
  then obtain i where "tgs w' i = Some t" by (auto simp: ran_def)
  with sub have "tgs w i = Some t" by (auto simp: map_le_def dom_def)
  with all show "colon_free (tg_Targets t)" by (auto simp: ran_def)
qed

section \<open>The invariant of histories\<close>

lemma putMapping_ready:
  assumes "putMapping cloud ctx mapping w = (Ok u, w')" and "tg_ready (LbSvc (yandexService cloud)) tgs w"
    and "\<And>n ts. mapping n = Some ts \<Longrightarrow> colon_free ts"
  shows "tg_ready (LbSvc (yandexService cloud)) tgs w'"
  using tg_writer.put_each [OF assms(1) [unfolded putMapping_def] assms(2)] assms(3) by blast

lemma synchronize_colon_free:
  assumes known: "nodes_known cloud inst nodes" "subnets_known cloud net"
    and ids: "\<forall>nd\<in>set nodes. n_ProviderID nd \<noteq> []"
    and new: "nodes \<noteq> []" "visited_nodes s = Some visited" "visited \<noteq> n_Name ` set nodes"
    and ready: "tg_ready (LbSvc (yandexService cloud)) tgs (world s)"
    and cf: "\<forall>p\<in>set (syncPlan (ClusterName (config cloud)) net inst nodes). CHR '':'' \<notin> set (t_SubnetId (snd p))"
    and run: "synchronizeNodesWithTargetGroups cloud ctx nodes s = (Ok u, s')"
  shows "tgs_colon_free tgs (world s')"
proof -
  let ?ps = "syncPlan (ClusterName (config cloud)) net inst nodes"
  from run obtain w' where put: "putMapping cloud ctx (grouped ?ps) (world s) = (Ok (), w')" and "world s' = w'"
    by (auto simp: synchronize_run [OF known ids new] Let_def bind_io_Ok_iff on_world_Ok_iff
        split: if_splits dest: setVisitedNodes_Ok)
  with putMapping_ready [OF put ready grouped_colon_free [OF _ cf]] show ?thesis by (simp add: tg_ready_def)
qed

lemma cache_inv_same:
  assumes "cache_inv cloud inst net tgs N s" and "tgs (world s') = tgs (world s)" and "visited_nodes s' = visited_nodes s"
  shows "cache_inv cloud inst net tgs N s'"
  using assms by (simp add: cache_inv_def groups_hold_cong [where tgs = tgs, OF assms(2)] tgs_colon_free_def)

lemma cache_inv_visited:
  assumes F: "fleet_laws cloud inst net N" and sub: "set nodes \<subseteq> N"
    and v: "visited_nodes s = Some (n_Name ` set nodes)" and cf: "tgs_colon_free tgs (world s)"
    and hold: "groups_hold tgs (world s) (set (syncPlan (ClusterName (config cloud)) net inst nodes))"
  shows "cache_inv cloud inst net tgs N s"
proof -
  have "groups_hold tgs (world s) (set (syncPlan (ClusterName (config cloud)) net inst nodes'))"
    if "set nodes' \<subseteq> N" "visited_nodes s = Some (n_Name ` set nodes')" for nodes'
  proof -
    from that(2) v have "n_Name ` set nodes = n_Name ` set nodes'" by simp
    then have same: "set nodes = set nodes'" by (rule same_names_same_nodes [OF F sub that(1)])
    with hold show ?thesis by (simp only: syncPlan_cong [OF same])
  qed
  with cf show ?thesis by (simp add: cache_inv_def)
qed

lemma cache_inv_synchronize:
  assumes F: "fleet_laws cloud inst net N" and L: "store_laws cloud tgs" and I: "cache_inv cloud inst net tgs N s"
    and sub: "set nodes \<subseteq> N" and v: "visited_nodes s = Some visited"
    and run: "synchronizeNodesWithTargetGroups cloud ctx nodes s = (Ok u, s')"
  shows "cache_inv cloud inst net tgs N s' \<and> (nodes \<noteq> [] \<longrightarrow>
    groups_hold tgs (world s') (set (syncPlan (ClusterName (config cloud)) net inst nodes)))"
proof (cases "nodes = [] \<or> visited = n_Name ` set nodes")
  case True
  from v obtain ntgs where "nodeTargetGroupSyncer s = Some ntgs" "lastVisitedNodes ntgs = visited"
    by (auto simp: visited_nodes_Some_iff)
  with True run have "s' = s"
    by (cases "nodes = []")
      (simp_all add: synchronizeNodesWithTargetGroups_def fromNodeToInterfaceSlice_def theSyncer_def bind_io_def Let_def)
  with True I sub v show ?thesis by (auto simp: cache_inv_def)
next
  case False
  then have new: "nodes \<noteq> []" "visited \<noteq> n_Name ` set nodes" by simp_all
  note K = nodes_known_all [OF F sub]
  have ready: "tg_ready (LbSvc (yandexService cloud)) tgs (world s)"
    using L I by (simp add: tg_ready_def store_laws_def cache_inv_def)
  have fair: "fair_orders (libs (yandexService cloud))" using L by (simp add: store_laws_def)
  note P = synchronize_puts [OF K(1,2,3) new(1) v new(2) ready fair K(4) run]
  have hold: "groups_hold tgs (world s') (set (syncPlan (ClusterName (config cloud)) net inst nodes))"
    by (rule groups_hold_grouped) (rule P(1))
  with cache_inv_visited [OF F sub P(2) synchronize_colon_free [OF K(1,2,3) new(1) v new(2) ready K(4) run] hold]
  show ?thesis by simp
qed

lemma cache_inv_sync:
  assumes F: "fleet_laws cloud inst net N" and L: "store_laws cloud tgs" and I: "cache_inv cloud inst net tgs N s"
    and sub: "set nodes \<subseteq> N" and run: "SyncTGs cloud ctx nodes s = (Ok u, s')"
  shows "cache_inv cloud inst net tgs N s' \<and> (nodes \<noteq> [] \<longrightarrow>
    groups_hold tgs (world s') (set (syncPlan (ClusterName (config cloud)) net inst nodes)))"
proof -
  from run obtain ntgs where n: "nodeTargetGroupSyncer s = Some ntgs"
    by (auto simp: SyncTGs_run split: option.splits)
  then have v: "visited_nodes s = Some (lastVisitedNodes ntgs)" by (auto simp: visited_nodes_Some_iff)
  obtain q w where q: "ServiceList (libs (yandexService cloud)) (serviceLister ntgs) (world s) = (q, w)" by fastforce
  with run n obtain services where services: "q = Ok services" by (cases q) (simp_all add: SyncTGs_run)
  with q have sl: "ServiceList (libs (yandexService cloud)) (serviceLister ntgs) (world s) = (Ok services, w)" by simp
  with run n have rest: "(if nodes = [] \<and> \<not> activeLoadBalancerServicesExist services
      then cleanUpTargetGroups cloud ctx (s\<lparr>world := w\<rparr>)
      else synchronizeNodesWithTargetGroups cloud ctx nodes (s\<lparr>world := w\<rparr>)) = (Ok u, s')"
    by (simp add: SyncTGs_run)
  from L have "tgs (snd (ServiceList (libs (yandexService cloud)) (serviceLister ntgs) (world s))) = tgs (world s)"
    unfolding store_laws_def by blast
  with sl have w: "tgs w = tgs (world s)" by simp
  have Iw: "cache_inv cloud inst net tgs N (s\<lparr>world := w\<rparr>)" by (rule cache_inv_same [OF I]) (simp_all add: w)
  show ?thesis
  proof (cases "nodes = [] \<and> \<not> activeLoadBalancerServicesExist services")
    case True
    with rest have clean: "cleanUpTargetGroups cloud ctx (s\<lparr>world := w\<rparr>) = (Ok u, s')" by simp
    note C = cleanUp_only_removes [OF L clean]
    from C(1) Iw have "tgs_colon_free tgs (world s')" by (auto simp: cache_inv_def intro: colon_free_submap)
    with C(2) True show ?thesis by (auto simp: cache_inv_def)
  next
    case False
    with rest have "synchronizeNodesWithTargetGroups cloud ctx nodes (s\<lparr>world := w\<rparr>) = (Ok u, s')" by simp
    then show ?thesis by (intro cache_inv_synchronize [OF F L Iw sub]) (simp_all add: v)
  qed
qed

lemma cache_inv_history:
  assumes F: "fleet_laws cloud inst net N" and L: "store_laws cloud tgs" and "sync_history cloud tgs N s0 s"
    and "cache_inv cloud inst net tgs N s0"
  shows "cache_inv cloud inst net tgs N s"
  using assms(3,4)
proof (induction rule: sync_history.induct)
  case (history_sync s nodes ctx u s')
  with cache_inv_sync [OF F L] show ?case by blast
next
  case (history_other s s')
  from history_other.hyps(3) have "visited_nodes s' = visited_nodes s" by (simp add: visited_nodes_def)
  with history_other show ?case by (intro cache_inv_same [where s = s and s' = s']) auto
qed

lemma cache_inv_fresh:
  "visited_nodes s = Some {} \<or> visited_nodes s = None \<Longrightarrow> tgs_colon_free tgs (world s) \<Longrightarrow> cache_inv cloud inst net tgs N s"
  by (auto simp: cache_inv_def visited_nodes_def)

end
