(* ===== verification/SyncLock.thy ===== *)
theory SyncLock
  imports Mutex NodeCache
begin

text \<open>
  The syncer called from several goroutines at once: the service controller may run
  several workers, and each of \<open>EnsureLoadBalancer\<close>, \<open>UpdateLoadBalancer\<close> and
  \<open>EnsureLoadBalancerDeleted\<close> calls \<open>SyncTGs\<close> of the one \<open>NodeTargetGroupSyncer\<close>. Here a
  call is a sequence of steps (lock, list the services, find one instance, add one
  instance's interfaces, write one group, remove one group, unlock) that interleave with
  the steps of the other calls and with whatever else the program does that leaves the
  groups alone. The theory shows that a call of \<open>SyncTGs\<close> is a sequence of these steps,
  that no two calls are between lock and unlock, that no call is stuck for ever, and what
  the groups hold whenever the mutex is free.
\<close>

section \<open>Calls in progress\<close>

text \<open>
  Where a call is in \<open>SyncTGs\<close>, with the local variables that the rest of the code reads:
  \<open>Finding\<close>, \<open>Constructing\<close> and \<open>Putting\<close> are the loops of
  \<open>synchronizeNodesWithTargetGroups\<close>, \<open>ListingGroups\<close> and \<open>Removing\<close> are \<open>cleanUpTargetGroups\<close>,
  \<open>Leaving\<close> is the deferred unlock with the result that is returned after it.
\<close>

datatype sync_phase =
    Entering "node list"
  | Listing "node list"
  | Finding "node list" "node list" "instanceWithNodeInfo list"
  | Constructing "node list" "instanceWithNodeInfo list" tgNameToTargetMap
  | Putting "node list" tgNameToTargetMap "string list"
  | ListingGroups
  | Removing "error option" "target_group list"
  | Leaving "unit outcome"
  | HasLeft "unit outcome"

definition in_section :: "sync_phase \<Rightarrow> bool" where
  "in_section ph = (case ph of Entering _ \<Rightarrow> False | HasLeft _ \<Rightarrow> False | _ \<Rightarrow> True)"

lemma in_section_simps [simp]:
  "\<not> in_section (Entering nodes)" "in_section (Listing nodes)" "in_section (Finding nodes nds insts)"
  "in_section (Constructing nodes insts m)" "in_section (Putting nodes m ns)" "in_section ListingGroups"
  "in_section (Removing first tgs)" "in_section (Leaving r)" "\<not> in_section (HasLeft r)"
  by (simp_all add: in_section_def)

text \<open>The body of \<open>for tgName, targets := range mapping\<close>.\<close>

definition putTG :: "'w Cloud \<Rightarrow> ctx \<Rightarrow> tgNameToTargetMap \<Rightarrow> string \<Rightarrow> ('w, unit) io" where
  "putTG cloud ctx mapping tgName =
     (case mapping tgName of
        None \<Rightarrow> return_io ()
      | Some targets \<Rightarrow>
          bind_io (CreateOrUpdateTG (LbSvc (yandexService cloud)) ctx tgName targets) (\<lambda>_. return_io ()))"

text \<open>
  The next step of a call that holds the mutex: the new phase, or the error with which the
  function returns.
\<close>

fun sync_next :: "'w Cloud \<Rightarrow> ctx \<Rightarrow> sync_phase \<Rightarrow> ('w cloud_state, sync_phase) io" where
  "sync_next cloud ctx (Listing nodes) =
     bind_io theSyncer (\<lambda>ntgs.
     bind_io (attempt_io (on_world (ServiceList (libs (yandexService cloud)) (serviceLister ntgs)))) (\<lambda>r.
     case r of
       Inl err \<Rightarrow> fail_io (ErrListServices err)
     | Inr services \<Rightarrow>
         if length nodes = 0 \<and> \<not> activeLoadBalancerServicesExist services then return_io ListingGroups
         else if length nodes = 0 then return_io (Leaving (Ok ()))
         else if lastVisitedNodes ntgs = set (fromNodeToInterfaceSlice nodes) then return_io (Leaving (Ok ()))
         else return_io (Finding nodes nodes [])))"
| "sync_next cloud ctx (Finding nodes (nd # nds) insts) =
     bind_io (on_world (findInstances cloud ctx [nd] insts)) (\<lambda>insts. return_io (Finding nodes nds insts))"
| "sync_next cloud ctx (Finding nodes [] insts) = return_io (Constructing nodes insts Map.empty)"
| "sync_next cloud ctx (Constructing nodes (inst # insts) mapping) =
     bind_io (attempt_io (on_world (addInstances cloud ctx [inst] mapping))) (\<lambda>r.
     case r of
       Inl err \<Rightarrow> fail_io (ErrConstructMap err)
     | Inr mapping \<Rightarrow> return_io (Constructing nodes insts mapping))"
| "sync_next cloud ctx (Constructing nodes [] mapping) =
     (if dom mapping = {} then fail_io (ErrConstructMap ErrNoMappings)
      else (\<lambda>s. (Ok (Putting nodes mapping (range_order (libs (yandexService cloud)) (dom mapping) (world s))), s)))"
| "sync_next cloud ctx (Putting nodes mapping (tgName # names)) =
     bind_io (on_world (putTG cloud ctx mapping tgName)) (\<lambda>_. return_io (Putting nodes mapping names))"
| "sync_next cloud ctx (Putting nodes mapping []) =
     bind_io (setVisitedNodes (set (fromNodeToInterfaceSlice nodes))) (\<lambda>_. return_io (Leaving (Ok ())))"
| "sync_next cloud ctx ListingGroups =
     bind_io (on_world (GetTGsByClusterName (LbSvc (yandexService cloud)) ctx (ClusterName (config cloud)))) (\<lambda>tgs.
     (\<lambda>s. (Ok (Removing None (go_schedule (libs (yandexService cloud)) tgs (world s))), s)))"
| "sync_next cloud ctx (Removing first (tg # tgs)) =
     bind_io (attempt_io (on_world (RemoveTGByID (LbSvc (yandexService cloud))
       (if first = None then ctx else CtxCancelled) (tg_Id tg)))) (\<lambda>r.
     case r of
       Inl err \<Rightarrow> return_io (Removing (case first of None \<Rightarrow> Some err | Some e \<Rightarrow> Some e) tgs)
     | Inr _ \<Rightarrow> return_io (Removing first tgs))"
| "sync_next cloud ctx (Removing first []) =
     (case first of
        Some err \<Rightarrow> fail_io err
      | None \<Rightarrow> bind_io (setVisitedNodes {}) (\<lambda>_. return_io (Leaving (Ok ()))))"
| "sync_next cloud ctx ph = return_io ph"

fun resume :: "sync_phase outcome \<Rightarrow> sync_phase" where
  "resume (Ok ph) = ph"
| "resume (Err e) = Leaving (Err e)"
| "resume (Abort p) = Leaving (Abort p)"

record 'w sync_system =
  ss_lock :: bool
  ss_state :: "'w cloud_state"
  ss_phase :: "nat \<Rightarrow> sync_phase"
  ss_log :: "nat list"

text \<open>
  One step of call \<open>p\<close>. A call on a syncer that is not yet there panics before it can
  lock. The context of a call may be cancelled at any time, so each step has its own. The
  log holds the calls in the order of their unlocking.
\<close>

inductive sync_step :: "'w Cloud \<Rightarrow> nat \<Rightarrow> 'w sync_system \<Rightarrow> 'w sync_system \<Rightarrow> bool" for cloud where
  nil_syncer: "ss_phase s p = Entering nodes \<Longrightarrow> nodeTargetGroupSyncer (ss_state s) = None \<Longrightarrow>
    sync_step cloud p s (s\<lparr>ss_phase := (ss_phase s)(p := HasLeft (Abort NilDereference))\<rparr>)"
| lock_free: "ss_phase s p = Entering nodes \<Longrightarrow> nodeTargetGroupSyncer (ss_state s) \<noteq> None \<Longrightarrow> \<not> ss_lock s \<Longrightarrow>
    sync_step cloud p s (s\<lparr>ss_lock := True, ss_phase := (ss_phase s)(p := Listing nodes)\<rparr>)"
| work: "in_section (ss_phase s p) \<Longrightarrow> \<forall>r. ss_phase s p \<noteq> Leaving r \<Longrightarrow>
    sync_next cloud ctx (ss_phase s p) (ss_state s) = (q, st) \<Longrightarrow>
    sync_step cloud p s (s\<lparr>ss_state := st, ss_phase := (ss_phase s)(p := resume q)\<rparr>)"
| unlock: "ss_phase s p = Leaving r \<Longrightarrow>
    sync_step cloud p s (s\<lparr>ss_lock := False, ss_phase := (ss_phase s)(p := HasLeft r), ss_log := ss_log s @ [p]\<rparr>)"

inductive_cases sync_stepE: "sync_step cloud p s s'"

definition sync_start :: "'w cloud_state \<Rightarrow> (nat \<Rightarrow> node list) \<Rightarrow> 'w sync_system" where
  "sync_start st calls = \<lparr>ss_lock = False, ss_state = st, ss_phase = (\<lambda>p. Entering (calls p)), ss_log = []\<rparr>"

text \<open>
  The states that calls can reach, with anything in between that leaves the groups and the
  syncer alone (calls of the routes, of the instances, of the balancers, of other programs).
\<close>

inductive sync_reach :: "'w Cloud \<Rightarrow> ('w \<Rightarrow> string \<rightharpoonup> target_group) \<Rightarrow> 'w sync_system \<Rightarrow> 'w sync_system \<Rightarrow> bool"
  for cloud tgs s0 where
  sync_begin: "sync_reach cloud tgs s0 s0"
| sync_call: "sync_reach cloud tgs s0 s \<Longrightarrow> sync_step cloud p s s' \<Longrightarrow> sync_reach cloud tgs s0 s'"
| sync_other: "sync_reach cloud tgs s0 s \<Longrightarrow> tgs (world st) = tgs (world (ss_state s)) \<Longrightarrow>
    nodeTargetGroupSyncer st = nodeTargetGroupSyncer (ss_state s) \<Longrightarrow>
    sync_reach cloud tgs s0 (s\<lparr>ss_state := st\<rparr>)"

section \<open>The mutex\<close>

lemma resume_in_section: "sync_next cloud ctx ph st = (q, st') \<Longrightarrow> in_section ph \<Longrightarrow> in_section (resume q)"
  by (cases "(cloud, ctx, ph)" rule: sync_next.cases)
    (auto simp: bind_io_def attempt_io_def split: prod.splits outcome.splits sum.splits if_splits option.splits)

interpretation syncer: shared_lock "sync_step cloud" ss_lock "\<lambda>s p. in_section (ss_phase s p)"
  for cloud :: "'w Cloud"
proof
  fix p q :: nat and s s' :: "'w sync_system"
  assume step: "sync_step cloud p s s'"
  show "in_section (ss_phase s' q) = in_section (ss_phase s q)" if "q \<noteq> p"
    using step that by cases auto
  show "\<not> ss_lock s \<and> ss_lock s'" if "\<not> in_section (ss_phase s p)" "in_section (ss_phase s' p)"
    using step that by cases auto
  show "\<not> ss_lock s'" if "in_section (ss_phase s p)" "\<not> in_section (ss_phase s' p)"
    using step that by cases (auto dest: resume_in_section)
  show "ss_lock s' = ss_lock s" if "in_section (ss_phase s' p) = in_section (ss_phase s p)"
    using step that by cases auto
qed

lemma exclusive_reach:
  assumes "sync_reach cloud tgs (sync_start st calls) s"
  shows "exclusive (ss_lock s) (\<lambda>p. in_section (ss_phase s p))"
  using assms
proof (induction rule: sync_reach.induct)
  case sync_begin
  show ?case by (simp add: sync_start_def exclusive_free)
next
  case (sync_call s p s')
  then show ?case by (blast intro: syncer.exclusive_step)
qed simp

section \<open>Progress\<close>

text \<open>The loops of a call only go forward: a phase with what is left of its loop.\<close>

fun sync_rank :: "sync_phase \<Rightarrow> nat \<times> nat" where
  "sync_rank (Entering nodes) = (6, 0)"
| "sync_rank (Listing nodes) = (5, 0)"
| "sync_rank (Finding nodes nds insts) = (4, length nds)"
| "sync_rank (Constructing nodes insts m) = (3, length insts)"
| "sync_rank ListingGroups = (3, 0)"
| "sync_rank (Putting nodes m ns) = (2, length ns)"
| "sync_rank (Removing first tgs) = (2, length tgs)"
| "sync_rank (Leaving r) = (1, 0)"
| "sync_rank (HasLeft r) = (0, 0)"

abbreviation rank_less :: "((nat \<times> nat) \<times> (nat \<times> nat)) set" where
  "rank_less \<equiv> less_than <*lex*> less_than"

lemma sync_next_rank:
  assumes "sync_next cloud ctx ph st = (q, st')" and "in_section ph" and "\<forall>r. ph \<noteq> Leaving r"
  shows "(sync_rank (resume q), sync_rank ph) \<in> rank_less"
  using assms by (cases "(cloud, ctx, ph)" rule: sync_next.cases)
    (auto simp: bind_io_def attempt_io_def split: prod.splits outcome.splits sum.splits if_splits option.splits)

lemma sync_step_rank:
  assumes "sync_step cloud p s s'"
  shows "(sync_rank (ss_phase s' p), sync_rank (ss_phase s p)) \<in> rank_less"
    and "q \<noteq> p \<Longrightarrow> ss_phase s' q = ss_phase s q"
  using assms by (cases; auto intro: sync_next_rank)+

text \<open>A call inside can always step; a call before the lock can when the lock is free.\<close>

lemma sync_step_inside: "in_section (ss_phase s p) \<Longrightarrow> \<exists>s'. sync_step cloud p s s'"
proof (cases "\<exists>r. ss_phase s p = Leaving r")
  case False
  obtain q st where "sync_next cloud CtxLive (ss_phase s p) (ss_state s) = (q, st)" by fastforce
  moreover assume "in_section (ss_phase s p)"
  ultimately show ?thesis using False by (blast intro: sync_step.work)
qed (blast intro: sync_step.unlock)

lemma sync_step_entering: "ss_phase s p = Entering nodes \<Longrightarrow> \<not> ss_lock s \<Longrightarrow> \<exists>s'. sync_step cloud p s s'"
  by (cases "nodeTargetGroupSyncer (ss_state s) = None") (blast intro: sync_step.intros)+

section \<open>A whole call as steps\<close>

text \<open>What the code of \<open>SyncTGs\<close> still does from a phase, up to its return.\<close>

definition put_rest :: "'w Cloud \<Rightarrow> ctx \<Rightarrow> node list \<Rightarrow> tgNameToTargetMap \<Rightarrow> string list \<Rightarrow> ('w cloud_state, unit) io" where
  "put_rest cloud ctx nodes mapping names =
     bind_io (on_world (foreach_io (putTG cloud ctx mapping) names))
       (\<lambda>_. setVisitedNodes (set (fromNodeToInterfaceSlice nodes)))"

definition construct_rest :: "'w Cloud \<Rightarrow> ctx \<Rightarrow> node list \<Rightarrow> instanceWithNodeInfo list \<Rightarrow> tgNameToTargetMap \<Rightarrow>
    ('w cloud_state, unit) io" where
  "construct_rest cloud ctx nodes insts mapping =
     bind_io (attempt_io (on_world (bind_io (addInstances cloud ctx insts mapping) (\<lambda>mapping.
       if dom mapping = {} then fail_io ErrNoMappings else return_io mapping)))) (\<lambda>r.
     case r of
       Inl err \<Rightarrow> fail_io (ErrConstructMap err)
     | Inr mapping \<Rightarrow> (\<lambda>s. put_rest cloud ctx nodes mapping
         (range_order (libs (yandexService cloud)) (dom mapping) (world s)) s))"

definition remove_rest :: "'w Cloud \<Rightarrow> ctx \<Rightarrow> error option \<Rightarrow> target_group list \<Rightarrow> ('w cloud_state, unit) io" where
  "remove_rest cloud ctx first tgs =
     bind_io (on_world (errgroup (\<lambda>ctx tg. RemoveTGByID (LbSvc (yandexService cloud)) ctx (tg_Id tg))
       (if first = None then ctx else CtxCancelled) first tgs)) (\<lambda>first.
     case first of Some err \<Rightarrow> fail_io err | None \<Rightarrow> setVisitedNodes {})"

fun rest_of :: "'w Cloud \<Rightarrow> ctx \<Rightarrow> sync_phase \<Rightarrow> ('w cloud_state, unit) io" where
  "rest_of cloud ctx (Entering nodes) = SyncTGs cloud ctx nodes"
| "rest_of cloud ctx (Listing nodes) = SyncTGs cloud ctx nodes"
| "rest_of cloud ctx (Finding nodes nds insts) =
     bind_io (on_world (findInstances cloud ctx nds insts)) (\<lambda>insts. construct_rest cloud ctx nodes insts Map.empty)"
| "rest_of cloud ctx (Constructing nodes insts mapping) = construct_rest cloud ctx nodes insts mapping"
| "rest_of cloud ctx (Putting nodes mapping names) = put_rest cloud ctx nodes mapping names"
| "rest_of cloud ctx ListingGroups = cleanUpTargetGroups cloud ctx"
| "rest_of cloud ctx (Removing first tgs) = remove_rest cloud ctx first tgs"
| "rest_of cloud ctx (Leaving r) = lift_outcome r"
| "rest_of cloud ctx (HasLeft r) = lift_outcome r"

lemma putMapping_putTG: "putMapping cloud ctx mapping =
    (\<lambda>w. foreach_io (putTG cloud ctx mapping) (range_order (libs (yandexService cloud)) (dom mapping) w) w)"
  by (simp add: putMapping_def putTG_def [abs_def])

lemma on_world_bind: "on_world (bind_io m f) = bind_io (on_world m) (\<lambda>x. on_world (f x))"
  by (auto simp: fun_eq_iff bind_io_def on_world_run split: prod.split outcome.split)

lemma on_world_return: "on_world (return_io x) = return_io x"
  by (simp add: fun_eq_iff on_world_run)

text \<open>The loops, one element at a time.\<close>

lemma findInstances_step: "findInstances cloud ctx (nd # nds) insts =
    bind_io (findInstances cloud ctx [nd] insts) (findInstances cloud ctx nds)"
  by (auto simp: fun_eq_iff bind_io_def attempt_io_def split: prod.split outcome.split sum.split option.split)

lemma addInstances_step: "addInstances cloud ctx (inst # insts) mapping =
    bind_io (addInstances cloud ctx [inst] mapping) (addInstances cloud ctx insts)"
  by (simp add: bind_io_assoc)

text \<open>One step of a call and then the rest of the code are the rest of the code.\<close>

lemma rest_synchronize:
  assumes "nodes \<noteq> []" and "nodeTargetGroupSyncer st = Some ntgs"
    and "lastVisitedNodes ntgs \<noteq> set (fromNodeToInterfaceSlice nodes)"
  shows "synchronizeNodesWithTargetGroups cloud ctx nodes st = rest_of cloud ctx (Finding nodes nodes []) st"
proof -
  have put: "bind_io (on_world (putMapping cloud ctx mapping)) (\<lambda>_. setVisitedNodes (set (fromNodeToInterfaceSlice nodes))) =
      (\<lambda>s. put_rest cloud ctx nodes mapping (range_order (libs (yandexService cloud)) (dom mapping) (world s)) s)" for mapping
    by (simp add: fun_eq_iff put_rest_def putMapping_putTG bind_io_def on_world_def)
  have run: "theSyncer st = (Ok ntgs, st)" using assms(2) by (simp add: theSyncer_def)
  show ?thesis
    using assms
    by (simp add: synchronizeNodesWithTargetGroups_def Let_def bind_io_OkI [of theSyncer st ntgs st, OF run] put
        construct_rest_def constructTgNameToTargetMap_def del: dom_eq_empty_conv)
qed

lemma rest_listing:
  assumes "sync_next cloud ctx (Listing nodes) st = (q, st')"
  shows "SyncTGs cloud ctx nodes st = rest_of cloud ctx (resume q) st'"
proof (cases "nodeTargetGroupSyncer st")
  case None
  with assms show ?thesis by (auto simp: SyncTGs_run theSyncer_def bind_io_def)
next
  case (Some ntgs)
  obtain r w where r: "ServiceList (libs (yandexService cloud)) (serviceLister ntgs) (world st) = (r, w)" by fastforce
  show ?thesis
  proof (cases r)
    case (Ok services)
    let ?st = "st\<lparr>world := w\<rparr>"
    have "sync_next cloud ctx (Listing nodes) st = (if nodes = [] \<and> \<not> activeLoadBalancerServicesExist services then (Ok ListingGroups, ?st)
        else if nodes = [] \<or> lastVisitedNodes ntgs = set (fromNodeToInterfaceSlice nodes) then (Ok (Leaving (Ok ())), ?st)
        else (Ok (Finding nodes nodes []), ?st))"
      using Some r Ok by (simp add: theSyncer_def bind_io_def attempt_io_def on_world_def)
    note next_eq = this [unfolded assms]
    have skip: "synchronizeNodesWithTargetGroups cloud ctx nodes ?st = (Ok (), ?st)"
      if "nodes = [] \<or> lastVisitedNodes ntgs = set (fromNodeToInterfaceSlice nodes)"
      using that Some by (auto simp: synchronizeNodesWithTargetGroups_def theSyncer_def bind_io_def Let_def)
    from Some r Ok next_eq show ?thesis
      by (cases "nodes = [] \<or> lastVisitedNodes ntgs = set (fromNodeToInterfaceSlice nodes)")
        (auto simp: SyncTGs_run skip rest_synchronize [where ntgs = ntgs] simp del: rest_of.simps(3))
  qed (use assms Some r in \<open>auto simp: SyncTGs_run theSyncer_def bind_io_def attempt_io_def on_world_def\<close>)
qed

lemma rest_finding:
  assumes "sync_next cloud ctx (Finding nodes (nd # nds) insts) st = (q, st')"
  shows "rest_of cloud ctx (Finding nodes (nd # nds) insts) st = rest_of cloud ctx (resume q) st'"
  using assms
  by (auto simp: findInstances_step [of cloud ctx nd nds] bind_io_def on_world_def
      simp del: findInstances.simps split: prod.splits outcome.splits)

lemma rest_constructing:
  assumes "sync_next cloud ctx (Constructing nodes (inst # insts) mapping) st = (q, st')"
  shows "rest_of cloud ctx (Constructing nodes (inst # insts) mapping) st = rest_of cloud ctx (resume q) st'"
  using assms
  by (auto simp: construct_rest_def addInstances_step [of cloud ctx inst insts] bind_io_def attempt_io_def on_world_def
      simp del: addInstances.simps split: prod.splits outcome.splits)

lemma rest_constructed:
  assumes "sync_next cloud ctx (Constructing nodes [] mapping) st = (q, st')"
  shows "rest_of cloud ctx (Constructing nodes [] mapping) st = rest_of cloud ctx (resume q) st'"
  using assms
  by (auto simp: construct_rest_def bind_io_def attempt_io_def on_world_def split: if_splits)

lemma rest_putting:
  assumes "sync_next cloud ctx (Putting nodes mapping (n # ns)) st = (q, st')"
  shows "rest_of cloud ctx (Putting nodes mapping (n # ns)) st = rest_of cloud ctx (resume q) st'"
  using assms
  by (auto simp: put_rest_def bind_io_def on_world_def split: prod.splits outcome.splits)

lemma rest_found:
  assumes "sync_next cloud ctx (Finding nodes [] insts) st = (q, st')"
  shows "rest_of cloud ctx (Finding nodes [] insts) st = rest_of cloud ctx (resume q) st'"
  using assms by (auto simp: on_world_return)

lemma rest_put:
  assumes "sync_next cloud ctx (Putting nodes mapping []) st = (q, st')"
  shows "rest_of cloud ctx (Putting nodes mapping []) st = rest_of cloud ctx (resume q) st'"
  using assms by (auto simp: put_rest_def on_world_return setVisitedNodes_def bind_io_def split: option.splits)

lemma rest_removed:
  assumes "sync_next cloud ctx (Removing first []) st = (q, st')"
  shows "rest_of cloud ctx (Removing first []) st = rest_of cloud ctx (resume q) st'"
  using assms
  by (auto simp: remove_rest_def on_world_return setVisitedNodes_def bind_io_def split: option.splits)

lemma rest_list_groups:
  assumes "sync_next cloud ctx ListingGroups st = (q, st')"
  shows "rest_of cloud ctx ListingGroups st = rest_of cloud ctx (resume q) st'"
proof -
  obtain r s1 where r: "on_world (GetTGsByClusterName (LbSvc (yandexService cloud)) ctx (ClusterName (config cloud))) st = (r, s1)"
    by fastforce
  show ?thesis
  proof (cases r)
    case (Ok tgs)
    have world_first: "bind_io (on_world (\<lambda>w. f (g w) w)) k s1 = bind_io (on_world (f (g (world s1)))) k s1"
      for f :: "target_group list \<Rightarrow> ('a, error option) io" and g and k :: "_ \<Rightarrow> ('a cloud_state, unit) io"
      by (simp add: bind_io_def on_world_def)
    from Ok r assms have "q = Ok (Removing None (go_schedule (libs (yandexService cloud)) tgs (world s1)))" "st' = s1"
      by (auto simp: bind_io_OkI)
    with Ok r show ?thesis
      by (simp add: cleanUpTargetGroups_def remove_rest_def bind_io_OkI world_first)
  qed (use assms r in \<open>auto simp: cleanUpTargetGroups_def bind_io_ErrI bind_io_AbortI\<close>)
qed

lemma rest_removing:
  assumes "sync_next cloud ctx (Removing first (tg # tgs)) st = (q, st')"
  shows "rest_of cloud ctx (Removing first (tg # tgs)) st = rest_of cloud ctx (resume q) st'"
proof -
  let ?ctx = "if first = None then ctx else CtxCancelled"
  obtain r w where r: "RemoveTGByID (LbSvc (yandexService cloud)) ?ctx (tg_Id tg) (world st) = (r, w)" by fastforce
  from r assms show ?thesis
    by (cases r; cases first) (auto simp: remove_rest_def bind_io_run attempt_io_run on_world_run)
qed

lemma rest_of_step:
  assumes "sync_next cloud ctx ph st = (q, st')" and "in_section ph" and "\<forall>r. ph \<noteq> Leaving r"
  shows "rest_of cloud ctx ph st = rest_of cloud ctx (resume q) st'"
proof (cases ph)
  case (Listing nodes)
  with assms(1) show ?thesis by (simp add: rest_listing del: sync_next.simps)
next
  case (Finding nodes nds insts)
  with assms(1) show ?thesis
    by (cases nds) (simp_all only: rest_finding rest_found)
next
  case (Constructing nodes insts mapping)
  with assms(1) show ?thesis by (cases insts) (simp_all only: rest_constructing rest_constructed)
next
  case (Putting nodes mapping names)
  with assms(1) show ?thesis
    by (cases names) (simp_all only: rest_putting rest_put)
next
  case (Removing first tgs)
  with assms(1) show ?thesis by (cases tgs) (simp_all only: rest_removing rest_removed)
next
  case ListingGroups
  with assms(1) show ?thesis by (simp only: rest_list_groups)
qed (use assms in auto)

text \<open>So a call alone runs to the result of the code, and unlocks.\<close>

lemma call_runs_to_end:
  assumes "in_section (ss_phase s p)" and "rest_of cloud ctx (ss_phase s p) (ss_state s) = (r, st)"
  shows "(sync_step cloud p)\<^sup>*\<^sup>* s
    (s\<lparr>ss_lock := False, ss_state := st, ss_phase := (ss_phase s)(p := HasLeft r), ss_log := ss_log s @ [p]\<rparr>)"
  using assms
proof (induction "sync_rank (ss_phase s p)" arbitrary: s rule: wf_induct_rule [OF wf_lex_prod [OF wf_less_than wf_less_than]])
  case less: 1
  show ?case
  proof (cases "\<exists>r'. ss_phase s p = Leaving r'")
    case True
    with less.prems(2) have "ss_phase s p = Leaving r" "st = ss_state s" by auto
    with sync_step.unlock [of s p r cloud] show ?thesis by (simp add: r_into_rtranclp)
  next
    case False
    obtain q st1 where next_eq: "sync_next cloud ctx (ss_phase s p) (ss_state s) = (q, st1)" by fastforce
    let ?s1 = "s\<lparr>ss_state := st1, ss_phase := (ss_phase s)(p := resume q)\<rparr>"
    have 1: "sync_step cloud p s ?s1" using less.prems(1) False next_eq by (blast intro: sync_step.work)
    have "rest_of cloud ctx (ss_phase ?s1 p) (ss_state ?s1) = (r, st)"
      using rest_of_step [OF next_eq less.prems(1)] False less.prems(2) by simp
    moreover have "in_section (ss_phase ?s1 p)" using resume_in_section [OF next_eq less.prems(1)] by simp
    moreover have "(sync_rank (ss_phase ?s1 p), sync_rank (ss_phase s p)) \<in> rank_less" by (rule sync_step_rank(1) [OF 1])
    ultimately have "(sync_step cloud p)\<^sup>*\<^sup>* ?s1
        (?s1\<lparr>ss_lock := False, ss_state := st, ss_phase := (ss_phase ?s1)(p := HasLeft r), ss_log := ss_log ?s1 @ [p]\<rparr>)"
      using less.hyps by blast
    with 1 show ?thesis by (simp add: converse_rtranclp_into_rtranclp)
  qed
qed

lemma call_alone_runs:
  assumes run: "SyncTGs cloud ctx nodes (ss_state s) = (r, st)"
    and p: "ss_phase s p = Entering nodes" "nodeTargetGroupSyncer (ss_state s) \<noteq> None" "\<not> ss_lock s"
  shows "(sync_step cloud p)\<^sup>*\<^sup>* s
    (s\<lparr>ss_state := st, ss_phase := (ss_phase s)(p := HasLeft r), ss_log := ss_log s @ [p]\<rparr>)" (is "(sync_step cloud p)\<^sup>*\<^sup>* s ?t")
proof -
  let ?s1 = "s\<lparr>ss_lock := True, ss_phase := (ss_phase s)(p := Listing nodes)\<rparr>"
  have "(sync_step cloud p)\<^sup>*\<^sup>* ?s1 (?s1\<lparr>ss_lock := False, ss_state := st,
      ss_phase := (ss_phase ?s1)(p := HasLeft r), ss_log := ss_log ?s1 @ [p]\<rparr>)"
    using run by (intro call_runs_to_end [where ctx = ctx]) simp_all
  moreover have "?s1\<lparr>ss_lock := False, ss_state := st, ss_phase := (ss_phase ?s1)(p := HasLeft r),
      ss_log := ss_log ?s1 @ [p]\<rparr> = ?t"
    using p(3) by simp
  ultimately have "(sync_step cloud p)\<^sup>*\<^sup>* ?s1 ?t" by (simp only:)
  with sync_step.lock_free [OF p] show ?thesis by (rule converse_rtranclp_into_rtranclp)
qed

lemma sync_reach_run:
  assumes "(sync_step cloud p)\<^sup>*\<^sup>* s s'" and "sync_reach cloud tgs s0 s"
  shows "sync_reach cloud tgs s0 s'"
  using assms by (induction rule: rtranclp_induct) (auto intro: sync_call)

text \<open>
  No call is stuck for ever: whoever is inside can run to its unlock, and then the lock is
  free for the next one.
\<close>

abbreviation some_step :: "'w Cloud \<Rightarrow> 'w sync_system \<Rightarrow> 'w sync_system \<Rightarrow> bool" where
  "some_step cloud s s' \<equiv> \<exists>p. sync_step cloud p s s'"

lemma some_steps: "(sync_step cloud p)\<^sup>*\<^sup>* s s' \<Longrightarrow> (some_step cloud)\<^sup>*\<^sup>* s s'"
  by (induction rule: rtranclp_induct) (auto intro: rtranclp.rtrancl_into_rtrancl)

lemma call_can_end:
  assumes "in_section (ss_phase s p)"
  obtains s' r where "(some_step cloud)\<^sup>*\<^sup>* s s'" and "ss_phase s' p = HasLeft r" and "\<not> ss_lock s'"
    and "\<And>q. q \<noteq> p \<Longrightarrow> ss_phase s' q = ss_phase s q"
proof -
  obtain r st where "rest_of cloud CtxLive (ss_phase s p) (ss_state s) = (r, st)" by fastforce
  from some_steps [OF call_runs_to_end [OF assms this]] show thesis by (rule that) simp_all
qed

lemma entering_can_end:
  assumes p: "ss_phase s p = Entering nodes" and free: "\<not> ss_lock s"
  shows "\<exists>s' r. (some_step cloud)\<^sup>*\<^sup>* s s' \<and> ss_phase s' p = HasLeft r"
proof (cases "nodeTargetGroupSyncer (ss_state s) = None")
  case True
  from sync_step.nil_syncer [OF p True, of cloud]
  have "(some_step cloud)\<^sup>*\<^sup>* s (s\<lparr>ss_phase := (ss_phase s)(p := HasLeft (Abort NilDereference))\<rparr>)" by blast
  moreover have "ss_phase (s\<lparr>ss_phase := (ss_phase s)(p := HasLeft (Abort NilDereference))\<rparr>) p = HasLeft (Abort NilDereference)"
    by simp
  ultimately show ?thesis by blast
next
  case False
  obtain r st where "SyncTGs cloud CtxLive nodes (ss_state s) = (r, st)" by fastforce
  from some_steps [OF call_alone_runs [OF this p False free]]
  obtain s' where "(some_step cloud)\<^sup>*\<^sup>* s s'" "ss_phase s' p = HasLeft r" by force
  then show ?thesis by blast
qed

lemma every_call_can_end:
  assumes X: "exclusive (ss_lock s) (\<lambda>p. in_section (ss_phase s p))"
  shows "\<exists>s' r. (some_step cloud)\<^sup>*\<^sup>* s s' \<and> ss_phase s' p = HasLeft r"
proof (cases "ss_phase s p")
  case (Entering nodes)
  show ?thesis
  proof (cases "ss_lock s")
    case True
    with X obtain q where q: "in_section (ss_phase s q)" by (auto simp: exclusive_def)
    with Entering have "p \<noteq> q" by auto
    obtain s1 r where s1: "(some_step cloud)\<^sup>*\<^sup>* s s1" "\<not> ss_lock s1" "\<And>k. k \<noteq> q \<Longrightarrow> ss_phase s1 k = ss_phase s k"
      by (rule call_can_end [OF q, of cloud]) blast
    with Entering \<open>p \<noteq> q\<close> have "ss_phase s1 p = Entering nodes" by simp
    from entering_can_end [OF this s1(2)] s1(1) show ?thesis by (meson rtranclp_trans)
  qed (rule entering_can_end [OF Entering])
next
  case (HasLeft r)
  then show ?thesis by blast
qed (metis call_can_end in_section_simps)+

section \<open>What the groups hold\<close>

text \<open>
  What a call has done so far and what it may still rely on, in a history without failed
  calls: up to the first write nothing has changed since the lock was taken, so the
  invariant of the remembered nodes holds; the writes fill the plan one group after the
  other; when the call leaves, the groups hold its plan and the invariant holds again.
\<close>

definition call_inv :: "'w Cloud \<Rightarrow> (string \<Rightarrow> cloud_instance) \<Rightarrow> (string \<Rightarrow> string) \<Rightarrow>
    ('w \<Rightarrow> string \<rightharpoonup> target_group) \<Rightarrow> node set \<Rightarrow> node list \<Rightarrow> 'w cloud_state \<Rightarrow> sync_phase \<Rightarrow> bool" where
  "call_inv cloud inst net tgs N nodes st ph \<longleftrightarrow>
     (let plan = syncPlan (ClusterName (config cloud)) net inst nodes in
      case ph of
        Entering nodes' \<Rightarrow> nodes' = nodes
      | Listing nodes' \<Rightarrow> nodes' = nodes \<and> cache_inv cloud inst net tgs N st
      | Finding nodes' nds insts \<Rightarrow> nodes' = nodes \<and> nodes \<noteq> [] \<and> cache_inv cloud inst net tgs N st \<and>
          set nds \<subseteq> set nodes \<and> insts @ found_instances inst nds = found_instances inst nodes
      | Constructing nodes' insts m \<Rightarrow> nodes' = nodes \<and> nodes \<noteq> [] \<and> cache_inv cloud inst net tgs N st \<and>
          set insts \<subseteq> set (found_instances inst nodes) \<and>
          (\<exists>ps. m = grouped ps \<and> ps @ planned (ClusterName (config cloud)) net insts = plan)
      | Putting nodes' m ns \<Rightarrow> nodes' = nodes \<and> nodes \<noteq> [] \<and> m = grouped plan \<and> tgs_colon_free tgs (world st) \<and>
          (\<forall>n ts. m n = Some ts \<longrightarrow> n \<notin> set ns \<longrightarrow> tg_groups tgs (world st) n = {set ts})
      | ListingGroups \<Rightarrow> nodes = [] \<and> tgs_colon_free tgs (world st)
      | Removing first ts \<Rightarrow> nodes = [] \<and> (first = None \<longrightarrow> tgs_colon_free tgs (world st))
      | Leaving r \<Rightarrow> r = Ok () \<longrightarrow> cache_inv cloud inst net tgs N st \<and>
          (nodes \<noteq> [] \<longrightarrow> groups_hold tgs (world st) (set plan))
      | HasLeft r \<Rightarrow> True)"

text \<open>A call outside relies on nothing, a call inside only on the groups and the syncer.\<close>

lemma call_inv_outside:
  "\<not> in_section ph \<Longrightarrow> call_inv cloud inst net tgs N nodes st ph \<longleftrightarrow> call_inv cloud inst net tgs N nodes st' ph"
  by (cases ph) (auto simp: call_inv_def)

lemma call_inv_other:
  assumes "call_inv cloud inst net tgs N nodes st ph" and w: "tgs (world st') = tgs (world st)"
    and v: "visited_nodes st' = visited_nodes st"
  shows "call_inv cloud inst net tgs N nodes st' ph"
proof -
  have "cache_inv cloud inst net tgs N st \<Longrightarrow> cache_inv cloud inst net tgs N st'"
    by (rule cache_inv_same [OF _ w v])
  moreover have "tgs_colon_free tgs (world st') = tgs_colon_free tgs (world st)" by (simp add: tgs_colon_free_def w)
  moreover have "tg_groups tgs (world st') = tg_groups tgs (world st)" by (simp add: tg_groups_def [abs_def] w)
  moreover note groups_hold_cong [where tgs = tgs, OF w]
  ultimately show ?thesis using assms(1) by (auto simp: call_inv_def Let_def split: sync_phase.splits)
qed

text \<open>The steps of a call.\<close>

lemma call_inv_listing:
  assumes L: "store_laws cloud tgs" and sub: "set nodes \<subseteq> N" and I: "cache_inv cloud inst net tgs N st"
    and run: "sync_next cloud ctx (Listing nodes) st = (Ok ph, st')"
  shows "call_inv cloud inst net tgs N nodes st' ph"
proof -
  from run obtain ntgs where ntgs: "nodeTargetGroupSyncer st = Some ntgs"
    by (auto simp: bind_io_Ok_iff theSyncer_def)
  with run obtain services w where sl: "ServiceList (libs (yandexService cloud)) (serviceLister ntgs) (world st) = (Ok services, w)"
    by (auto simp: bind_io_Ok_iff attempt_io_Ok_iff theSyncer_def on_world_Ok_iff)
  from L have "tgs (snd (ServiceList (libs (yandexService cloud)) (serviceLister ntgs) (world st))) = tgs (world st)"
    unfolding store_laws_def by blast
  with sl have w: "tgs w = tgs (world st)" by simp
  have I': "cache_inv cloud inst net tgs N (st\<lparr>world := w\<rparr>)" by (rule cache_inv_same [OF I]) (simp_all add: w)
  have v: "visited_nodes (st\<lparr>world := w\<rparr>) = Some (lastVisitedNodes ntgs)"
    using ntgs by (auto simp: visited_nodes_Some_iff)
  from run ntgs sl have "(ph, st') = (if nodes = [] \<and> \<not> activeLoadBalancerServicesExist services then (ListingGroups, st\<lparr>world := w\<rparr>)
      else if nodes = [] \<or> lastVisitedNodes ntgs = n_Name ` set nodes then (Leaving (Ok ()), st\<lparr>world := w\<rparr>)
      else (Finding nodes nodes [], st\<lparr>world := w\<rparr>))"
    by (simp add: bind_io_def attempt_io_def theSyncer_def on_world_def fromNodeToInterfaceSlice_def split: if_splits)
  with I' v sub show ?thesis
    by (auto simp: call_inv_def cache_inv_def split: if_splits)
qed

lemma found_instances_Cons: "found_instances inst (nd # nds) = found_instances inst [nd] @ found_instances inst nds"
  by (simp add: found_instances_def)

lemma call_inv_finding:
  assumes F: "fleet_laws cloud inst net N" and sub: "set nodes \<subseteq> N"
    and I: "call_inv cloud inst net tgs N nodes st (Finding nodes' (nd # nds) insts)"
    and run: "sync_next cloud ctx (Finding nodes' (nd # nds) insts) st = (Ok ph, st')"
  shows "call_inv cloud inst net tgs N nodes st' ph"
proof -
  from I sub have "set [nd] \<subseteq> N" by (auto simp: call_inv_def)
  note K = nodes_known_all [OF F this]
  have "ph = Finding nodes' nds (insts @ found_instances inst [nd])" "st' = st"
    using run findInstances_known [OF K(1,3), of ctx insts] by (auto simp: bind_io_Ok_iff on_world_Ok_iff simp del: findInstances.simps)
  with I found_instances_Cons [of inst nd nds] show ?thesis by (simp add: call_inv_def)
qed

lemma call_inv_found:
  assumes I: "call_inv cloud inst net tgs N nodes st (Finding nodes' [] insts)"
    and run: "sync_next cloud ctx (Finding nodes' [] insts) st = (Ok ph, st')"
  shows "call_inv cloud inst net tgs N nodes st' ph"
proof -
  from run have ph: "ph = Constructing nodes' insts Map.empty" "st' = st" by simp_all
  from I have "insts = found_instances inst nodes" by (simp add: call_inv_def found_instances_def)
  with I ph show ?thesis by (auto simp: call_inv_def syncPlan_def intro!: exI [of _ "[]"])
qed

lemma call_inv_constructing:
  assumes F: "fleet_laws cloud inst net N" and sub: "set nodes \<subseteq> N"
    and I: "call_inv cloud inst net tgs N nodes st (Constructing nodes' (i # insts) m)"
    and run: "sync_next cloud ctx (Constructing nodes' (i # insts) m) st = (Ok ph, st')"
  shows "call_inv cloud inst net tgs N nodes st' ph"
proof -
  note K = nodes_known_all [OF F sub]
  from I obtain ps where m: "m = grouped ps" and i: "i \<in> set (found_instances inst nodes)"
    and plan: "ps @ planned (ClusterName (config cloud)) net (i # insts) = syncPlan (ClusterName (config cloud)) net inst nodes"
    by (auto simp: call_inv_def)
  from i has_primary_found [OF K(1)] have "list_all (\<lambda>i. has_primary (iw_Instance i)) [i]" by (auto simp: list_all_iff)
  from addInstances_plan [OF K(2) this, of ctx ps]
  have "ph = Constructing nodes' insts (grouped (ps @ planned (ClusterName (config cloud)) net [i]))" "st' = st"
    using run m by (auto simp: bind_io_Ok_iff attempt_io_Ok_iff on_world_Ok_iff simp del: addInstances.simps)
  moreover have "(ps @ planned (ClusterName (config cloud)) net [i]) @ planned (ClusterName (config cloud)) net insts =
      syncPlan (ClusterName (config cloud)) net inst nodes"
    using plan by (simp add: planned_def)
  ultimately show ?thesis using I by (auto simp: call_inv_def)
qed

lemma call_inv_constructed:
  assumes L: "store_laws cloud tgs"
    and I: "call_inv cloud inst net tgs N nodes st (Constructing nodes' [] m)"
    and run: "sync_next cloud ctx (Constructing nodes' [] m) st = (Ok ph, st')"
  shows "call_inv cloud inst net tgs N nodes st' ph"
proof -
  from I have m: "m = grouped (syncPlan (ClusterName (config cloud)) net inst nodes)"
    by (auto simp: call_inv_def planned_def)
  have "set (range_order (libs (yandexService cloud)) (dom m) w) = dom m" for w
    using L m by (simp add: store_laws_def range_order_set)
  moreover from run have "ph = Putting nodes' m (range_order (libs (yandexService cloud)) (dom m) (world st))" "st' = st"
    by (auto split: if_splits)
  moreover from I have "nodes' = nodes" "nodes \<noteq> []" "tgs_colon_free tgs (world st)"
    by (simp_all add: call_inv_def cache_inv_def)
  moreover have "m n = Some ts \<Longrightarrow> n \<in> dom m" for n ts by blast
  ultimately show ?thesis using m unfolding call_inv_def Let_def by (simp del: dom_grouped)
qed

lemma call_inv_putting:
  assumes F: "fleet_laws cloud inst net N" and L: "store_laws cloud tgs" and sub: "set nodes \<subseteq> N"
    and I: "call_inv cloud inst net tgs N nodes st (Putting nodes' m (n # ns))"
    and run: "sync_next cloud ctx (Putting nodes' m (n # ns)) st = (Ok ph, st')"
  shows "call_inv cloud inst net tgs N nodes st' ph"
proof -
  let ?plan = "syncPlan (ClusterName (config cloud)) net inst nodes"
  from I have m: "m = grouped ?plan" and filled: "\<And>k ts. m k = Some ts \<Longrightarrow> k \<notin> set (n # ns) \<Longrightarrow> tg_groups tgs (world st) k = {set ts}"
    and cf: "tgs_colon_free tgs (world st)"
    by (auto simp: call_inv_def)
  from run obtain w where put: "putTG cloud ctx m n (world st) = (Ok (), w)"
    and ph: "ph = Putting nodes' m ns" and w: "world st' = w"
    by (auto simp: bind_io_Ok_iff on_world_Ok_iff)
  have "tgs_colon_free tgs w \<and> (\<forall>k ts. m k = Some ts \<longrightarrow> k \<notin> set ns \<longrightarrow> tg_groups tgs w k = {set ts})"
  proof (cases "m n")
    case None
    with put have "w = world st" by (simp add: putTG_def)
    have "tg_groups tgs w k = {set us}" if "m k = Some us" "k \<notin> set ns" for k us
      using that None filled [OF that(1)] \<open>w = world st\<close> by (cases "k = n") simp_all
    with cf \<open>w = world st\<close> show ?thesis by simp
  next
    case (Some ts)
    have ready: "tg_ready (LbSvc (yandexService cloud)) tgs (world st)"
      using L cf by (simp add: tg_ready_def store_laws_def)
    have good: "colon_free ts" by (rule grouped_colon_free [OF Some [unfolded m] nodes_known_all(4) [OF F sub]])
    from put Some obtain i where run: "CreateOrUpdateTG (LbSvc (yandexService cloud)) ctx n ts (world st) = (Ok i, w)"
      by (auto simp: putTG_def bind_io_Ok_iff)
    note P = tg_writer.put_same [OF ready good run] tg_writer.put_other [OF ready good run] tg_writer.put_ok [OF ready good run]
    have "tg_groups tgs w k = {set us}" if "m k = Some us" "k \<notin> set ns" for k us
      using that P(1,2) filled [OF that(1)] Some by (cases "k = n") auto
    with P(3) show ?thesis by (auto simp: tg_ready_def)
  qed
  with I ph w show ?thesis by (simp add: call_inv_def)
qed

lemma call_inv_put:
  assumes F: "fleet_laws cloud inst net N" and sub: "set nodes \<subseteq> N"
    and I: "call_inv cloud inst net tgs N nodes st (Putting nodes' m [])"
    and run: "sync_next cloud ctx (Putting nodes' m []) st = (Ok ph, st')"
  shows "call_inv cloud inst net tgs N nodes st' ph"
proof -
  let ?plan = "syncPlan (ClusterName (config cloud)) net inst nodes"
  from run have ph: "ph = Leaving (Ok ())" and st': "world st' = world st" "visited_nodes st' = Some (n_Name ` set nodes')"
    by (auto simp: bind_io_Ok_iff fromNodeToInterfaceSlice_def dest: setVisitedNodes_Ok)
  from I have nodes: "nodes' = nodes" and cf: "tgs_colon_free tgs (world st')"
    and all: "\<And>n ts. grouped ?plan n = Some ts \<Longrightarrow> tg_groups tgs (world st') n = {set ts}"
    by (auto simp: call_inv_def st'(1))
  have hold: "groups_hold tgs (world st') (set ?plan)"
    by (rule groups_hold_grouped [where G = "tg_groups tgs (world st')"]) (simp add: all split: option.split)
  from cache_inv_visited [OF F sub _ cf hold] st'(2) nodes hold ph show ?thesis by (simp add: call_inv_def)
qed

lemma call_inv_listing_groups:
  assumes L: "store_laws cloud tgs" and I: "call_inv cloud inst net tgs N nodes st ListingGroups"
    and run: "sync_next cloud ctx ListingGroups st = (Ok ph, st')"
  shows "call_inv cloud inst net tgs N nodes st' ph"
proof -
  let ?y = "LbSvc (yandexService cloud)"
  obtain r w where r: "GetTGsByClusterName ?y ctx (ClusterName (config cloud)) (world st) = (r, w)" by fastforce
  then have on: "on_world (GetTGsByClusterName ?y ctx (ClusterName (config cloud))) st = (r, st\<lparr>world := w\<rparr>)"
    by (simp add: on_world_run)
  show ?thesis
  proof (cases r)
    case (Ok ts)
    with run on have ph: "\<exists>us. ph = Removing None us" "st' = st\<lparr>world := w\<rparr>" by (auto simp: bind_io_OkI)
    from r Ok obtain xs where list: "TgList (lbs_TgSvc ?y) ctx
        \<lparr>lr_FolderId = FolderID (cloudCtx ?y), lr_PageSize = 1000, lr_Filter = []\<rparr> (world st) = (Ok xs, w)"
      by (auto simp: GetTGsByClusterName_def bind_io_Ok_iff)
    have "tg_cleanup_laws ?y tgs" using L by (simp add: store_laws_def)
    from tg_law_page [OF this list] have "tgs w = tgs (world st)" by simp
    with I ph show ?thesis by (auto simp: call_inv_def tgs_colon_free_def)
  qed (use run on in \<open>auto simp: bind_io_ErrI bind_io_AbortI\<close>)
qed

lemma call_inv_removing:
  assumes L: "store_laws cloud tgs" and I: "call_inv cloud inst net tgs N nodes st (Removing first (t # ts))"
    and run: "sync_next cloud ctx (Removing first (t # ts)) st = (Ok ph, st')"
  shows "call_inv cloud inst net tgs N nodes st' ph"
proof -
  let ?y = "LbSvc (yandexService cloud)"
  let ?ctx = "if first = None then ctx else CtxCancelled"
  obtain r w where r: "RemoveTGByID ?y ?ctx (tg_Id t) (world st) = (r, w)" by fastforce
  from L have L': "tg_service_laws ?y tgs" "tg_cleanup_laws ?y tgs" by (simp_all add: store_laws_def)
  show ?thesis
  proof (cases r)
    case (Ok u)
    with run r have ph: "ph = Removing first ts" and w: "world st' = w"
      by (auto simp: bind_io_run attempt_io_run on_world_run)
    from RemoveTGByID_removes [OF L'] r Ok have "tgs w \<subseteq>\<^sub>m tgs (world st)" by (simp add: map_le_def)
    from colon_free_submap [where tgs = tgs, OF this] I ph w show ?thesis by (simp add: call_inv_def)
  next
    case (Err e)
    with run r I show ?thesis
      by (cases first) (auto simp: bind_io_run attempt_io_run on_world_run call_inv_def)
  qed (use run r in \<open>auto simp: bind_io_run attempt_io_run on_world_run\<close>)
qed

lemma call_inv_removed:
  assumes I: "call_inv cloud inst net tgs N nodes st (Removing first [])"
    and run: "sync_next cloud ctx (Removing first []) st = (Ok ph, st')"
  shows "call_inv cloud inst net tgs N nodes st' ph"
proof -
  from run have "first = None" and ph: "ph = Leaving (Ok ())" and st': "world st' = world st" "visited_nodes st' = Some {}"
    by (auto simp: bind_io_Ok_iff split: option.splits dest: setVisitedNodes_Ok)
  with I cache_inv_fresh [of st' tgs cloud inst net N] show ?thesis by (simp add: call_inv_def)
qed

lemma call_inv_next:
  assumes F: "fleet_laws cloud inst net N" and L: "store_laws cloud tgs" and sub: "set nodes \<subseteq> N"
    and I: "call_inv cloud inst net tgs N nodes st ph" and "in_section ph" and "\<forall>r. ph \<noteq> Leaving r"
    and run: "sync_next cloud ctx ph st = (q, st')"
  shows "call_inv cloud inst net tgs N nodes st' (resume q)"
proof (cases q)
  case (Ok ph')
  note run' = run [unfolded Ok]
  have "call_inv cloud inst net tgs N nodes st' ph'"
  proof (cases ph)
    case (Listing nodes')
    with I run' show ?thesis by (intro call_inv_listing [OF L sub]) (auto simp: call_inv_def simp del: sync_next.simps)
  next
    case (Finding nodes' nds insts)
    with I run' show ?thesis
      by (cases nds) (metis call_inv_found, metis call_inv_finding [OF F sub])
  next
    case (Constructing nodes' insts m)
    with I run' show ?thesis
      by (cases insts) (metis call_inv_constructed [OF L], metis call_inv_constructing [OF F sub])
  next
    case (Putting nodes' m ns)
    with I run' show ?thesis
      by (cases ns) (metis call_inv_put [OF F sub], metis call_inv_putting [OF F L sub])
  next
    case (Removing first ts)
    with I run' show ?thesis by (cases ts) (metis call_inv_removed, metis call_inv_removing [OF L])
  next
    case ListingGroups
    with I run' show ?thesis by (metis call_inv_listing_groups [OF L])
  qed (use assms in auto)
  with Ok show ?thesis by simp
qed (simp_all add: call_inv_def)

section \<open>The invariant of concurrent calls\<close>

definition unfailed :: "'w sync_system \<Rightarrow> bool" where
  "unfailed s \<longleftrightarrow> (\<forall>p r. ss_phase s p = Leaving r \<or> ss_phase s p = HasLeft r \<longrightarrow> r = Ok ())"

lemma unfailedD: "unfailed s \<Longrightarrow> ss_phase s p = HasLeft r \<Longrightarrow> r = Ok ()"
  by (auto simp: unfailed_def)

text \<open>A result is never taken back.\<close>

lemma unfailed_step:
  assumes step: "sync_step cloud p s s'" and ok: "unfailed s'"
  shows "unfailed s"
  unfolding unfailed_def
proof (intro allI impI)
  fix k r assume k: "ss_phase s k = Leaving r \<or> ss_phase s k = HasLeft r"
  show "r = Ok ()"
  proof (cases "k = p")
    case True
    from step k have "ss_phase s' p = HasLeft r" unfolding True by cases auto
    with ok show ?thesis by (rule unfailedD)
  next
    case False
    with sync_step_rank(2) [OF step] k ok show ?thesis by (metis unfailed_def)
  qed
qed

text \<open>
  Every call's assertion holds; when the mutex is free the remembered nodes are right and
  the groups hold the plan of the call that left last.
\<close>

definition sync_inv :: "'w Cloud \<Rightarrow> (string \<Rightarrow> cloud_instance) \<Rightarrow> (string \<Rightarrow> string) \<Rightarrow>
    ('w \<Rightarrow> string \<rightharpoonup> target_group) \<Rightarrow> node set \<Rightarrow> (nat \<Rightarrow> node list) \<Rightarrow> 'w sync_system \<Rightarrow> bool" where
  "sync_inv cloud inst net tgs N calls s \<longleftrightarrow>
     (\<forall>p. call_inv cloud inst net tgs N (calls p) (ss_state s) (ss_phase s p)) \<and>
     (\<not> ss_lock s \<longrightarrow> cache_inv cloud inst net tgs N (ss_state s) \<and>
        (\<forall>ps p. ss_log s = ps @ [p] \<longrightarrow> calls p \<noteq> [] \<longrightarrow>
           groups_hold tgs (world (ss_state s)) (set (syncPlan (ClusterName (config cloud)) net inst (calls p)))))"

lemma call_inv_simps [simp]:
  "call_inv cloud inst net tgs N nodes st (Entering nodes') \<longleftrightarrow> nodes' = nodes"
  "call_inv cloud inst net tgs N nodes st (HasLeft r)"
  by (simp_all add: call_inv_def)

lemma sync_inv_other:
  assumes I: "sync_inv cloud inst net tgs N calls s" and w: "tgs (world st) = tgs (world (ss_state s))"
    and v: "nodeTargetGroupSyncer st = nodeTargetGroupSyncer (ss_state s)"
  shows "sync_inv cloud inst net tgs N calls (s\<lparr>ss_state := st\<rparr>)"
proof -
  from v have v': "visited_nodes st = visited_nodes (ss_state s)" by (simp add: visited_nodes_def)
  show ?thesis
    using I call_inv_other [OF _ w v'] cache_inv_same [OF _ w v'] groups_hold_cong [where tgs = tgs, OF w]
    by (simp add: sync_inv_def)
qed

lemma sync_inv_step:
  assumes F: "fleet_laws cloud inst net N" and L: "store_laws cloud tgs" and sub: "\<And>p. set (calls p) \<subseteq> N"
    and X: "exclusive (ss_lock s) (\<lambda>p. in_section (ss_phase s p))"
    and I: "sync_inv cloud inst net tgs N calls s" and step: "sync_step cloud p s s'" and ok: "unfailed s'"
  shows "sync_inv cloud inst net tgs N calls s'"
  using step
proof cases
  case (nil_syncer nodes)
  with unfailedD [OF ok, of p "Abort NilDereference"] show ?thesis by simp
next
  case (lock_free nodes)
  with I have "nodes = calls p" "cache_inv cloud inst net tgs N (ss_state s)"
    by (simp_all add: sync_inv_def, metis call_inv_simps(1))
  then have "call_inv cloud inst net tgs N (calls p) (ss_state s) (Listing nodes)" by (simp add: call_inv_def)
  with I lock_free show ?thesis by (simp add: sync_inv_def)
next
  case (work ctx q st)
  have "call_inv cloud inst net tgs N (calls p) (ss_state s) (ss_phase s p)" using I by (simp add: sync_inv_def)
  from call_inv_next [OF F L sub this work(2-4)]
  have new: "call_inv cloud inst net tgs N (calls p) st (resume q)" .
  have "call_inv cloud inst net tgs N (calls k) st (ss_phase s k)" if "k \<noteq> p" for k
    using I exclusive_alone [OF X work(2), of k] that call_inv_outside [of "ss_phase s k" cloud inst net tgs N "calls k" st "ss_state s"]
    by (auto simp: sync_inv_def)
  with new work(1) exclusive_held [OF X work(2)] show ?thesis by (simp add: sync_inv_def)
next
  case (unlock r)
  with unfailedD [OF ok, of p r] have "r = Ok ()" by simp
  moreover have "call_inv cloud inst net tgs N (calls p) (ss_state s) (Leaving r)" using I unlock by (metis sync_inv_def)
  ultimately have "cache_inv cloud inst net tgs N (ss_state s)" "calls p \<noteq> [] \<longrightarrow> groups_hold tgs (world (ss_state s))
      (set (syncPlan (ClusterName (config cloud)) net inst (calls p)))"
    by (simp_all add: call_inv_def)
  with I unlock show ?thesis by (simp add: sync_inv_def)
qed

lemma sync_inv_reach:
  assumes F: "fleet_laws cloud inst net N" and L: "store_laws cloud tgs" and sub: "\<And>p. set (calls p) \<subseteq> N"
    and I: "cache_inv cloud inst net tgs N st"
    and "sync_reach cloud tgs (sync_start st calls) s" and "unfailed s"
  shows "sync_inv cloud inst net tgs N calls s"
  using assms(5,6)
proof (induction rule: sync_reach.induct)
  case sync_begin
  from I show ?case by (simp add: sync_inv_def sync_start_def)
next
  case (sync_call s p s')
  then have "sync_inv cloud inst net tgs N calls s" by (blast dest: unfailed_step)
  from sync_inv_step [OF F L sub exclusive_reach [OF sync_call.hyps(1)] this sync_call.hyps(2) sync_call.prems]
  show ?case .
next
  case (sync_other s st')
  then have "unfailed s" by (simp add: unfailed_def)
  with sync_other sync_inv_other show ?case by blast
qed

end
