(* ===== verification/CacheProperties.thy ===== *)
theory CacheProperties
  imports NodeCache Examples
begin

text \<open>
  The properties of the remembered node set: after successful runs a skipped run is as good
  as a full one; after a failed run it is not, which a cloud in memory that refuses one
  kind of request shows.
\<close>

section \<open>Skipping is right after successes\<close>

text \<open>C5: 
  The node set works as a cache: from a fresh syncer, through any sequence of successful
  synchronisations and cleanups (of nodes whose names stand for one node and instance each)
  and anything else that leaves the groups alone, a call of \<open>SyncTGs\<close> that succeeds leaves
  every group of the plan of its nodes with exactly the planned targets, whether it did the
  work or skipped it because the names were those of the last run.
\<close>

theorem skipped_sync_is_right:
  assumes "fleet_laws cloud inst net N" and "store_laws cloud tgs"
    and "visited_nodes s0 = Some {}" and "\<forall>t\<in>ran (tgs (world s0)). colon_free (tg_Targets t)"
    and "sync_history cloud tgs N s0 s" and "set nodes \<subseteq> N" and "nodes \<noteq> []"
    and "SyncTGs cloud ctx nodes s = (Ok u, s')"
    and "(n, target) \<in> set (syncPlan (ClusterName (config cloud)) net inst nodes)"
  shows "(\<lambda>t. set (tg_Targets t)) ` named tg_Name (tgs (world s')) n =
    {snd ` {p \<in> set (syncPlan (ClusterName (config cloud)) net inst nodes). fst p = n}}"
proof -
  from assms(3,4) have "cache_inv cloud inst net tgs N s0" by (intro cache_inv_fresh) (simp_all add: tgs_colon_free_def)
  with cache_inv_history [OF assms(1,2,5)] have "cache_inv cloud inst net tgs N s" by blast
  with cache_inv_sync [OF assms(1,2) _ assms(6,8)] assms(7)
  have "groups_hold tgs (world s') (set (syncPlan (ClusterName (config cloud)) net inst nodes))" by blast
  moreover have "n \<in> fst ` set (syncPlan (ClusterName (config cloud)) net inst nodes)"
    by (rule image_eqI [OF _ assms(9)]) simp
  ultimately show ?thesis unfolding groups_hold_def planned_targets_def tg_groups_def by blast
qed

lemma ex_fleet: "fleet_laws sim_cloud ex_inst sim_net (set ex_nodes)"
  using ex_nodes_known sim_subnets_known
  by (auto simp: fleet_laws_def nodes_known_def ex_nodes_def ex_node_def inj_on_def ex_inst_def sim_instances_def
      sim_instance_def)

lemma ex_store: "store_laws sim_cloud sim_tgs"
  by (simp add: store_laws_def sim_tg_laws sim_tg_cleanup sim_lists_sets sim_fair) (simp add: sim_api_def)

text \<open>The second run with the two nodes is skipped.\<close>

lemma ex_skipped:
  "SyncTGs sim_cloud CtxLive (rev ex_nodes) (ex_after {''n1'', ''n2''} ex_synced) = (Ok (), ex_after {''n1'', ''n2''} ex_synced)"
  by (simp add: SyncTGs_run ex_after_def sim_api_def synchronizeNodesWithTargetGroups_def fromNodeToInterfaceSlice_def
      theSyncer_def bind_io_def ex_nodes_def ex_node_def Let_def insert_commute)

theorem skipped_sync_is_right_witness:
  "(\<lambda>t. set (tg_Targets t)) ` named tg_Name (sim_tgs (world (snd (SyncTGs sim_cloud CtxLive (rev ex_nodes)
      (ex_after {''n1'', ''n2''} ex_synced))))) ''clusternet-a'' =
    {{ex_target, \<lparr>t_SubnetId = ''subnet-a'', t_Address = ''10.0.0.2''\<rparr>}}"
proof -
  let ?s = "ex_after {''n1'', ''n2''} ex_synced"
  have hist: "sync_history sim_cloud sim_tgs (set ex_nodes) (ex_state ex_tg_world) ?s"
    by (rule history_sync [OF history_start _ ex_sync_state]) simp
  have plan: "set (syncPlan ''cluster'' sim_net ex_inst (rev ex_nodes)) =
     {(''clusternet-a'', ex_target), (''clusternet-a'', \<lparr>t_SubnetId = ''subnet-a'', t_Address = ''10.0.0.2''\<rparr>)}"
    using syncPlan_cong [of "rev ex_nodes" ex_nodes "''cluster''" sim_net ex_inst] by (simp add: ex_plan)
  have pick: "{p \<in> {(k, a), (k, b)}. fst p = k} = {(k, a), (k, b)}" for k :: string and a b :: target by auto
  have sim_cluster: "ClusterName (config sim_cloud) = ''cluster''" by simp
  have "(\<lambda>t. set (tg_Targets t)) ` named tg_Name (sim_tgs (world ?s)) ''clusternet-a'' =
    {snd ` {p \<in> set (syncPlan (ClusterName (config sim_cloud)) sim_net ex_inst (rev ex_nodes)). fst p = ''clusternet-a''}}"
    by (rule skipped_sync_is_right [OF ex_fleet ex_store _ _ hist _ _ ex_skipped, where target = ex_target])
      (use plan ex_tg_world_colon_free in \<open>simp_all add: ex_nodes_def\<close>)
  also have "snd ` {p \<in> set (syncPlan (ClusterName (config sim_cloud)) sim_net ex_inst (rev ex_nodes)). fst p = ''clusternet-a''} =
      {ex_target, \<lparr>t_SubnetId = ''subnet-a'', t_Address = ''10.0.0.2''\<rparr>}"
    unfolding sim_cluster plan pick by simp
  finally show ?thesis by (simp add: ex_skipped)
qed

section \<open>And wrong after a failure\<close>

text \<open>C26: 
  A change of the nodes that failed half way is not undone: when a run for other nodes fails
  (at whatever request, so after any part of its changes) and the nodes are again those of
  the last successful run, \<open>SyncTGs\<close> returns without error and without a request to the
  cloud, and the groups stay as the failed run left them.
\<close>

theorem failed_change_stays:
  assumes "nodeTargetGroupSyncer s = Some ntgs" and "lastVisitedNodes ntgs = n_Name ` set nodes" and "nodes \<noteq> []"
    and "SyncTGs cloud ctx nodes' s = (r, s1)" and "r \<noteq> Ok ()"
    and "ServiceList (libs (yandexService cloud)) (serviceLister ntgs) (world s1) = (Ok services, w)"
  shows "SyncTGs cloud ctx' nodes s1 = (Ok (), s1\<lparr>world := w\<rparr>)"
proof -
  from SyncTGs_failed_visited [OF assms(4,5)] assms(1) have "nodeTargetGroupSyncer s1 = Some ntgs" by simp
  with assms(2,3,6) show ?thesis
    by (simp add: SyncTGs_run synchronizeNodesWithTargetGroups_def fromNodeToInterfaceSlice_def theSyncer_def
        bind_io_def Let_def)
qed

text \<open>A cloud that adds targets but refuses to remove them: the removed node's target stays.\<close>

definition flaky_cloud :: "sim_world Cloud" where
  "flaky_cloud = sim_cloud\<lparr>yandexService := sim_built (sim_sdk\<lparr>sdk_TargetGroup := sim_tg
     \<lparr>TgRemoveTargets := (\<lambda>ctx i ts w. (Err (RpcError (codes_Other 14) ''unavailable''), w))\<rparr>\<rparr>)\<rparr>"

definition ex_second_target :: target where
  "ex_second_target = \<lparr>t_SubnetId = ''subnet-a'', t_Address = ''10.0.0.2''\<rparr>"

definition ex_one_group :: "target list \<Rightarrow> sim_world" where
  "ex_one_group ts = sim_empty\<lparr>w_tgs := [ex_group ''clusternet-a'' ts]\<rparr>"

lemma flaky_known: "nodes_known flaky_cloud ex_inst [ex_node ''n1'']" "subnets_known flaky_cloud sim_net"
  by (simp_all add: nodes_known_def subnets_known_def ex_node_def ex_inst_def sim_instances_def sim_instance_def
      has_primary_def sim_api_def sim_list_def name_query_def name_filter_def flaky_cloud_def sim_sdk_def)

lemma ex_plan1: "syncPlan ''cluster'' sim_net ex_inst [ex_node ''n1''] = [(''clusternet-a'', ex_target)]"
  using ex_yandex [of "''n1''"]
  by (simp add: syncPlan_def planned_def found_instances_def ex_node_def ex_inst_def sim_instances_def
      sim_instance_def iface_pair_def tgKey_def sim_net_def ex_target_def del: strings_Contains.simps)

lemma flaky_run:
  "\<exists>r. SyncTGs flaky_cloud CtxLive [ex_node ''n1''] (ex_after {''n2''} (ex_one_group [ex_second_target])) =
     (Err (RpcError (codes_Other 14) ''unavailable''), ex_after {''n2''} (ex_one_group [ex_second_target, ex_target]\<lparr>w_reply := r\<rparr>))"
proof -
  let ?s = "ex_after {''n2''} (ex_one_group [ex_second_target])"
  have sync: "SyncTGs flaky_cloud CtxLive [ex_node ''n1''] ?s = synchronizeNodesWithTargetGroups flaky_cloud CtxLive [ex_node ''n1''] ?s"
    by (simp add: SyncTGs_run sim_api_def flaky_cloud_def ex_after_def)
  have "config flaky_cloud = config sim_cloud" by (simp add: flaky_cloud_def)
  then have run: "synchronizeNodesWithTargetGroups flaky_cloud CtxLive [ex_node ''n1''] ?s =
      bind_io (on_world (putMapping flaky_cloud CtxLive (grouped [(''clusternet-a'', ex_target)])))
       (\<lambda>_. setVisitedNodes {''n1''}) ?s"
    using synchronize_run [OF flaky_known, of ?s "{''n2''}" CtxLive] ex_plan1 by (simp add: ex_node_def)
  show ?thesis
    unfolding sync run
    by (simp add: putMapping_def grouped_def sim_api_def bind_io_def on_world_def setVisitedNodes_def
        ex_after_def CreateOrUpdateTG_def GetTgByName_def attempt_io_def ex_group_def ex_one_group_def ex_second_target_def
        diffTargetGroupTargets_def targetUID_def map_by_def send_if_any_def flaky_cloud_def sim_y_def opWaiter_def sim_sdk_def
        sim_empty_def sim_list_def st_view_def name_query_def name_filter_def st_update_def ex_target_def
        sim_tg_edit_def sim_answer_def Let_def del: dom_eq_empty_conv)
qed

theorem failed_change_stays_witness:
  "\<exists>s1. SyncTGs flaky_cloud CtxLive [ex_node ''n1''] (ex_after {''n2''} (ex_one_group [ex_second_target])) =
       (Err (RpcError (codes_Other 14) ''unavailable''), s1) \<and>
     SyncTGs flaky_cloud CtxLive [ex_node ''n2''] s1 = (Ok (), s1) \<and>
     w_tgs (world s1) = [ex_group ''clusternet-a'' [ex_second_target, ex_target]]"
proof -
  let ?s = "ex_after {''n2''} (ex_one_group [ex_second_target])"
  obtain r where r: "SyncTGs flaky_cloud CtxLive [ex_node ''n1''] ?s = (Err (RpcError (codes_Other 14) ''unavailable''),
      ex_after {''n2''} (ex_one_group [ex_second_target, ex_target]\<lparr>w_reply := r\<rparr>))"
    using flaky_run by blast
  let ?s1 = "ex_after {''n2''} (ex_one_group [ex_second_target, ex_target]\<lparr>w_reply := r\<rparr>)"
  have list: "ServiceList (libs (yandexService flaky_cloud)) l w = (Ok (w_services w), w)" for l w
    by (simp add: flaky_cloud_def sim_y_def sim_api_def)
  have "SyncTGs flaky_cloud CtxLive [ex_node ''n2''] ?s1 = (Ok (), ?s1\<lparr>world := world ?s1\<rparr>)"
    by (rule failed_change_stays [OF _ _ _ r _ list, where ntgs = "\<lparr>lastVisitedNodes = {''n2''}, serviceLister = Lister ''services''\<rparr>"]) (simp_all add: ex_after_def ex_node_def)
  with r show ?thesis by (simp add: ex_one_group_def)
qed

end
