(* ===== verification/SyncProperties.thy ===== *)
theory SyncProperties
  imports SyncLock CacheProperties
begin

text \<open>
  The properties of concurrent calls of the syncer, on the steps of \<open>SyncLock\<close>.
\<close>

text \<open>Two calls with the same nodes in another order, the second after the first.\<close>

definition two_syncs :: "nat \<Rightarrow> node list" where
  "two_syncs p = (if p = 0 then ex_nodes else rev ex_nodes)"

definition ex_sync_start :: "sim_world sync_system" where
  "ex_sync_start = sync_start (ex_state ex_tg_world) two_syncs"

definition ex_both_left :: "sim_world sync_system" where
  "ex_both_left = ex_sync_start\<lparr>ss_state := ex_after {''n1'', ''n2''} ex_synced,
     ss_phase := (\<lambda>p. if p \<le> 1 then HasLeft (Ok ()) else Entering (two_syncs p)), ss_log := [0, 1]\<rparr>"

lemma ex_both_left_reach: "sync_reach sim_cloud sim_tgs ex_sync_start ex_both_left"
proof -
  let ?w = "ex_after {''n1'', ''n2''} ex_synced"
  let ?s1 = "ex_sync_start\<lparr>ss_state := ?w, ss_phase := (ss_phase ex_sync_start)(0 := HasLeft (Ok ())), ss_log := [0]\<rparr>"
  have 1: "(sync_step sim_cloud 0)\<^sup>*\<^sup>* ex_sync_start ?s1"
    using call_alone_runs [of sim_cloud CtxLive ex_nodes ex_sync_start "Ok ()" ?w 0] ex_sync_state
    by (simp add: ex_sync_start_def sync_start_def two_syncs_def ex_state_def)
  have 2: "(sync_step sim_cloud 1)\<^sup>*\<^sup>* ?s1 (?s1\<lparr>ss_state := ?w, ss_phase := (ss_phase ?s1)(1 := HasLeft (Ok ())), ss_log := [0, 1]\<rparr>)"
    using call_alone_runs [of sim_cloud CtxLive "rev ex_nodes" ?s1 "Ok ()" ?w 1] ex_skipped
    by (simp add: ex_sync_start_def sync_start_def two_syncs_def ex_state_def)
  have "?s1\<lparr>ss_state := ?w, ss_phase := (ss_phase ?s1)(1 := HasLeft (Ok ())), ss_log := [0, 1]\<rparr> = ex_both_left"
    by (auto simp: ex_both_left_def ex_sync_start_def sync_start_def fun_eq_iff)
  with sync_reach_run [OF 2 sync_reach_run [OF 1 sync_begin]] show ?thesis by simp
qed

text \<open>One call inside, the other waiting.\<close>

definition ex_one_inside :: "sim_world sync_system" where
  "ex_one_inside = ex_sync_start\<lparr>ss_lock := True, ss_phase := (ss_phase ex_sync_start)(0 := Listing ex_nodes)\<rparr>"

lemma ex_one_inside_reach: "sync_reach sim_cloud sim_tgs ex_sync_start ex_one_inside"
proof -
  have "sync_step sim_cloud 0 ex_sync_start ex_one_inside"
    unfolding ex_one_inside_def
    by (rule sync_step.lock_free) (simp_all add: ex_sync_start_def sync_start_def two_syncs_def ex_state_def)
  with sync_begin show ?thesis by (rule sync_call)
qed

section \<open>Properties\<close>

text \<open>C20: 
  The calls of the syncer exclude each other: in every state that concurrent calls of
  \<open>SyncTGs\<close> can reach, the mutex is held exactly when a call is between its lock and its
  unlock, at most one call is, and only the call that holds the mutex can change the cloud
  or the remembered nodes.
\<close>

theorem sync_calls_exclusive:
  assumes "sync_reach cloud tgs (sync_start st calls) s"
  shows "(ss_lock s \<longleftrightarrow> (\<exists>p. in_section (ss_phase s p))) \<and>
    (\<forall>p q. in_section (ss_phase s p) \<longrightarrow> in_section (ss_phase s q) \<longrightarrow> p = q) \<and>
    (\<forall>p s'. sync_step cloud p s s' \<longrightarrow> ss_state s' \<noteq> ss_state s \<longrightarrow> ss_lock s \<and> in_section (ss_phase s p))"
proof -
  have X: "exclusive (ss_lock s) (\<lambda>p. in_section (ss_phase s p))" by (rule exclusive_reach [OF assms])
  have "in_section (ss_phase s p)" if "sync_step cloud p s s'" "ss_state s' \<noteq> ss_state s" for p s'
    using that by cases auto
  with X exclusive_held [OF X] show ?thesis by (auto simp: exclusive_def)
qed

theorem sync_calls_exclusive_witness:
  "\<exists>s. sync_reach sim_cloud sim_tgs (sync_start (ex_state ex_tg_world) two_syncs) s \<and> ss_lock s \<and>
     in_section (ss_phase s 0) \<and> \<not> in_section (ss_phase s 1) \<and>
     (\<forall>s'. sync_step sim_cloud 1 s s' \<longrightarrow> ss_state s' = ss_state s)"
proof -
  have reach: "sync_reach sim_cloud sim_tgs (sync_start (ex_state ex_tg_world) two_syncs) ex_one_inside"
    using ex_one_inside_reach by (simp add: ex_sync_start_def)
  moreover have "ss_lock ex_one_inside" "in_section (ss_phase ex_one_inside 0)" "\<not> in_section (ss_phase ex_one_inside 1)"
    by (simp_all add: ex_one_inside_def ex_sync_start_def sync_start_def)
  ultimately show ?thesis using sync_calls_exclusive [OF reach] by blast
qed

text \<open>C7: 
  The steps are those of the code: whatever a call of \<open>SyncTGs\<close> returns (success, an error
  of any request, a panic), the same call on a free mutex can run through its steps to
  exactly that result and that state of the cloud and of the remembered nodes, with the
  mutex free again and no other call moved.
\<close>

theorem SyncTGs_is_a_run:
  assumes "SyncTGs cloud ctx nodes (ss_state s) = (r, st)"
    and "ss_phase s p = Entering nodes" and "nodeTargetGroupSyncer (ss_state s) \<noteq> None" and "\<not> ss_lock s"
  shows "(sync_step cloud p)\<^sup>*\<^sup>* s
    (s\<lparr>ss_state := st, ss_phase := (ss_phase s)(p := HasLeft r), ss_log := ss_log s @ [p]\<rparr>)"
  by (rule call_alone_runs [OF assms])

theorem SyncTGs_is_a_run_witness:
  "(sync_step sim_cloud 0)\<^sup>*\<^sup>* ex_sync_start
     (ex_sync_start\<lparr>ss_state := ex_after {''n1'', ''n2''} ex_synced,
       ss_phase := (ss_phase ex_sync_start)(0 := HasLeft (Ok ())), ss_log := [0]\<rparr>)"
  using SyncTGs_is_a_run [of sim_cloud CtxLive ex_nodes ex_sync_start "Ok ()" "ex_after {''n1'', ''n2''} ex_synced" 0] ex_sync_state
  by (simp add: ex_sync_start_def sync_start_def two_syncs_def ex_state_def)

text \<open>C6: 
  Concurrent synchronisations do not mix: from a fresh syncer, however many calls of
  \<open>SyncTGs\<close> interleave (with nodes whose names stand for one node and instance each, and
  with anything else that leaves the groups alone), as long as the calls that have returned
  did so without error, whenever the mutex is free every group of the plan of the call that
  unlocked last has exactly the planned targets, be it that this call wrote them or that it
  skipped the work.
\<close>

theorem concurrent_syncs_hold_plan:
  assumes "fleet_laws cloud inst net N" and "store_laws cloud tgs" and "\<forall>p. set (calls p) \<subseteq> N"
    and "visited_nodes st = Some {}" and "\<forall>t\<in>ran (tgs (world st)). colon_free (tg_Targets t)"
    and "sync_reach cloud tgs (sync_start st calls) s"
    and "\<forall>p r. ss_phase s p = HasLeft r \<longrightarrow> r = Ok ()" and "\<not> ss_lock s"
    and "ss_log s = ps @ [p]" and "calls p \<noteq> []"
    and "(n, target) \<in> set (syncPlan (ClusterName (config cloud)) net inst (calls p))"
  shows "(\<lambda>t. set (tg_Targets t)) ` named tg_Name (tgs (world (ss_state s))) n =
    {snd ` {x \<in> set (syncPlan (ClusterName (config cloud)) net inst (calls p)). fst x = n}}"
proof -
  have "\<not> in_section (ss_phase s q)" for q
    using exclusive_reach [OF assms(6)] assms(8) by (simp add: exclusive_def)
  then have "ss_phase s q \<noteq> Leaving r" for q r by (metis in_section_simps(8))
  with assms(7) have ok: "unfailed s" by (auto simp: unfailed_def)
  from assms(4,5) have "cache_inv cloud inst net tgs N st" by (intro cache_inv_fresh) (simp_all add: tgs_colon_free_def)
  from sync_inv_reach [OF assms(1,2) _ this assms(6) ok] assms(3)
  have "sync_inv cloud inst net tgs N calls s" by blast
  with assms(8,9,10) have "groups_hold tgs (world (ss_state s)) (set (syncPlan (ClusterName (config cloud)) net inst (calls p)))"
    by (simp add: sync_inv_def)
  moreover have "n \<in> fst ` set (syncPlan (ClusterName (config cloud)) net inst (calls p))"
    by (rule image_eqI [OF _ assms(11)]) simp
  ultimately show ?thesis unfolding groups_hold_def planned_targets_def tg_groups_def by blast
qed

theorem concurrent_syncs_hold_plan_witness:
  "(\<lambda>t. set (tg_Targets t)) ` named tg_Name (sim_tgs (world (ss_state ex_both_left))) ''clusternet-a'' =
    {{ex_target, \<lparr>t_SubnetId = ''subnet-a'', t_Address = ''10.0.0.2''\<rparr>}}"
proof -
  have reach: "sync_reach sim_cloud sim_tgs (sync_start (ex_state ex_tg_world) two_syncs) ex_both_left"
    using ex_both_left_reach by (simp add: ex_sync_start_def)
  have plan: "set (syncPlan ''cluster'' sim_net ex_inst (two_syncs 1)) =
     {(''clusternet-a'', ex_target), (''clusternet-a'', \<lparr>t_SubnetId = ''subnet-a'', t_Address = ''10.0.0.2''\<rparr>)}"
    using syncPlan_cong [of "rev ex_nodes" ex_nodes "''cluster''" sim_net ex_inst] by (simp add: ex_plan two_syncs_def)
  have pick: "{x \<in> {(k, a), (k, b)}. fst x = k} = {(k, a), (k, b)}" for k :: string and a b :: target by auto
  have sim_cluster: "ClusterName (config sim_cloud) = ''cluster''" by simp
  have "(\<lambda>t. set (tg_Targets t)) ` named tg_Name (sim_tgs (world (ss_state ex_both_left))) ''clusternet-a'' =
    {snd ` {x \<in> set (syncPlan (ClusterName (config sim_cloud)) sim_net ex_inst (two_syncs 1)). fst x = ''clusternet-a''}}"
    by (rule concurrent_syncs_hold_plan [OF ex_fleet ex_store _ _ _ reach, where ps = "[0]" and target = ex_target])
      (use plan ex_tg_world_colon_free in \<open>simp_all add: ex_both_left_def ex_sync_start_def sync_start_def two_syncs_def
        ex_nodes_def split: if_splits\<close>)
  also have "snd ` {x \<in> set (syncPlan (ClusterName (config sim_cloud)) sim_net ex_inst (two_syncs 1)). fst x = ''clusternet-a''} =
      {ex_target, \<lparr>t_SubnetId = ''subnet-a'', t_Address = ''10.0.0.2''\<rparr>}"
    unfolding sim_cluster plan pick by simp
  finally show ?thesis .
qed

text \<open>C21: 
  No call of the syncer is stuck for ever: from every state that concurrent calls can reach,
  and for every call, there is a continuation in which that call returns; and every step of
  a call brings it nearer to its return, in a well-founded order, and moves no other call.
\<close>

theorem sync_calls_can_return:
  assumes "sync_reach cloud tgs (sync_start st calls) s"
  shows "(\<exists>s' r. (\<lambda>a b. \<exists>q. sync_step cloud q a b)\<^sup>*\<^sup>* s s' \<and> ss_phase s' p = HasLeft r) \<and>
    (\<forall>s'. sync_step cloud p s s' \<longrightarrow>
       (sync_rank (ss_phase s' p), sync_rank (ss_phase s p)) \<in> less_than <*lex*> less_than \<and>
       (\<forall>q. q \<noteq> p \<longrightarrow> ss_phase s' q = ss_phase s q)) \<and>
    wf (less_than <*lex*> less_than :: ((nat \<times> nat) \<times> nat \<times> nat) set)"
proof (intro conjI allI impI)
  show "\<exists>s' r. (\<lambda>a b. \<exists>q. sync_step cloud q a b)\<^sup>*\<^sup>* s s' \<and> ss_phase s' p = HasLeft r"
    by (rule every_call_can_end [OF exclusive_reach [OF assms]])
qed (simp_all add: sync_step_rank wf_lex_prod)

theorem sync_calls_can_return_witness:
  "ss_phase ex_one_inside 1 = Entering (rev ex_nodes) \<and>
   (\<exists>s' r. (\<lambda>a b. \<exists>q. sync_step sim_cloud q a b)\<^sup>*\<^sup>* ex_one_inside s' \<and> ss_phase s' 1 = HasLeft r)"
proof -
  have reach: "sync_reach sim_cloud sim_tgs (sync_start (ex_state ex_tg_world) two_syncs) ex_one_inside"
    using ex_one_inside_reach by (simp add: ex_sync_start_def)
  have "ss_phase ex_one_inside 1 = Entering (rev ex_nodes)"
    by (simp add: ex_one_inside_def ex_sync_start_def sync_start_def two_syncs_def)
  with sync_calls_can_return [OF reach, of 1] show ?thesis by blast
qed

end
