(* ===== verification/Spec2Isabelle.thy ===== *)
theory Spec2Isabelle
  imports ProviderProperties CleanupProperties SyncProperties
begin

text \<open>
  A verification library for the Yandex Cloud controller manager (Go), the program that
  keeps the load balancers, target groups and routes of a Kubernetes cluster in Yandex
  Cloud in step with its services and nodes.

  The program. The Kubernetes controllers call the provider object \<open>Cloud\<close>
  (\<open>pkg/cloudprovider/yandex\<close>) through four interfaces: \<open>LoadBalancer\<close>, \<open>Instances\<close>, \<open>Zones\<close> and
  \<open>Routes\<close>. \<open>Cloud\<close> holds the configuration and the API object of \<open>pkg/yapi\<close>, whose services
  make the requests to the cloud and wait for the operations. Its only state of its own
  (\<open>cloud_state\<close>) is the target group syncer with its node set, which \<open>Initialize\<close> makes, the
  listers and the lock of the route operations; everything else lives in the cloud, so the core of the program is reconciliation: list an object by
  name, compare it with what is wanted, and send the difference.

  How it is modelled. A call is a function from a state to an outcome and a state
  (\<open>Prelude\<close>): \<open>Ok\<close>, \<open>Err\<close> with one constructor per error of the source, or \<open>Abort\<close> for a nil
  dereference, an index out of range, a failed type assertion and \<open>log.Fatal\<close>. Nothing of
  the source is left unspecified in HOL. Integers that the code keeps at a width are words
  (ports, thresholds, seconds); Go strings are byte strings. The clients of the cloud, the
  SDK's operation wrapper, the listers, the informers and the service helpers of Kubernetes are not
  in the repository: they are parameters over an opaque state, the clients and the wrapper as
  the record \<open>ycsdk\<close> that \<open>NewYandexCloudAPI\<close> distributes over the services, the functions of
  imported packages as the record \<open>packages\<close>, which goes with the services' shared context. The
  latter also holds the order in which \<open>range\<close> visits a map and the order in which goroutines
  run.

  The theories, in the order of their dependencies:

  \<^item> \<open>Prelude\<close>: errors, outcomes, calls, a small logic for calls (\<open>triple\<close>, \<open>keeps\<close>,
    \<open>keeps_failing\<close>), maps of lists. \<open>GoStd\<close>: what is used of \<open>strings\<close> and \<open>strconv\<close>.
    \<open>CloudTypes\<close>: the data of the cloud and of Kubernetes and the records of the clients.
  \<^item> \<open>LbDiff\<close>: the three comparisons of \<open>yapi/loadbalancer.go\<close>. Locale \<open>differ\<close> is their
    contract (what to add, what to remove, when nothing is to do), interpreted on each.
  \<^item> \<open>YandexApi\<close>: \<open>yapi/api.go\<close>, \<open>yapi/compute.go\<close>, \<open>yapi/vpc.go\<close> and the lookups by name. The
    structs of the services extend one record with their common field \<open>cloudCtx\<close>. Locales
    \<open>name_lookup\<close> and \<open>optional_lookup\<close> are the contract of \<open>FindInstanceByName\<close>, \<open>GetLbByName\<close>
    and \<open>GetTgByName\<close>.
  \<^item> \<open>LbService\<close>: the operations of \<open>LoadBalancerService\<close>, request by request. \<open>CloudLaws\<close>:
    what they rely on of the cloud, as predicates on views of its state. \<open>Reconcile\<close>: that
    under these laws \<open>CreateOrUpdateTG\<close> and \<open>CreateOrUpdateLB\<close> implement "exactly this object
    under this name".
  \<^item> \<open>Util\<close> (\<open>util.go\<close>): provider ids, with a matcher for the two regular expressions that is
    proved sound and complete for their language. \<open>Provider\<close> (\<open>cloud.go\<close>, \<open>metadata.go\<close>, and
    \<open>main.go\<close>): configuration, construction, capabilities, start.
    \<open>Instances\<close> (\<open>instances.go\<close>, \<open>zones.go\<close>): locale \<open>node_query\<close> is the shape that the queries
    share.
  \<^item> \<open>TgSyncer\<close> (\<open>load_balancer_tg_controller.go\<close>): \<open>syncPlan\<close> is the abstract specification,
    the pairs of group name and target that the nodes amount to; a successful run makes the
    groups of the plan hold exactly its targets. \<open>Cleanup\<close>: the goroutines of
    \<open>cleanUpTargetGroups\<close> as interleaving steps (\<open>cleanup_step\<close>: request, wait, response) with
    the shared context and the first error (\<open>finish\<close> and the sequential \<open>errgroup\<close> of \<open>TgSyncer\<close>
    are the documented behaviour of the package \<open>errgroup\<close>); the sequential cleanup is proved
    to be one of the runs. \<open>NodeCache\<close>: the remembered node set as a cache, with the invariant
    that the groups hold the plan of the nodes remembered (\<open>cache_inv\<close>) along any history of
    successful runs (\<open>sync_history\<close>).
  \<^item> \<open>Mutex\<close>: locale \<open>shared_lock\<close> is the contract of a lock that the steps of several calls
    share, interpreted on the route lock and on the syncer's mutex. \<open>SyncLock\<close>: \<open>SyncTGs\<close> under
    its mutex as interleaving steps (\<open>sync_step\<close>, one request sequence each: the list of
    services, one instance, one instance's subnets, one group written or removed), with the
    lemma that one step and the rest of the code are the rest of the code, so that a whole call
    is a run, and the assertions that a call keeps up under interference (\<open>call_inv\<close>).
  \<^item> \<open>LoadBalancerCtl\<close> (\<open>load_balancer.go\<close>): names, parameters, listeners and health checks of a
    service, and the operations of the interface.
  \<^item> \<open>Routes\<close> (\<open>routes.go\<close>): the filter of the route table and the three operations; locale
    \<open>locked_operation\<close> is the contract of a call under the lock. \<open>RouteLock\<close>: the same calls
    as interleaving steps (\<open>route_step\<close>), with the invariants of reachable states and what a
    whole call does as a run of steps. An update takes effect before its call unlocks or not
    at all: the late effect of one whose wait failed (the code then unlocks while the cloud
    may still be working) is not represented.
  \<^item> \<open>Isolation\<close>: states that sequences of provider calls reach (\<open>provider_reach\<close>), with any
    outcome of any request. Locale \<open>object_invariant\<close> says what an invariant of a map of named
    objects needs, \<open>provider_invariant\<close> what an invariant of reachable states needs of the
    operations, \<open>group_invariant\<close> and \<open>balancer_invariant\<close> give the second from the first
    for target groups and load balancers; they are interpreted at "the objects of others are
    untouched" and "no two objects share a name".
  \<^item> \<open>SimCloud\<close> and \<open>Examples\<close>: a cloud in memory for which all the hypotheses about clients
    are proved, and concrete runs in it. They model no code; they show that the hypotheses
    hold together. \<open>NodeProperties\<close>, \<open>ProviderProperties\<close>, \<open>CleanupProperties\<close>, \<open>CacheProperties\<close>,
    \<open>SyncProperties\<close> and this theory hold the properties across components.

  What the theorems show. From the nodes to the listeners, \<open>EnsureLoadBalancer_establishes\<close>;
  for the parts, the refinement, stability and error theorems named C1 and up. A theorem
  about a successful call says what the cloud holds afterwards; those of kind error say what
  each refused or failing call answers and leaves untouched. Every function is total: the
  loops of the source are recursions over lists, so there is no fuel. Where threads compete,
  \<open>route_lock_not_leaked\<close> (the route lock) shows that a call is refused only while another one
  works and that every call can still get through, and \<open>sync_calls_can_return\<close> (the syncer)
  that each call can always be brought to its return. What an object in the cloud is to
  be is stated field by field (\<open>lb_matches\<close>, \<open>attached_same\<close>, \<open>health_check_same\<close>), not with the
  code's own comparisons, which are proved to agree with it.

  What is assumed of the cloud, always as a named hypothesis: \<open>tg_service_laws\<close> and
  \<open>lb_service_laws\<close> (identifiers are unique; a listing by name that is shorter than its page
  is complete; each successful request does what its name says to the one object),
  \<open>tg_cleanup_laws\<close> and \<open>lb_delete_laws\<close> (\<open>NotFound\<close> of a deletion means absent; the groups fit
  one page of 1000), \<open>tg_frame_laws\<close>, \<open>lb_frame_laws\<close> and \<open>route_frame_laws\<close> (a request,
  failed or not, changes only the object it names, and requests about one kind of object do
  not touch the other kinds), \<open>removal_laws\<close> (the steps of a deletion: an accepted request
  answers an operation, after whose wait the group is gone), \<open>route_laws\<close> (an update takes effect as a whole or not at all),
  \<open>nodes_known\<close> and \<open>subnets_known\<close> (instances and subnets are found and have primary
  addresses), \<open>lists_sets\<close> and \<open>fair_orders\<close> (each element once), \<open>lister_laws\<close>. They describe
  a cloud that nobody else changes during the call; \<open>CreateOrUpdateTG_vanished\<close> of \<open>Reconcile\<close> shows what
  happens otherwise. The refinement theorems speak of calls that return without error; the
  calls can fail at every request, and then the reconciliation is partial.

  Not modelled: logging and debug output; the HTTP timeouts and the closing of response
  bodies; the inside of the informers that \<open>Initialize\<close> starts (they are parameters, called in
  the order of the code); the flags and the command
  that \<open>main\<close> takes from the Kubernetes library; charts, manifests and build scripts. Calls
  interleave at the syncer's mutex (\<open>SyncLock\<close>), at the route lock (\<open>RouteLock\<close>) and in the
  cleanup (\<open>Cleanup\<close>); two calls about the load balancer of one service are not interleaved
  with each other, the service controller makes them one after the other.
\<close>

section \<open>The load balancer service\<close>

text \<open>C2: 
  \<open>CreateOrUpdateLB\<close> when it returns without error (created, recreated because of its type,
  updated in place or left alone): one load balancer has the name, with the wanted type;
  its listeners have the wanted triples of protocol, port and target port and no others;
  each is newly made under the wanted name, or one of the balancer that was there with that
  type, which stays as it was (its name and address are not compared); each wanted target
  group is attached, and no other, with a first health check of the wanted name,
  thresholds, HTTP port and path, interval and timeout; the address returned is that of the
  first listener; every load balancer of another name is as before.
\<close>

theorem CreateOrUpdateLB_refines:
  assumes "lb_service_laws y lbs" and "specs_wf specs" and "attached_wf atgs"
    and "CreateOrUpdateLB y ctx name specs atgs w = (Ok addr, w')"
  shows "(\<exists>c. named lb_Name (lbs w') name = {c} \<and> lb_Type c = nlbTypeOf specs \<and> firstAddress c = Ok addr \<and>
      (\<lambda>l. (l_Protocol l, l_Port l, l_TargetPort l)) ` set (lb_Listeners c) =
        (\<lambda>s. (ls_Protocol s, ls_Port s, ls_TargetPort s)) ` set specs \<and>
      (\<forall>l\<in>set (lb_Listeners c).
        (\<exists>s\<in>set specs. l_Name l = ls_Name s \<and> (l_Protocol l, l_Port l, l_TargetPort l) = (ls_Protocol s, ls_Port s, ls_TargetPort s)) \<or>
        (\<exists>b\<in>named lb_Name (lbs w) name. lb_Type b = nlbTypeOf specs \<and> l \<in> set (lb_Listeners b))) \<and>
      (\<forall>b\<in>named lb_Name (lbs w) name. lb_Type b = nlbTypeOf specs \<longrightarrow>
        (\<forall>l\<in>set (lb_Listeners b). (l_Protocol l, l_Port l, l_TargetPort l) \<in>
            (\<lambda>s. (ls_Protocol s, ls_Port s, ls_TargetPort s)) ` set specs \<longrightarrow> l \<in> set (lb_Listeners c))) \<and>
      at_TargetGroupId ` set (lb_AttachedTargetGroups c) = at_TargetGroupId ` set atgs \<and>
      (\<forall>a\<in>set (lb_AttachedTargetGroups c). \<exists>e\<in>set atgs. \<exists>h hs k ks. at_TargetGroupId a = at_TargetGroupId e \<and>
        at_HealthChecks a = h # hs \<and> at_HealthChecks e = k # ks \<and> hc_Name h = hc_Name k \<and>
        hc_UnhealthyThreshold h = hc_UnhealthyThreshold k \<and> hc_HealthyThreshold h = hc_HealthyThreshold k \<and>
        hc_HttpOptions h = hc_HttpOptions k \<and> GetSeconds (hc_Interval h) = GetSeconds (hc_Interval k) \<and>
        GetSeconds (hc_Timeout h) = GetSeconds (hc_Timeout k))) \<and>
    (\<forall>m. m \<noteq> name \<longrightarrow> named lb_Name (lbs w') m = named lb_Name (lbs w) m)"
proof -
  from CreateOrUpdateLB_puts [OF assms] obtain c where c: "named lb_Name (lbs w') name = {c}" "firstAddress c = Ok addr"
    "lb_matches c specs atgs" "lb_from (updatable lbs w name specs) c specs atgs"
    and frame: "\<forall>m. m \<noteq> name \<longrightarrow> named lb_Name (lbs w') m = named lb_Name (lbs w) m"
    by (auto simp: lb_put_def)
  note M = c(3) [unfolded lb_matches_def] and B = c(4) [unfolded lb_from_def updatable_def]
  have same: "\<forall>a\<in>set (lb_AttachedTargetGroups c). \<exists>e\<in>set atgs. \<exists>h hs k ks. at_TargetGroupId a = at_TargetGroupId e \<and>
        at_HealthChecks a = h # hs \<and> at_HealthChecks e = k # ks \<and> hc_Name h = hc_Name k \<and>
        hc_UnhealthyThreshold h = hc_UnhealthyThreshold k \<and> hc_HealthyThreshold h = hc_HealthyThreshold k \<and>
        hc_HttpOptions h = hc_HttpOptions k \<and> GetSeconds (hc_Interval h) = GetSeconds (hc_Interval k) \<and>
        GetSeconds (hc_Timeout h) = GetSeconds (hc_Timeout k)"
    using M by (fastforce simp: attached_same_def health_check_same_def)
  have ids: "at_TargetGroupId ` set (lb_AttachedTargetGroups c) = at_TargetGroupId ` set atgs"
    using M by (auto simp: image_iff dest: attached_same_id) (metis attached_same_id)+
  have ty: "lb_Type c = nlbTypeOf specs" and triples: "l_key ` set (lb_Listeners c) = ls_key ` set specs"
    using M by blast+
  have fresh: "\<forall>l\<in>set (lb_Listeners c). (\<exists>s\<in>set specs. l_Name l = ls_Name s \<and> l_key l = ls_key s) \<or>
      (\<exists>b\<in>named lb_Name (lbs w) name. lb_Type b = nlbTypeOf specs \<and> l \<in> set (lb_Listeners b))"
    using B by blast
  have kept: "\<forall>b\<in>named lb_Name (lbs w) name. lb_Type b = nlbTypeOf specs \<longrightarrow>
      (\<forall>l\<in>set (lb_Listeners b). l_key l \<in> ls_key ` set specs \<longrightarrow> l \<in> set (lb_Listeners c))"
    using B by blast
  note facts = triples fresh kept
  show ?thesis
    by (rule conjI, rule exI [of _ c], intro conjI)
      (rule c ty facts [unfolded l_key_def [abs_def] ls_key_def [abs_def]] ids same frame)+
qed

theorem CreateOrUpdateLB_refines_witness:
  "\<exists>w' c. CreateOrUpdateLB (LbSvc sim_y) CtxLive ''lb'' [ex_spec] [ex_attached] sim_empty = (Ok ''203.0.113.7'', w') \<and>
     named lb_Name (sim_lbs w') ''lb'' = {c} \<and> lb_Type c = NLB_EXTERNAL \<and>
     l_Port ` set (lb_Listeners c) = {80} \<and> l_Name ` set (lb_Listeners c) = {''http''}"
proof -
  obtain w' where run: "CreateOrUpdateLB (LbSvc sim_y) CtxLive ''lb'' [ex_spec] [ex_attached] sim_empty = (Ok ''203.0.113.7'', w')"
    using ex_create_lb by blast
  have none: "named lb_Name (sim_lbs sim_empty) ''lb'' = {}"
    by (simp add: named_def sim_lbs_def sim_lb_list_def sim_empty_def st_view_def ran_def)
  from CreateOrUpdateLB_refines [OF sim_lb_laws ex_specs_wf run] obtain c where
    c: "named lb_Name (sim_lbs w') ''lb'' = {c}" "lb_Type c = nlbTypeOf [ex_spec]"
    and ports: "(\<lambda>l. (l_Protocol l, l_Port l, l_TargetPort l)) ` set (lb_Listeners c) = {(Listener_TCP, 80, 30080)}"
    and names: "\<forall>l\<in>set (lb_Listeners c). l_Name l = ''http''"
    by (auto simp: none ex_spec_def)
  from arg_cong [OF ports, of "image (fst \<circ> snd)"] have "l_Port ` set (lb_Listeners c) = {80}"
    by (simp add: image_image)
  moreover from ports names have "l_Name ` set (lb_Listeners c) = {''http''}" by force
  moreover have "nlbTypeOf [ex_spec] = NLB_EXTERNAL" by (simp add: ex_spec_def)
  ultimately show ?thesis using run c by auto
qed

text \<open>C3: 
  \<open>CreateOrUpdateTG\<close> implements "exactly these targets under this name": when it returns
  without error, one target group has the name, its identifier is returned, its targets
  are the wanted ones as a set, and every group of another name is as before. (The code
  compares targets by \<open>subnet:address\<close>, hence the condition on the subnets' identifiers.)
\<close>

theorem CreateOrUpdateTG_refines:
  assumes "tg_service_laws y tgs" and "lists_sets (StringSet_List (libs y))"
    and "\<forall>t\<in>ran (tgs w). colon_free (tg_Targets t)" and "colon_free ts"
    and "CreateOrUpdateTG y ctx name ts w = (Ok i, w')"
  shows "(\<exists>t. named tg_Name (tgs w') name = {t} \<and> tg_Id t = i \<and> set (tg_Targets t) = set ts) \<and>
    (\<forall>m. m \<noteq> name \<longrightarrow> named tg_Name (tgs w') m = named tg_Name (tgs w) m)"
  using CreateOrUpdateTG_puts [of y tgs w ts ctx name i w'] assms
  by (simp add: tg_put_def tgs_colon_free_def)

theorem CreateOrUpdateTG_refines_witness:
  "\<exists>w' t. CreateOrUpdateTG (LbSvc sim_y) CtxLive ''g'' [ex_target] ex_tg_world = (Ok ''idg'', w') \<and>
     named tg_Name (sim_tgs w') ''g'' = {t} \<and> set (tg_Targets t) = {ex_target}"
proof -
  have "\<forall>t\<in>ran (sim_tgs ex_tg_world). colon_free (tg_Targets t)"
    by (auto simp: sim_tgs_def ex_tg_world_def sim_empty_def ex_group_def st_view_def ran_def
        colon_free_def ex_old_target_def split: if_splits)
  moreover have "colon_free [ex_target]" by (simp add: colon_free_def ex_target_def)
  ultimately show ?thesis
    using ex_update_tg CreateOrUpdateTG_refines [OF sim_tg_laws, of ex_tg_world "[ex_target]"] sim_lists_sets
    by fastforce
qed

text \<open>
  Putting the same targets twice: the second run lists by name once, sends nothing and
  returns the same identifier.
\<close>

theorem CreateOrUpdateTG_twice:
  assumes laws: "tg_service_laws y tgs" and sets: "lists_sets (StringSet_List (libs y))"
    and cf: "\<forall>t\<in>ran (tgs w). colon_free (tg_Targets t)" "colon_free ts"
    and run: "CreateOrUpdateTG y ctx name ts w = (Ok i, w')"
    and again: "GetTgByName y ctx name w' = (Ok found, w2)"
  shows "CreateOrUpdateTG y ctx name ts w' = (Ok i, w2)"
proof -
  from CreateOrUpdateTG_puts [OF laws sets _ cf(2) run] cf(1) obtain t where
    one: "named tg_Name (tgs w') name = {t}" and t: "tg_Id t = i" "set (tg_Targets t) = set ts"
    by (auto simp: tg_put_def tgs_colon_free_def)
  from tg_lookup.find_named(2) [OF tg_law_list [OF laws] tg_law_many [OF laws] again] one
  have "found = Some t" by (cases found) auto
  moreover from cf(2) t(2) have "colon_free (tg_Targets t)" by (simp add: colon_free_set)
  ultimately show ?thesis using CreateOrUpdateTG_stable [OF sets cf(2)] again t by blast
qed

theorem CreateOrUpdateTG_twice_witness:
  "\<exists>w'. CreateOrUpdateTG (LbSvc sim_y) CtxLive ''g'' [ex_target] ex_tg_world = (Ok ''idg'', w') \<and>
     CreateOrUpdateTG (LbSvc sim_y) CtxLive ''g'' [ex_target] w' = (Ok ''idg'', w')"
proof -
  have sets: "lists_sets (StringSet_List (libs (LbSvc sim_y)))" by (simp add: sim_lists_sets)
  show ?thesis
    using ex_update_tg ex_update_tg_list
      CreateOrUpdateTG_twice [OF sim_tg_laws sets ex_tg_world_colon_free ex_target_colon_free] by blast
qed

section \<open>The target group syncer\<close>

text \<open>C4: 
  A successful synchronisation with a new set of nodes: for every network (and prefix) of
  the nodes' interfaces there is one target group, named by prefix, cluster and network,
  and its targets are exactly the addresses of the Yandex nodes' interfaces in that
  network; every group of another name is as before; and the node set is remembered.
\<close>

theorem SyncTGs_synchronises:
  assumes known: "nodes_known cloud inst nodes" "subnets_known cloud net"
    and ids: "\<forall>nd\<in>set nodes. n_ProviderID nd \<noteq> []"
    and new: "nodes \<noteq> []" "visited_nodes s = Some visited" "visited \<noteq> n_Name ` set nodes"
    and laws: "tg_service_laws (LbSvc (yandexService cloud)) tgs"
      "lists_sets (StringSet_List (libs (LbSvc (yandexService cloud))))" "fair_orders (libs (yandexService cloud))"
    and lister: "\<And>l w. tgs (snd (ServiceList (libs (yandexService cloud)) l w)) = tgs w"
    and cf: "\<forall>t\<in>ran (tgs (world s)). colon_free (tg_Targets t)"
      "\<forall>p\<in>set (syncPlan (ClusterName (config cloud)) net inst nodes). CHR '':'' \<notin> set (t_SubnetId (snd p))"
    and run: "SyncTGs cloud ctx nodes s = (Ok u, s')"
  shows "(\<lambda>t. set (tg_Targets t)) ` named tg_Name (tgs (world s')) n =
      (case grouped (syncPlan (ClusterName (config cloud)) net inst nodes) n of
         Some ts \<Rightarrow> {set ts} | None \<Rightarrow> (\<lambda>t. set (tg_Targets t)) ` named tg_Name (tgs (world s)) n) \<and>
    visited_nodes s' = Some (n_Name ` set nodes)"
  using SyncTGs_puts [OF known ids new laws lister cf run] by (simp add: tg_groups_def split: option.split)

theorem SyncTGs_synchronises_witness:
  "\<exists>s'. SyncTGs sim_cloud CtxLive ex_nodes (ex_state ex_tg_world) = (Ok (), s') \<and>
     (\<lambda>t. set (tg_Targets t)) ` named tg_Name (sim_tgs (world s')) ''clusternet-a'' =
       {{ex_target, \<lparr>t_SubnetId = ''subnet-a'', t_Address = ''10.0.0.2''\<rparr>}}"
proof -
  obtain s' where s': "SyncTGs sim_cloud CtxLive ex_nodes (ex_state ex_tg_world) = (Ok (), s')"
    using ex_sync_run by blast
  have "(\<lambda>t. set (tg_Targets t)) ` named tg_Name (sim_tgs (world s')) ''clusternet-a'' =
      (case grouped (syncPlan (ClusterName (config sim_cloud)) sim_net ex_inst ex_nodes) ''clusternet-a'' of
         Some ts \<Rightarrow> {set ts} | None \<Rightarrow> (\<lambda>t. set (tg_Targets t)) `
           named tg_Name (sim_tgs (world (ex_state ex_tg_world))) ''clusternet-a'')"
    using ex_sync_facts ex_plan sim_tg_laws sim_lists_sets sim_fair ex_tg_world_colon_free
    by (intro SyncTGs_synchronises [OF ex_nodes_known sim_subnets_known, where visited = "{}", THEN conjunct1, OF _ _ _ _ _ _ _ _ _ _ s'])
      (auto simp: ex_state_def sim_api_def ex_target_def)
  with s' show ?thesis by (simp add: ex_plan grouped_def)
qed

text \<open>
  A run of the syncer that does not succeed (an error, or a panic) leaves the remembered
  node set as it was, so the next call with the same nodes does the work again; and a call
  on a provider whose syncer was never initialised panics before any request.
\<close>

theorem SyncTGs_failure_is_retried:
  assumes "SyncTGs cloud ctx nodes s = (r, s')" and "r \<noteq> Ok ()"
  shows "nodeTargetGroupSyncer s' = nodeTargetGroupSyncer s \<and>
    (nodeTargetGroupSyncer s = None \<longrightarrow> r = Abort NilDereference \<and> s' = s)"
  using SyncTGs_failed_visited [OF assms] assms(1) by (auto simp: SyncTGs_run)

theorem SyncTGs_failure_is_retried_witness:
  "fst (SyncTGs sim_cloud CtxLive [ex_node []\<lparr>n_ProviderID := []\<rparr>] (ex_state sim_empty)) \<noteq> Ok () \<and>
   nodeTargetGroupSyncer (snd (SyncTGs sim_cloud CtxLive [ex_node []\<lparr>n_ProviderID := []\<rparr>] (ex_state sim_empty)))
     = nodeTargetGroupSyncer (ex_state sim_empty)"
  using SyncTGs_failure_is_retried [OF ex_sync_fails] by (simp add: ex_sync_fails)

text \<open>
  One node without a provider id stops the whole synchronisation: it fails before any
  target group is touched, whatever the other nodes are.
\<close>

theorem SyncTGs_needs_provider_ids:
  assumes "\<And>l w. tgs (snd (ServiceList (libs (yandexService cloud)) l w)) = tgs w"
    and "\<And>ctx q w. tgs (snd (InstanceList (InstanceSvc (ComputeSvc (yandexService cloud))) ctx q w)) = tgs w"
    and "nd \<in> set nodes" and "n_ProviderID nd = []"
    and "visited_nodes s = Some visited" and "visited \<noteq> n_Name ` set nodes"
    and "SyncTGs cloud ctx nodes s = (r, s')"
  shows "r \<noteq> Ok () \<and> tgs (world s') = tgs (world s)"
proof -
  have "keeps (\<lambda>w. tgs w = tgs (world s)) (ServiceList (libs (yandexService cloud)) l)"
    and "keeps (\<lambda>w. tgs w = tgs (world s)) (InstanceList (InstanceSvc (ComputeSvc (yandexService cloud))) ctx q)" for l ctx q
    using assms(1,2) by (simp_all add: keeps_def)
  from SyncTGs_empty_id [OF this _ assms(5,6,7)] assms(3,4) show ?thesis by blast
qed

theorem SyncTGs_needs_provider_ids_witness:
  "sim_tgs (world (snd (SyncTGs sim_cloud CtxLive [ex_node []\<lparr>n_ProviderID := []\<rparr>] (ex_state sim_empty)))) =
     sim_tgs sim_empty"
proof -
  let ?nd = "ex_node []\<lparr>n_ProviderID := []\<rparr>"
  have "sim_tgs (world (ex_state sim_empty)) = sim_tgs (world (ex_state sim_empty)) \<and>
      Err (ErrProviderIDEmpty []) \<noteq> Ok ()"
    using SyncTGs_needs_provider_ids [of sim_tgs sim_cloud ?nd "[?nd]" "ex_state sim_empty" "{}",
        OF _ _ _ _ _ _ ex_sync_fails]
    by (simp add: sim_api_def ex_state_def)
  then show ?thesis by (simp only: ex_sync_fails snd_conv) (simp add: ex_state_def)
qed

text \<open>C27: 
  Nodes whose names are those of the last successful run are not looked at again: the
  call lists the services and returns, so a node that kept its name but changed its
  instance, its address or its annotation is not synchronised.
\<close>

theorem SyncTGs_same_names_skipped:
  assumes "nodeTargetGroupSyncer s = Some ntgs" and "lastVisitedNodes ntgs = n_Name ` set nodes" and "nodes \<noteq> []"
    and "ServiceList (libs (yandexService cloud)) (serviceLister ntgs) (world s) = (Ok services, w)"
  shows "SyncTGs cloud ctx nodes s = (Ok (), s\<lparr>world := w\<rparr>)"
  using assms by (simp add: SyncTGs_run synchronizeNodesWithTargetGroups_def fromNodeToInterfaceSlice_def
      theSyncer_def bind_io_def Let_def)

theorem SyncTGs_same_names_skipped_witness:
  "SyncTGs sim_cloud CtxLive [ex_node ''n1''\<lparr>n_ProviderID := []\<rparr>]
     (ex_after {''n1''} sim_empty) =
   (Ok (), ex_after {''n1''} sim_empty)"
  using SyncTGs_same_names_skipped [of "ex_after {''n1''} sim_empty" _
      "[ex_node ''n1''\<lparr>n_ProviderID := []\<rparr>]" sim_cloud "[]" sim_empty CtxLive]
  by (simp add: ex_node_def ex_state_def sim_api_def sim_empty_def)

text \<open>C18: 
  The cleanup after the last load balancer service: when it succeeds (and the target groups
  of the folder fit the one page of 1000 that the code lists), the groups that are gone are exactly
  those whose name contains the cluster's name, all others are untouched, and the
  remembered node set is empty. The test is \<open>strings.Contains\<close>, so a group of another
  cluster whose name contains this cluster's name goes too.
\<close>

theorem cleanUpTargetGroups_removes:
  assumes "tg_service_laws (LbSvc (yandexService cloud)) tgs" "tg_cleanup_laws (LbSvc (yandexService cloud)) tgs"
    and "fair_orders (libs (yandexService cloud))"
    and "fits_page (tgs (world s))"
    and "cleanUpTargetGroups cloud ctx s = (Ok u, s')"
  shows "tgs (world s') = (\<lambda>i. case tgs (world s) i of None \<Rightarrow> None
      | Some t \<Rightarrow> if \<exists>a b. tg_Name t = a @ ClusterName (config cloud) @ b then None else Some t) \<and>
    visited_nodes s' = Some {}"
  using cleanUp_removes [OF assms] by (auto simp: Contains_iff fun_eq_iff split: option.split)

theorem cleanUpTargetGroups_removes_witness:
  "sim_tgs (world (snd (cleanUpTargetGroups sim_cloud CtxLive (ex_state ex_two_clusters)))) ''idmy-cluster-2net'' = None"
proof -
  have few: "fits_page (sim_tgs (world (ex_state ex_two_clusters)))"
    by (rule sim_fits_page) (simp add: ex_state_def ex_two_clusters_def sim_empty_def)
  have "\<exists>a b. ''my-cluster-2net'' = a @ ClusterName (config sim_cloud) @ b"
    by (rule exI [of _ "''my-''"]) simp
  moreover have "sim_tgs (world (ex_state ex_two_clusters)) ''idmy-cluster-2net'' = Some (ex_group ''my-cluster-2net'' [])"
    by (simp add: sim_tgs_def ex_state_def ex_two_clusters_def sim_empty_def st_view_def ex_group_def)
  ultimately show ?thesis
    using cleanUpTargetGroups_removes [of sim_cloud sim_tgs "ex_state ex_two_clusters", OF _ _ _ few ex_cleanup_run]
      sim_tg_laws sim_tg_cleanup sim_fair
    by (simp add: ex_cleanup_run ex_group_def)
qed

section \<open>Load balancers of services\<close>

text \<open>C1: 
  \<open>EnsureLoadBalancer\<close> from the nodes to the listeners: when it succeeds for a new set of
  nodes and a valid service, one load balancer has the service's name, internal or external
  as its parameters say; its listeners' protocols, ports and target ports are those of the
  service's ports and no others; one target group is attached, the only one of its name in
  the cloud, whose targets are exactly the planned addresses; its health check asks by HTTP
  for the path and port of the service's own check when only local traffic is wanted, and
  \<open>/healthz\<close> on 10256 otherwise, with the annotated interval, timeout and thresholds or the
  defaults 2, 1, 2 and 2; the status holds the address of the first listener.
\<close>

theorem EnsureLoadBalancer_establishes:
  assumes known: "nodes_known yc inst nodes" "subnets_known yc net"
    and ids: "\<forall>nd\<in>set nodes. n_ProviderID nd \<noteq> []"
    and new: "visited_nodes s = Some visited" "visited \<noteq> n_Name ` set nodes"
    and laws: "tg_service_laws (LbSvc (yandexService yc)) tgs" "lb_service_laws (LbSvc (yandexService yc)) lbs"
      "lists_sets (StringSet_List (libs (LbSvc (yandexService yc))))" "fair_orders (libs (yandexService yc))"
    and frames: "\<And>l w. tgs (snd (ServiceList (libs (yandexService yc)) l w)) = tgs w"
      "\<And>v. lb_requests_keep (LbSvc (yandexService yc)) (\<lambda>w. tgs w = v)"
      "\<And>ctx q w. lbs (snd (TgList (lbs_TgSvc (LbSvc (yandexService yc))) ctx q w)) = lbs w"
    and cf: "\<forall>t\<in>ran (tgs (world s)). colon_free (tg_Targets t)"
      "\<forall>p\<in>set (syncPlan (ClusterName (config yc)) net inst nodes). CHR '':'' \<notin> set (t_SubnetId (snd p))"
    and ports: "valid_ports (s_Ports svc)"
    and run: "EnsureLoadBalancer yc ctx svc nodes s = (Ok st, s')"
  shows "\<exists>prm c t addr. getLoadBalancerParameters yc svc = Ok prm \<and>
    named lb_Name (lbs (world s')) (defaultLoadBalancerName svc) = {c} \<and>
    lb_Type c = (if p_internal prm then NLB_INTERNAL else NLB_EXTERNAL) \<and>
    (\<lambda>l. (l_Protocol l, l_Port l, l_TargetPort l)) ` set (lb_Listeners c) =
      (\<lambda>p. (kubeToYandexServiceProtoMapping (sp_Protocol p), scast (sp_Port p), scast (sp_NodePort p))) ` set (s_Ports svc) \<and>
    (\<exists>a h hs. lb_AttachedTargetGroups c = [a] \<and> at_TargetGroupId a = tg_Id t \<and> at_HealthChecks a = h # hs \<and>
      hc_Name h = ''kube-health-check'' \<and>
      hc_HttpOptions h = Some (if RequestsOnlyLocalTraffic (libs (yandexService yc)) svc
        then \<lparr>ho_Port = scast (snd (GetServiceHealthCheckPathPort (libs (yandexService yc)) svc)),
              ho_Path = fst (GetServiceHealthCheckPathPort (libs (yandexService yc)) svc)\<rparr>
        else \<lparr>ho_Port = 10256, ho_Path = ''/healthz''\<rparr>) \<and>
      GetSeconds (hc_Interval h) = (if 0 <s p_healthcheckIntervalSeconds prm then p_healthcheckIntervalSeconds prm else 2) \<and>
      GetSeconds (hc_Timeout h) = (if 0 <s p_healthcheckTimeoutSeconds prm then p_healthcheckTimeoutSeconds prm else 1) \<and>
      hc_UnhealthyThreshold h = (if 0 <s p_healthcheckUnhealthyThreshold prm then p_healthcheckUnhealthyThreshold prm else 2) \<and>
      hc_HealthyThreshold h = (if 0 <s p_healthcheckHealthyThreshold prm then p_healthcheckHealthyThreshold prm else 2)) \<and>
    firstAddress c = Ok addr \<and> st = \<lparr>st_Ingress = [addr]\<rparr> \<and>
    named tg_Name (tgs (world s')) (tgNameOf yc prm) = {t} \<and>
    (\<forall>ts. grouped (syncPlan (ClusterName (config yc)) net inst nodes) (tgNameOf yc prm) = Some ts \<longrightarrow>
       set (tg_Targets t) = set ts)"
proof -
  from EnsureLoadBalancer_puts [OF assms] obtain prm c t addr where
    prm: "getLoadBalancerParameters yc svc = Ok prm" and
    c: "named lb_Name (lbs (world s')) (defaultLoadBalancerName svc) = {c}" and
    m: "lb_matches c (listenerSpecsOf prm svc) (wanted_target_group yc prm svc (tg_Id t))" and
    addr: "firstAddress c = Ok addr" and
    rest: "st = \<lparr>st_Ingress = [addr]\<rparr>" "named tg_Name (tgs (world s')) (tgNameOf yc prm) = {t}"
      "\<forall>ts. grouped (syncPlan (ClusterName (config yc)) net inst nodes) (tgNameOf yc prm) = Some ts \<longrightarrow>
         set (tg_Targets t) = set ts"
    by blast
  have "lbs (world s') (lb_Id c) = Some c"
    by (rule named_sing_lookup(1) [OF c]) (rule lb_law_ids [OF laws(2)])
  note M = matches_service [OF m lb_law_wf [OF laws(2) this] addr]
  from M(3) obtain a h hs where a: "lb_AttachedTargetGroups c = [a]" "at_TargetGroupId a = tg_Id t" "at_HealthChecks a = h # hs"
    and h: "health_check_same h (healthCheckOf (yandexService yc) prm svc)" by blast
  note H = h [unfolded health_check_same_def healthCheck_fields]
  show ?thesis
    by (intro exI [of _ prm] exI [of _ c] exI [of _ t] exI [of _ addr] exI [of _ a] exI [of _ h] exI [of _ hs] conjI)
      (use prm c addr rest a H M(1) M(2) [unfolded l_key_def [abs_def] port_key_def [abs_def]] in \<open>auto simp: GetSeconds_def\<close>)
qed

theorem EnsureLoadBalancer_establishes_witness:
  "\<exists>s' c t. EnsureLoadBalancer sim_cloud CtxLive ex_service ex_nodes (ex_state ex_tg_world) =
       (Ok \<lparr>st_Ingress = [''203.0.113.7'']\<rparr>, s') \<and>
     named lb_Name (sim_lbs (world s')) (defaultLoadBalancerName ex_service) = {c} \<and>
     named tg_Name (sim_tgs (world s')) ''clusternet-a'' = {t} \<and>
     set (tg_Targets t) = {ex_target, \<lparr>t_SubnetId = ''subnet-a'', t_Address = ''10.0.0.2''\<rparr>}"
proof -
  obtain w' where "ensureLB sim_cloud CtxLive ex_service ex_nodes ex_synced = (Ok \<lparr>st_Ingress = [''203.0.113.7'']\<rparr>, w')"
    using ex_ensure_lb by blast
  then have "EnsureLoadBalancer sim_cloud CtxLive ex_service ex_nodes (ex_state ex_tg_world) =
      (Ok \<lparr>st_Ingress = [''203.0.113.7'']\<rparr>, ex_after {''n1'', ''n2''} w')"
    by (subst EnsureLoadBalancer_def, subst bind_io_run, subst ex_sync_state) (simp add: on_world_def ex_state_def)
  then obtain s' where run: "EnsureLoadBalancer sim_cloud CtxLive ex_service ex_nodes (ex_state ex_tg_world) =
      (Ok \<lparr>st_Ingress = [''203.0.113.7'']\<rparr>, s')" by blast
  have laws: "tg_service_laws (LbSvc (yandexService sim_cloud)) sim_tgs" "lb_service_laws (LbSvc (yandexService sim_cloud)) sim_lbs"
    "lists_sets (StringSet_List (libs (LbSvc (yandexService sim_cloud))))" "fair_orders (libs (yandexService sim_cloud))"
    by (simp_all add: sim_tg_laws sim_lb_laws sim_lists_sets sim_fair)
  have new: "visited_nodes (ex_state ex_tg_world) = Some {}" "{} \<noteq> n_Name ` set ex_nodes"
    using ex_sync_facts(3) by (auto simp: ex_state_def)
  have cf: "\<forall>t\<in>ran (sim_tgs (world (ex_state ex_tg_world))). colon_free (tg_Targets t)"
    "\<forall>p\<in>set (syncPlan (ClusterName (config sim_cloud)) sim_net ex_inst ex_nodes). CHR '':'' \<notin> set (t_SubnetId (snd p))"
    using ex_tg_world_colon_free by (simp_all add: ex_state_def ex_plan ex_target_def)
  have "tgNameOf sim_cloud ex_params = ''clusternet-a''"
    by (simp add: tgNameOf_def ex_params_def zero_parameters_def)
  moreover have "grouped (syncPlan (ClusterName (config sim_cloud)) sim_net ex_inst ex_nodes) ''clusternet-a'' =
      Some [ex_target, \<lparr>t_SubnetId = ''subnet-a'', t_Address = ''10.0.0.2''\<rparr>]"
    by (simp add: ex_plan grouped_def)
  ultimately show ?thesis
    using EnsureLoadBalancer_establishes [OF ex_nodes_known sim_subnets_known ex_sync_facts(1) new laws
        _ _ _ cf ex_ports run] sim_frames run ex_params_of
    by fastforce
qed

text \<open>C8: 
  \<open>EnsureLoadBalancerDeleted\<close>: when it succeeds, no load balancer has the service's name
  (also when there was none, or when the deletion found it gone) and the ones of other
  names are as before; the target groups are untouched while an active load balancer
  service is left, and otherwise exactly those whose name contains the cluster's name are
  gone.
\<close>

theorem EnsureLoadBalancerDeleted_removes:
  assumes "lb_service_laws (LbSvc (yandexService yc)) lbs" "lb_delete_laws (LbSvc (yandexService yc)) lbs"
    and "tg_service_laws (LbSvc (yandexService yc)) tgs" "tg_cleanup_laws (LbSvc (yandexService yc)) tgs"
    and "fair_orders (libs (yandexService yc))" "lister_laws (yandexService yc) svcs tgs lbs"
    and "fits_page (tgs (world s))"
    and "EnsureLoadBalancerDeleted yc ctx svc s = (Ok u, s')"
  shows "named lb_Name (lbs (world s')) m =
      (if m = defaultLoadBalancerName svc then {} else named lb_Name (lbs (world s)) m) \<and>
    tgs (world s') =
      (if \<exists>x\<in>set (svcs (world s)). s_Type x = ServiceTypeLoadBalancer \<and> \<not> s_Deleted x then tgs (world s)
       else (\<lambda>i. case tgs (world s) i of None \<Rightarrow> None
         | Some t \<Rightarrow> if strings_Contains (tg_Name t) (ClusterName (config yc)) then None else Some t))"
  using EnsureLoadBalancerDeleted_run [OF assms] by (simp add: groups_after_delete_def activeServices_iff)

theorem EnsureLoadBalancerDeleted_removes_witness:
  "\<exists>s'. EnsureLoadBalancerDeleted sim_cloud CtxLive ex_service (ex_state ex_two_clusters) = (Ok (), s') \<and>
     named lb_Name (sim_lbs (world s')) (defaultLoadBalancerName ex_service) = {} \<and>
     sim_tgs (world s') ''idmy-cluster-2net'' = None"
proof -
  obtain s' where run: "EnsureLoadBalancerDeleted sim_cloud CtxLive ex_service (ex_state ex_two_clusters) = (Ok (), s')"
    using ex_delete_run by blast
  have fits: "fits_page (sim_tgs (world (ex_state ex_two_clusters)))"
    by (rule sim_fits_page) (simp add: ex_state_def ex_two_clusters_def sim_empty_def)
  have "strings_Contains ''my-cluster-2net'' ''cluster''"
    using Contains_append [of "''my-''" "''cluster''" "''-2net''"] by simp
  moreover have "sim_tgs (world (ex_state ex_two_clusters)) ''idmy-cluster-2net'' = Some (ex_group ''my-cluster-2net'' [])"
    by (simp add: sim_tgs_def ex_state_def ex_two_clusters_def sim_empty_def st_view_def ex_group_def)
  moreover have "w_services (world (ex_state ex_two_clusters)) = []"
    by (simp add: ex_state_def ex_two_clusters_def sim_empty_def)
  ultimately have "sim_tgs (world s') ''idmy-cluster-2net'' = None"
    and "named lb_Name (sim_lbs (world s')) (defaultLoadBalancerName ex_service) = {}"
    using EnsureLoadBalancerDeleted_removes [of sim_cloud sim_lbs sim_tgs w_services, OF _ _ _ _ _ _ fits run]
      sim_lb_laws sim_lb_delete sim_tg_laws sim_tg_cleanup sim_fair sim_lister
    by (simp_all add: ex_group_def)
  with run show ?thesis by blast
qed

text \<open>
  What \<open>ensureLB\<close> refuses, and when: more than ten ports, no nodes and a malformed
  annotation are answered before any request (the state is the same), in this order; a
  target group that does not exist is answered after the one listing.
\<close>

theorem ensureLB_refuses:
  "(length (s_Ports svc) > 10 \<longrightarrow> ensureLB yc ctx svc nodes w = (Err ErrTooManyPorts, w)) \<and>
   (length (s_Ports svc) \<le> 10 \<and> nodes = [] \<longrightarrow> ensureLB yc ctx svc nodes w = (Err ErrNoNodes, w)) \<and>
   (length (s_Ports svc) \<le> 10 \<and> nodes \<noteq> [] \<and> getLoadBalancerParameters yc svc = Err e \<longrightarrow>
      ensureLB yc ctx svc nodes w = (Err (ErrParameters e), w)) \<and>
   (length (s_Ports svc) \<le> 10 \<and> nodes \<noteq> [] \<and> getLoadBalancerParameters yc svc = Ok prm \<and>
      GetTgByName (LbSvc (yandexService yc)) ctx (tgNameOf yc prm) w = (Ok None, w') \<longrightarrow>
      ensureLB yc ctx svc nodes w = (Err (ErrTGMissing (tgNameOf yc prm)), w'))"
  by (auto simp: ensureLB_def Let_def bind_io_def)

theorem ensureLB_refuses_witness:
  "ensureLB sim_cloud CtxLive ex_service [] sim_empty = (Err ErrNoNodes, sim_empty)"
  using ensureLB_refuses [of ex_service sim_cloud CtxLive "[]" sim_empty] by (simp add: ex_service_def)

text \<open>C17: 
  Ensuring the same service again makes no request that changes anything: the group and
  the load balancer are listed by name and the same status is answered.
\<close>

theorem ensureLB_twice:
  assumes laws: "lb_service_laws (LbSvc (yandexService yc)) lbs" "tg_service_laws (LbSvc (yandexService yc)) tgs"
    and frames: "\<And>v. lb_requests_keep (LbSvc (yandexService yc)) (\<lambda>w. tgs w = v)"
      "\<And>ctx q w. lbs (snd (TgList (lbs_TgSvc (LbSvc (yandexService yc))) ctx q w)) = lbs w"
    and ports: "valid_ports (s_Ports svc)"
    and run: "ensureLB yc ctx svc nodes w = (Ok st, w')"
    and prm: "getLoadBalancerParameters yc svc = Ok prm"
    and again: "GetTgByName (LbSvc (yandexService yc)) ctx (tgNameOf yc prm) w' = (Ok tg, w1)"
      "GetLbByName (LbSvc (yandexService yc)) ctx (defaultLoadBalancerName svc) w1 = (Ok lb, w2)"
  shows "ensureLB yc ctx svc nodes w' = (Ok st, w2)"
proof -
  let ?y = "yandexService yc"
  have lbf: "keeps (\<lambda>w. lbs w = v) (TgList (lbs_TgSvc (LbSvc ?y)) ctx (name_query (LbSvc ?y) n))" for v ctx n
    using frames(2) by (simp add: keeps_def)
  from ensureLB_puts [OF laws lbf refl ports run] prm obtain t addr where
    t: "named tg_Name (tgs w) (tgNameOf yc prm) = {t}" and
    put: "lb_put lbs (defaultLoadBalancerName svc) (listenerSpecsOf prm svc) (wanted_target_group yc prm svc (tg_Id t)) w addr w'"
    and st: "st = \<lparr>st_Ingress = [addr]\<rparr>" by auto
  from put obtain c where c: "named lb_Name (lbs w') (defaultLoadBalancerName svc) = {c}"
    "lb_matches c (listenerSpecsOf prm svc) (wanted_target_group yc prm svc (tg_Id t))" "firstAddress c = Ok addr"
    by (auto simp: lb_put_def)
  have "keeps (\<lambda>v. tgs v = tgs w) (ensureLB yc ctx svc nodes)"
    by (intro keeps_ensureLB tg_law_list_keeps [OF laws(2)] frames(1))
  with run have "tgs w' = tgs w" by (auto dest: keepsD)
  with t tg_lookup.find_named(2) [OF tg_law_list [OF laws(2)] tg_law_many [OF laws(2)] again(1)]
  have tg: "tg = Some t" by (cases tg) auto
  have "keeps (\<lambda>w. lbs w = lbs w') (GetTgByName (LbSvc ?y) ctx (tgNameOf yc prm))"
    by (rule tg_lookup.keeps_find) (rule lbf)
  with again(1) have "lbs w1 = lbs w'" by (auto dest: keepsD)
  with c(1) lb_lookup.find_named(2) [OF lb_law_list [OF laws(1)] lb_law_many [OF laws(1)] again(2)]
  have lb: "lb = Some c" by (cases lb) auto
  from run have guards: "length (s_Ports svc) \<le> 10" "nodes \<noteq> []" by (auto elim: ensureLB_Ok)
  show ?thesis
    using ensureLB_stable [OF guards prm again(1) [unfolded tg] again(2) [unfolded lb] ports c(2)] c(3) st by simp
qed

theorem ensureLB_twice_witness:
  "\<exists>w'. ensureLB sim_cloud CtxLive ex_service ex_nodes ex_synced = (Ok \<lparr>st_Ingress = [''203.0.113.7'']\<rparr>, w') \<and>
     ensureLB sim_cloud CtxLive ex_service ex_nodes w' = (Ok \<lparr>st_Ingress = [''203.0.113.7'']\<rparr>, w')"
proof -
  obtain w' t c where run: "ensureLB sim_cloud CtxLive ex_service ex_nodes ex_synced = (Ok \<lparr>st_Ingress = [''203.0.113.7'']\<rparr>, w')"
    and t: "GetTgByName (LbSvc sim_y) CtxLive (tgNameOf sim_cloud ex_params) w' = (Ok t, w')"
    and c: "GetLbByName (LbSvc sim_y) CtxLive (defaultLoadBalancerName ex_service) w' = (Ok c, w')"
    using ex_ensure_lb_lists by blast
  have "ensureLB sim_cloud CtxLive ex_service ex_nodes w' = (Ok \<lparr>st_Ingress = [''203.0.113.7'']\<rparr>, w')"
    by (rule ensureLB_twice [where lbs = sim_lbs and tgs = sim_tgs, OF _ _ _ _ ex_ports run ex_params_of])
      (use t c sim_lb_laws sim_tg_laws sim_frames in auto)
  with run show ?thesis by blast
qed

text \<open>C28: 
  The syncer and \<open>ensureLB\<close> agree on a group's name only up to the length of the prefix:
  for a node and a service annotated alike, the group that the syncer fills for the node's
  network is the one that \<open>ensureLB\<close> looks up for the same network exactly when there is
  no prefix or it has at most 36 bytes, because only the syncer truncates it.
\<close>

theorem group_names_agree:
  assumes "getLoadBalancerParameters yc svc = Ok prm"
    and "n_Annotations nd customTargetGroupNamePrefixAnnotation = s_Annotations svc customTargetGroupNamePrefixAnnotation"
  shows "tgKey (ClusterName (config yc)) nd (p_targetGroupNetworkID prm) = tgNameOf yc prm \<longleftrightarrow>
    (case s_Annotations svc customTargetGroupNamePrefixAnnotation of None \<Rightarrow> True | Some v \<Rightarrow> length v \<le> 36)"
  using assms(2) parameters_prefix [OF assms(1)]
  by (cases "s_Annotations svc customTargetGroupNamePrefixAnnotation")
    (simp_all add: tgKey_plain tgKey_prefix tgNameOf_def annotation_or_def take_prefix_iff)

theorem group_names_agree_witness:
  "\<exists>prm. getLoadBalancerParameters sim_cloud ex_prefixed_service = Ok prm \<and>
     tgKey ''cluster'' ex_prefixed_node (p_targetGroupNetworkID prm) \<noteq> tgNameOf sim_cloud prm"
proof -
  let ?prm = "ex_params\<lparr>p_targetGroupNamePrefix := replicate 37 (CHR ''p'')\<rparr>"
  have "getLoadBalancerParameters sim_cloud ex_prefixed_service = Ok ?prm"
    by (rule ex_prefixed_params)
  then show ?thesis
    using group_names_agree [of sim_cloud ex_prefixed_service ?prm ex_prefixed_node]
    by (intro exI [of _ ?prm]) (simp add: ex_prefixed_service_def ex_prefixed_node_def)
qed

text \<open>C29: 
  The listeners made from a valid service: one per port, in order, with distinct names
  (also for the one port that may have none), ports and node ports sign-extended to 64
  bits, distinct keys, and the type of the load balancer internal exactly when the
  parameters say so.
\<close>

theorem listenerSpecs_valid:
  assumes "valid_ports (s_Ports svc)" and "s_Ports svc \<noteq> []"
  shows "distinct (map ls_Name (listenerSpecsOf prm svc)) \<and> distinct (map ls_key (listenerSpecsOf prm svc)) \<and>
    map ls_Port (listenerSpecsOf prm svc) = map (\<lambda>p. scast (sp_Port p)) (s_Ports svc) \<and>
    map ls_TargetPort (listenerSpecsOf prm svc) = map (\<lambda>p. scast (sp_NodePort p)) (s_Ports svc) \<and>
    nlbTypeOf (listenerSpecsOf prm svc) = (if p_internal prm then NLB_INTERNAL else NLB_EXTERNAL)"
proof -
  have "map ls_Port (map (listenerSpecOf prm) (enumerate k ps)) = map (\<lambda>p. scast (sp_Port p)) ps"
    and "map ls_TargetPort (map (listenerSpecOf prm) (enumerate k ps)) = map (\<lambda>p. scast (sp_NodePort p)) ps" for k ps
    by (induction ps arbitrary: k) (simp_all add: listenerSpecOf_def Let_def)
  then show ?thesis
    using listenerSpecs_wf [OF assms(1), of prm] listenerSpecs_type [OF assms(2), of prm]
    by (simp add: specs_wf_def listenerSpecsOf_def)
qed

theorem listenerSpecs_valid_witness:
  "nlbTypeOf (listenerSpecsOf ex_params ex_service) = NLB_EXTERNAL \<and>
   map ls_Port (listenerSpecsOf ex_params ex_service) = [80]"
  using listenerSpecs_valid [OF ex_ports, of ex_params]
  by (simp add: ex_service_def ex_params_def zero_parameters_def)

text \<open>C31: 
  The health check of a service, from its annotations: the name is fixed; interval,
  timeout and the two thresholds are each the integer of their own annotation when that is
  positive and 2, 1, 2 and 2 otherwise; it asks by HTTP for \<open>/healthz\<close> on port 10256, or, when
  the service wants only local traffic, for the path and the port (sign-extended) that
  Kubernetes gave it. So the times and thresholds sent are positive.
\<close>

theorem health_check_of_annotations:
  assumes "getLoadBalancerParameters yc svc = Ok prm"
  shows "\<exists>i t h u. annotation_int svc healthcheckIntervalSeconds = Ok i \<and>
    annotation_int svc healthcheckTimeoutSeconds = Ok t \<and>
    annotation_int svc healthcheckHealthyThreshold = Ok h \<and>
    annotation_int svc healthcheckUnhealthyThreshold = Ok u \<and>
    healthCheckOf (yandexService yc) prm svc =
      \<lparr>hc_Name = ''kube-health-check'', hc_Interval = Some (if 0 <s i then i else 2),
       hc_Timeout = Some (if 0 <s t then t else 1),
       hc_UnhealthyThreshold = (if 0 <s u then u else 2), hc_HealthyThreshold = (if 0 <s h then h else 2),
       hc_HttpOptions = Some (if RequestsOnlyLocalTraffic (libs (yandexService yc)) svc
         then \<lparr>ho_Port = scast (snd (GetServiceHealthCheckPathPort (libs (yandexService yc)) svc)),
               ho_Path = fst (GetServiceHealthCheckPathPort (libs (yandexService yc)) svc)\<rparr>
         else \<lparr>ho_Port = 10256, ho_Path = ''/healthz''\<rparr>)\<rparr>"
proof -
  from assms obtain i t h u where ints: "annotation_int svc healthcheckIntervalSeconds = Ok i"
    "annotation_int svc healthcheckTimeoutSeconds = Ok t" "annotation_int svc healthcheckHealthyThreshold = Ok h"
    "annotation_int svc healthcheckUnhealthyThreshold = Ok u" and prm: "prm = parameters_of yc svc i t h u"
    by (auto simp: getLoadBalancerParameters_run bind_outcome_Ok_iff)
  have "healthCheckOf (yandexService yc) prm svc =
      \<lparr>hc_Name = ''kube-health-check'', hc_Interval = Some (if 0 <s i then i else 2),
       hc_Timeout = Some (if 0 <s t then t else 1),
       hc_UnhealthyThreshold = (if 0 <s u then u else 2), hc_HealthyThreshold = (if 0 <s h then h else 2),
       hc_HttpOptions = Some (if RequestsOnlyLocalTraffic (libs (yandexService yc)) svc
         then \<lparr>ho_Port = scast (snd (GetServiceHealthCheckPathPort (libs (yandexService yc)) svc)),
               ho_Path = fst (GetServiceHealthCheckPathPort (libs (yandexService yc)) svc)\<rparr>
         else \<lparr>ho_Port = 10256, ho_Path = ''/healthz''\<rparr>)\<rparr>"
    by (rule health_check.equality) (simp_all add: healthCheck_fields prm parameters_of_def)
  with ints show ?thesis by blast
qed

definition ex_local_service :: service where
  "ex_local_service = ex_service\<lparr>s_Annotations := [healthcheckUnhealthyThreshold \<mapsto> ''5'', healthcheckTimeoutSeconds \<mapsto> ''-3''],
     s_ExternalTrafficPolicy := ''Local'', s_HealthCheckNodePort := 31000\<rparr>"

lemma ex_local_params:
  "annotation_int ex_local_service healthcheckIntervalSeconds = Ok 0"
  "annotation_int ex_local_service healthcheckTimeoutSeconds = Ok (- 3)"
  "annotation_int ex_local_service healthcheckHealthyThreshold = Ok 0"
  "annotation_int ex_local_service healthcheckUnhealthyThreshold = Ok 5"
proof -
  have t: "''-3'' = strconv_Itoa (- 3)" and u: "''5'' = strconv_Itoa 5"
    by (simp_all add: strconv_Itoa_def decimal.simps digit_char_def char_of_def bit_0)
  show "annotation_int ex_local_service healthcheckTimeoutSeconds = Ok (- 3)"
    "annotation_int ex_local_service healthcheckUnhealthyThreshold = Ok 5"
    by (simp_all add: annotation_int_def ex_local_service_def healthcheckTimeoutSeconds_def
        healthcheckUnhealthyThreshold_def) (simp_all only: t u annotation_int_spec, simp_all)
qed (simp_all add: annotation_int_def ex_local_service_def healthcheckTimeoutSeconds_def
    healthcheckUnhealthyThreshold_def healthcheckIntervalSeconds_def healthcheckHealthyThreshold_def)

theorem health_check_of_annotations_witness:
  "\<exists>prm. getLoadBalancerParameters sim_cloud ex_local_service = Ok prm \<and>
     healthCheckOf (yandexService sim_cloud) prm ex_local_service =
       \<lparr>hc_Name = ''kube-health-check'', hc_Interval = Some 2, hc_Timeout = Some 1, hc_UnhealthyThreshold = 5,
        hc_HealthyThreshold = 2, hc_HttpOptions = Some \<lparr>ho_Port = 31000, ho_Path = ''/healthz''\<rparr>\<rparr>"
proof -
  have prm: "getLoadBalancerParameters sim_cloud ex_local_service = Ok (parameters_of sim_cloud ex_local_service 0 (- 3) 0 5)"
    by (simp add: getLoadBalancerParameters_run ex_local_params)
  have signs: "(0 :: int64) <s 5" "\<not> (0 :: int64) <s - 3" by (simp_all add: word_sless_alt)
  from health_check_of_annotations [OF prm] prm show ?thesis
    by (simp add: ex_local_params signs) (simp add: sim_api_def ex_local_service_def)
qed

text \<open>C33: 
  \<open>GetLoadBalancer\<close> says whether a load balancer of the service's name exists, without
  changing any, and its status has one entry per listener, of the form
  \<open>protocol://address:port\<close> in the field that is meant for an IP address.
\<close>

theorem GetLoadBalancer_spec:
  assumes "lb_service_laws (LbSvc (yandexService yc)) lbs" and "GetLoadBalancer yc ctx svc w = (Ok (st, found), w')"
  shows "lbs w' = lbs w \<and>
    (\<exists>c. named lb_Name (lbs w) (defaultLoadBalancerName svc) = {c} \<and> found \<and>
       st_Ingress st = map (\<lambda>l. strings_ToLower (Listener_Protocol_name (libs (yandexService yc)) (l_Protocol l)) @
         ''://'' @ l_Address l @ '':'' @ strconv_Itoa (sint (l_Port l))) (lb_Listeners c)) \<or>
    lbs w' = lbs w \<and> named lb_Name (lbs w) (defaultLoadBalancerName svc) = {} \<and> \<not> found \<and> st_Ingress st = []"
proof -
  from assms(2) obtain r where get: "GetLbByName (LbSvc (yandexService yc)) ctx (defaultLoadBalancerName svc) w = (Ok r, w')"
    and st: "(st, found) = (case r of None \<Rightarrow> (\<lparr>st_Ingress = []\<rparr>, False)
      | Some c \<Rightarrow> (\<lparr>st_Ingress = map (ingressOf (yandexService yc)) (lb_Listeners c)\<rparr>, True))"
    by (auto simp: GetLoadBalancer_def bind_io_Ok_iff split: option.splits)
  note F = lb_lookup.find_named [OF lb_law_list [OF assms(1)] lb_law_many [OF assms(1)] get]
  from F(1) F(2) [OF refl] st show ?thesis by (cases r) (simp_all add: ingressOf_def)
qed

theorem GetLoadBalancer_spec_witness:
  "\<exists>st found w'. GetLoadBalancer sim_cloud CtxLive ex_service sim_empty = (Ok (st, found), w') \<and>
     sim_lbs w' = sim_lbs sim_empty"
proof -
  have "GetLbByName (LbSvc sim_y) CtxLive n sim_empty = (Ok None, sim_empty)" for n
    by (simp add: lb_lookup.find_None_iff sim_api_def sim_lb_list_def sim_list_def sim_empty_def)
  then have "GetLoadBalancer sim_cloud CtxLive ex_service sim_empty = (Ok (\<lparr>st_Ingress = []\<rparr>, False), sim_empty)"
    by (simp add: GetLoadBalancer_def bind_io_OkI)
  with GetLoadBalancer_spec [of sim_cloud sim_lbs, OF _ this] sim_lb_laws show ?thesis by auto
qed

text \<open>C16: 
  \<open>ensureLB\<close> never panics for a valid service with a port, whatever is in the cloud, as
  long as the clients do not panic and the load balancer service keeps its laws: the index
  into the listeners, the type assertion on the created object, the comparison of the
  health checks and the dereference after the update are all safe. (Not so when somebody
  else removes the load balancer during the call, which the laws exclude.)
\<close>

theorem ensureLB_never_panics:
  assumes "lb_service_laws (LbSvc (yandexService yc)) lbs" and "lb_clients_return (LbSvc (yandexService yc))"
    and "\<And>ctx q. safe (\<lambda>_. True) (TgList (lbs_TgSvc (LbSvc (yandexService yc))) ctx q)"
    and "valid_ports (s_Ports svc)" and "s_Ports svc \<noteq> []"
  shows "ensureLB yc ctx svc nodes w \<noteq> (Abort p, w')"
proof
  assume run: "ensureLB yc ctx svc nodes w = (Abort p, w')"
  have ne: "listenerSpecsOf prm svc \<noteq> []" for prm
    using assms(5) by (simp add: listenerSpecsOf_def flip: length_greater_0_conv)
  have lookup: "GetTgByName (LbSvc (yandexService yc)) ctx n w \<noteq> (Abort q, v)" for n q v
    using tg_lookup.find_aborts [of q "LbSvc (yandexService yc)" ctx n w v] assms(3) by (auto simp: safe_def)
  note lb = CreateOrUpdateLB_not_Abort [OF assms(1,2) ne listenerSpecs_wf [OF assms(4)] wanted_target_group_wf]
  from run obtain prm where guards: "length (s_Ports svc) \<le> 10" "nodes \<noteq> []" "getLoadBalancerParameters yc svc = Ok prm"
    using getLoadBalancerParameters_not_Abort [of yc svc]
    by (auto simp: ensureLB_def Let_def split: if_splits outcome.splits)
  from run show False
    unfolding ensureLB_run [OF guards]
    by (auto simp: bind_io_Abort_iff lookup lb split: option.splits)
qed

theorem ensureLB_never_panics_witness:
  "\<not> (\<exists>p w'. ensureLB sim_cloud CtxLive ex_service ex_nodes ex_synced = (Abort p, w'))"
proof -
  have "safe (\<lambda>_. True) (TgList (lbs_TgSvc (LbSvc (yandexService sim_cloud))) ctx q)" for ctx q
    by (simp add: safe_def sim_api_def)
  then show ?thesis
    using ensureLB_never_panics [of sim_cloud sim_lbs ex_service CtxLive ex_nodes ex_synced] sim_lb_laws sim_returns ex_ports
    by (simp add: ex_service_def)
qed

end
